(* ===== verification/Prelude.thy ===== *)
theory Prelude
  imports Main "HOL-Library.Word" "HOL-Library.AList" "HOL-Library.Multiset" "HOL-Library.List_Lexorder"
begin

text \<open>
  What the components of the Lite-Vision model share: Rust's fixed-width integers (the release
  profile of the workspace sets no overflow checks, so \<open>+\<close>, \<open>-\<close> and \<open>*\<close> wrap, which is the
  arithmetic of \<open>'n word\<close>), the saturating operations of the standard library, little-endian byte
  encodings, slices, the result of operations that may fail or panic, and the two standard maps
  (\<open>HashMap\<close>, \<open>BTreeMap\<close>) behind one interface, the locale \<open>kv_store\<close>.
\<close>

unbundle bit_operations_syntax

named_theorems u64_simps \<open>reading the results of 64-bit operations as natural numbers\<close>
named_theorems op_defs \<open>definitions of the operations of a component\<close>

section \<open>Types\<close>

type_synonym u8 = "8 word"
type_synonym u16 = "16 word"
type_synonym u32 = "32 word"
type_synonym u64 = "64 word"
type_synonym bytes = "u8 list"

text \<open>\<open>[u8; 32]\<close>: identifiers, keys and digests; \<open>List_Lexorder\<close> gives Rust's array order.\<close>

type_synonym bytes32 = "u8 list"

abbreviation zero32 :: bytes32 where
  "zero32 \<equiv> replicate 32 0"

text \<open>
  An operation on \<open>&mut self\<close> returning \<open>Result<'a, 'e>\<close> becomes a function to the result
  (\<open>Inl\<close> the error) and the state left behind, also on the error path.
\<close>

type_synonym ('e, 'a, 's) op = "'s \<Rightarrow> ('e + 'a) \<times> 's"

text \<open>A computation that may panic (division by zero, \<open>unwrap\<close> of \<open>None\<close>).\<close>

datatype 'a rust = Return 'a | Panic

section \<open>Saturating arithmetic\<close>

definition saturating_add :: "'a::len word \<Rightarrow> 'a word \<Rightarrow> 'a word" where
  "saturating_add a b = (if unat a + unat b < 2 ^ LENGTH('a) then a + b else - 1)"

definition saturating_sub :: "'a::len word \<Rightarrow> 'a word \<Rightarrow> 'a word" where
  "saturating_sub a b = (if b \<le> a then a - b else 0)"

definition saturating_mul :: "'a::len word \<Rightarrow> 'a word \<Rightarrow> 'a word" where
  "saturating_mul a b = (if unat a * unat b < 2 ^ LENGTH('a) then a * b else - 1)"

lemma unat_add_no_wrap [u64_simps]:
  "unat a + unat b < 2 ^ LENGTH('a) \<Longrightarrow> unat (a + b :: 'a::len word) = unat a + unat b"
  by (simp add: unat_word_ariths)

lemma unat_mult_no_wrap [u64_simps]:
  "unat a * unat b < 2 ^ LENGTH('a) \<Longrightarrow> unat (a * b :: 'a::len word) = unat a * unat b"
  by (simp add: unat_word_ariths)

lemma unat_minus_one_word: "unat (- 1 :: 'a::len word) = 2 ^ LENGTH('a) - 1"
  by (simp add: unsigned_minus_1_eq_mask mask_eq_exp_minus_1)

lemma unat_saturating_add [u64_simps]:
  "unat (saturating_add a b :: 'a::len word) = min (unat a + unat b) (2 ^ LENGTH('a) - 1)"
  by (auto simp: saturating_add_def unat_add_no_wrap unat_minus_one_word min_def)

lemma unat_saturating_sub [u64_simps]:
  "unat (saturating_sub a b :: 'a::len word) = unat a - unat b"
  by (auto simp: saturating_sub_def unat_sub word_le_nat_alt)

lemma unat_saturating_mul [u64_simps]:
  "unat (saturating_mul a b :: 'a::len word) = min (unat a * unat b) (2 ^ LENGTH('a) - 1)"
proof (cases "unat a * unat b < 2 ^ LENGTH('a)")
  case True
  then show ?thesis by (simp add: saturating_mul_def unat_mult_no_wrap)
next
  case False
  then have "2 ^ LENGTH('a) - 1 \<le> unat a * unat b" by linarith
  with False show ?thesis by (simp add: saturating_mul_def unat_minus_one_word)
qed

lemma saturating_sub_le: "b \<le> a \<Longrightarrow> saturating_sub a b = a - b"
  by (simp add: saturating_sub_def)

lemma saturating_sub_bound: "saturating_sub a b \<le> a"
  by (simp add: word_le_nat_alt unat_saturating_sub)

lemma unat_lt_u64 [simp]: "unat (a :: u64) < 18446744073709551616"
  using unsigned_less [of a] by simp

lemma unat_ucast_u32_u64 [simp]: "unat (ucast (w :: u32) :: u64) = unat w"
proof -
  have "unat w < 2 ^ LENGTH(32)" by (rule unsigned_less)
  then have "unat w < 2 ^ 64" by simp
  then show ?thesis by (simp add: unsigned_ucast_eq take_bit_nat_eq_self)
qed

lemma unat_of_nat_small: "n < 2 ^ LENGTH('a) \<Longrightarrow> unat (of_nat n :: 'a::len word) = n"
  by (simp add: unsigned_of_nat take_bit_nat_eq_self)

lemma find_in_list: "find P xs = Some x \<Longrightarrow> x \<in> set xs \<and> P x"
  by (auto simp: find_Some_iff)

lemma unat_le_self_div: "unat ((a :: 'a::len word) div b) = unat a div unat b"
  by (simp add: unat_div)

text \<open>\<open>sort_by(|a, b| b.score.cmp(&a.score))\<close> followed by \<open>take(n)\<close>: a stable descending sort; what is taken is at least
  as good as what is left out.\<close>

lemma insort_key_map: "insort_key f (g x) (map g xs) = map g (insort_key (\<lambda>x. f (g x)) x xs)"
  by (induction xs) simp_all

lemma sort_key_map: "sort_key f (map g xs) = map g (sort_key (\<lambda>x. f (g x)) xs)"
  by (induction xs) (simp_all add: insort_key_map)

lemma descending_take:
  fixes score :: "'x \<Rightarrow> 'w::len word"
  defines "l xs \<equiv> sort_key (\<lambda>x. - int (unat (score x))) xs"
  shows "set (take n (l xs)) \<subseteq> set xs \<and> length (take n (l xs)) = min n (length xs) \<and>
    sorted_wrt (\<lambda>u v. score v \<le> score u) (take n (l xs)) \<and>
    (\<exists>left_out. mset xs = mset (take n (l xs)) + mset left_out \<and>
       (\<forall>u \<in> set (take n (l xs)). \<forall>v \<in> set left_out. score v \<le> score u))"
proof -
  have "sorted (map (\<lambda>x. - int (unat (score x))) (l xs))" by (simp add: l_def)
  then have srt: "sorted_wrt (\<lambda>u v. score v \<le> score u) (take n (l xs) @ drop n (l xs))"
    unfolding append_take_drop_id sorted_map by (rule sorted_wrt_mono_rel [rotated]) (simp add: word_le_def)
  have "mset xs = mset (take n (l xs)) + mset (drop n (l xs))"
    unfolding l_def by (metis append_take_drop_id mset_append mset_sort)
  with srt show ?thesis unfolding sorted_wrt_append
    by (auto simp: l_def min.commute dest: in_set_takeD)
qed

text \<open>A list to which elements are added at the end while the oldest is dropped above a bound holds the last ones added.\<close>

lemma bounded_push:
  assumes "0 < n"
  shows "(let ys = drop (length xs - n) xs @ [x] in if n < length ys then tl ys else ys) = drop (length (xs @ [x]) - n) (xs @ [x])"
proof (cases "n \<le> length xs")
  case True
  then have "Suc (length xs - n) = Suc (length xs) - n" by simp
  with True assms drop_Suc [of "length xs - n" xs] show ?thesis by (simp add: tl_drop)
qed simp

section \<open>Little-endian bytes and slices\<close>

text \<open>
  \<open>to_le_bytes\<close> of an integer of \<open>n\<close> bytes and \<open>from_le_bytes\<close>; \<open>sub_slice xs i j\<close> is \<open>xs[i..j]\<close>.
\<close>

primrec to_le_bytes :: "nat \<Rightarrow> 'a::len word \<Rightarrow> bytes" where
  "to_le_bytes 0 w = []"
| "to_le_bytes (Suc n) w = ucast w # to_le_bytes n (drop_bit 8 w)"

primrec from_le_bytes :: "bytes \<Rightarrow> 'a::len word" where
  "from_le_bytes [] = 0"
| "from_le_bytes (b # bs) = ucast b OR push_bit 8 (from_le_bytes bs)"

definition sub_slice :: "'a list \<Rightarrow> nat \<Rightarrow> nat \<Rightarrow> 'a list" where
  "sub_slice xs i j = take (j - i) (drop i xs)"

text \<open>\<open>xs.get(i..j)\<close>: \<open>None\<close> where the range leaves the slice.\<close>

definition get_range :: "'a list \<Rightarrow> nat \<Rightarrow> nat \<Rightarrow> 'a list option" where
  "get_range xs i j = (if i \<le> j \<and> j \<le> length xs then Some (sub_slice xs i j) else None)"

lemma length_to_le_bytes [simp]: "length (to_le_bytes n w) = n"
  by (induction n arbitrary: w) auto

lemma le_step: "ucast (ucast w :: u8) OR push_bit 8 (take_bit n (drop_bit 8 w)) = take_bit (n + 8) (w :: 'a::len word)"
  by (rule bit_word_eqI) (auto simp: bit_simps)

lemma from_to_le_bytes_take_bit: "from_le_bytes (to_le_bytes n w) = take_bit (8 * n) (w :: 'a::len word)"
proof (induction n arbitrary: w)
  case 0
  then show ?case by simp
next
  case (Suc n)
  then show ?case by (simp add: le_step add.commute)
qed

lemma from_to_le_bytes: "LENGTH('a) \<le> 8 * n \<Longrightarrow> from_le_bytes (to_le_bytes n w) = (w :: 'a::len word)"
  by (simp add: from_to_le_bytes_take_bit take_bit_word_eq_self)

lemma from_to_le_u64 [simp]: "from_le_bytes (to_le_bytes 8 w) = (w :: u64)"
  by (rule from_to_le_bytes) simp

lemma length_slice [simp]: "j \<le> length xs \<Longrightarrow> length (sub_slice xs i j) = j - i"
  by (simp add: sub_slice_def)

lemma slice_append_left [simp]: "j \<le> length xs \<Longrightarrow> sub_slice (xs @ ys) i j = sub_slice xs i j"
  by (simp add: sub_slice_def)

lemma slice_append_right [simp]:
  "length xs \<le> i \<Longrightarrow> sub_slice (xs @ ys) i j = sub_slice ys (i - length xs) (j - length xs)"
  by (simp add: sub_slice_def)

lemma slice_all [simp]: "sub_slice xs 0 (length xs) = xs"
  by (simp add: sub_slice_def)

lemma slice_whole: "j = length xs \<Longrightarrow> sub_slice xs 0 j = xs"
  by simp

section \<open>The standard maps\<close>

text \<open>
  The contract a \<open>HashMap\<close> or a \<open>BTreeMap\<close> gives its clients, over the entries the map holds:
  keys are distinct, \<open>insert\<close> replaces the entry of its key, \<open>remove\<close> drops it. Clients sum and
  count over the values (\<open>values().map(..).sum()\<close>, \<open>values().filter(..).count()\<close>); the lemmas on
  these sums after an update are proved once here and rest on no iteration order.
\<close>

definition total :: "('v \<Rightarrow> 'w::comm_monoid_add) \<Rightarrow> ('k \<times> 'v) list \<Rightarrow> 'w" where
  "total f es = sum_list (map (f \<circ> snd) es)"

lemma total_Nil [simp]: "total f [] = 0"
  by (simp add: total_def)

lemma total_Cons [simp]: "total f ((k, v) # es) = f v + total f es"
  by (simp add: total_def)

lemma total_mset: "total f es = (\<Sum>p \<in># mset es. f (snd p))"
  by (induction es) (auto simp: total_def)

lemma count_values: "length [v \<leftarrow> map snd m. P v] = total (\<lambda>v. if P v then 1 else 0 :: nat) m"
  by (induction m) auto

lemma sum_map_of: "distinct (map fst m) \<Longrightarrow>
    (\<Sum>k \<in> dom (map_of m). case map_of m k of None \<Rightarrow> 0 | Some v \<Rightarrow> f v) = total f m"
proof (induction m)
  case Nil
  then show ?case by simp
next
  case (Cons p m)
  obtain k v where p: "p = (k, v)" by fastforce
  let ?g = "\<lambda>m j. case map_of m j of None \<Rightarrow> 0 | Some v \<Rightarrow> f v"
  have k: "k \<notin> dom (map_of m)" using Cons.prems p by (auto simp: dom_map_of_conv_image_fst)
  have "sum (?g (p # m)) (dom (map_of m)) = sum (?g m) (dom (map_of m))"
    by (rule sum.cong) (use k p in auto)
  moreover have "sum (?g (p # m)) (insert k (dom (map_of m))) = ?g (p # m) k + sum (?g (p # m)) (dom (map_of m))"
    by (rule sum.insert [OF finite_dom_map_of k])
  moreover have "dom (map_of (p # m)) = insert k (dom (map_of m))" by (auto simp: p)
  ultimately have "sum (?g (p # m)) (dom (map_of (p # m))) = f v + sum (?g m) (dom (map_of m))"
    by (simp only:) (simp add: p)
  with Cons show ?case by (simp only: p total_Cons) simp
qed

lemma map_of_removed: "map_of [p \<leftarrow> es. fst p \<noteq> k] j = (if j = k then None else map_of es j)"
  by (induction es) auto

lemma mset_absent: "k \<notin> fst ` set m \<Longrightarrow> {#x \<in># mset m. fst x \<noteq> k#} = mset m"
  by (induction m) auto

locale kv_store =
  fixes insert :: "'k \<Rightarrow> 'v \<Rightarrow> ('k \<times> 'v) list \<Rightarrow> ('k \<times> 'v) list"
    and remove :: "'k \<Rightarrow> ('k \<times> 'v) list \<Rightarrow> ('k \<times> 'v) list"
    and wf :: "('k \<times> 'v) list \<Rightarrow> bool"
  assumes wf_empty: "wf []"
    and wf_insert: "wf m \<Longrightarrow> wf (insert k v m)"
    and wf_remove: "wf m \<Longrightarrow> wf (remove k m)"
    and wf_distinct: "wf m \<Longrightarrow> distinct (map fst m)"
    and mset_insert: "wf m \<Longrightarrow> mset (insert k v m) = add_mset (k, v) (mset [p \<leftarrow> m. fst p \<noteq> k])"
    and remove_filter: "remove k m = [p \<leftarrow> m. fst p \<noteq> k]"
begin

lemma get_remove: "map_of (remove k m) j = (if j = k then None else map_of m j)"
  by (simp add: remove_filter map_of_removed)

lemma set_insert: "wf m \<Longrightarrow> set (insert k v m) = Set.insert (k, v) {p \<in> set m. fst p \<noteq> k}"
proof -
  assume "wf m"
  then have "set_mset (mset (insert k v m)) = set_mset (add_mset (k, v) (mset [p \<leftarrow> m. fst p \<noteq> k]))"
    by (simp only: mset_insert)
  then show ?thesis by simp
qed

lemma get_insert: "wf m \<Longrightarrow> map_of (insert k v m) j = (if j = k then Some v else map_of m j)"
proof -
  assume w: "wf m"
  have d: "distinct (map fst (insert k v m))" and dm: "distinct (map fst m)"
    using w by (auto intro: wf_distinct wf_insert)
  have "map_of (insert k v m) j = Some u \<longleftrightarrow> (if j = k then u = v else map_of m j = Some u)" for u
    using set_insert [OF w, of k v] by (auto simp: map_of_eq_Some_iff [OF d] map_of_eq_Some_iff [OF dm])
  then have "map_of (insert k v m) j = Some u \<longleftrightarrow> (if j = k then Some v else map_of m j) = Some u" for u
    by auto
  then show ?thesis by (metis option.exhaust)
qed

lemma dom_insert: "wf m \<Longrightarrow> dom (map_of (insert k v m)) = Set.insert k (dom (map_of m))"
  by (auto simp: dom_def get_insert)

lemma entry_iff: "wf m \<Longrightarrow> (k, v) \<in> set m \<longleftrightarrow> map_of m k = Some v"
  by (simp add: map_of_eq_Some_iff wf_distinct)

lemma total_insert: "wf m \<Longrightarrow> total f (insert k v m) = f v + total f (remove k m)"
  by (simp add: total_mset mset_insert remove_filter)

lemma remove_absent: "map_of m k = None \<Longrightarrow> remove k m = m"
  by (auto simp: remove_filter map_of_eq_None_iff intro!: filter_True)

lemma total_insert_new: "wf m \<Longrightarrow> map_of m k = None \<Longrightarrow> total f (insert k v m) = f v + total f m"
  by (simp add: total_insert remove_absent)

lemma total_split: "wf m \<Longrightarrow> map_of m k = Some v \<Longrightarrow> total f m = f v + total f (remove k m)"
proof -
  assume w: "wf m" and g: "map_of m k = Some v"
  have "distinct (map fst m) \<Longrightarrow> map_of m k = Some v \<Longrightarrow> mset m = add_mset (k, v) (mset [p \<leftarrow> m. fst p \<noteq> k])" for m
  proof (induction m)
    case Nil
    then show ?case by simp
  next
    case (Cons p m)
    then show ?case by (cases p) (auto split: if_splits simp: mset_absent)
  qed
  then have e: "mset m = add_mset (k, v) (mset (remove k m))"
    using wf_distinct [OF w] g by (simp only: remove_filter)
  show ?thesis unfolding total_mset e by simp
qed

lemma total_update:
  fixes f :: "'v \<Rightarrow> 'w::ab_group_add"
  shows "wf m \<Longrightarrow> map_of m k = Some u \<Longrightarrow> total f (insert k v m) = total f m - f u + f v"
  by (simp add: total_insert total_split)

lemma values_insert: "wf m \<Longrightarrow> u \<in> snd ` set (insert k v m) \<Longrightarrow> u = v \<or> u \<in> snd ` set m"
  by (auto simp: set_insert)

end

text \<open>
  \<open>HashMap\<close>: an association list with distinct keys; the order of the list stands for the
  unspecified iteration order. \<open>get_mut\<close> followed by a mutation is a lookup and an insertion.
\<close>

abbreviation hm_insert :: "'k \<Rightarrow> 'v \<Rightarrow> ('k \<times> 'v) list \<Rightarrow> ('k \<times> 'v) list" where
  "hm_insert \<equiv> AList.update"

abbreviation hm_remove :: "'k \<Rightarrow> ('k \<times> 'v) list \<Rightarrow> ('k \<times> 'v) list" where
  "hm_remove \<equiv> AList.delete"

definition hm_wf :: "('k \<times> 'v) list \<Rightarrow> bool" where
  "hm_wf m \<longleftrightarrow> distinct (map fst m)"

lemma mset_update: "distinct (map fst m) \<Longrightarrow>
    mset (AList.update k v m) = add_mset (k, v) (mset [p \<leftarrow> m. fst p \<noteq> k])"
proof (induction m)
  case Nil
  then show ?case by simp
next
  case (Cons p m)
  then show ?case by (cases p) (auto simp: mset_absent)
qed

lemma delete_filter: "AList.delete k m = [p \<leftarrow> m. fst p \<noteq> k]"
  by (induction m) auto

interpretation hm: kv_store hm_insert hm_remove hm_wf
  by unfold_locales
    (auto simp: hm_wf_def mset_update delete_filter distinct_update intro: distinct_map_filter)

text \<open>\<open>BTreeMap\<close>: the entries in the strict order of their keys, which is the iteration order.\<close>

fun bt_insert :: "'k::linorder \<Rightarrow> 'v \<Rightarrow> ('k \<times> 'v) list \<Rightarrow> ('k \<times> 'v) list" where
  "bt_insert k v [] = [(k, v)]"
| "bt_insert k v ((j, u) # m) =
     (if k < j then (k, v) # (j, u) # m
      else if k = j then (k, v) # m
      else (j, u) # bt_insert k v m)"

abbreviation bt_remove :: "'k \<Rightarrow> ('k \<times> 'v) list \<Rightarrow> ('k \<times> 'v) list" where
  "bt_remove \<equiv> AList.delete"

definition bt_wf :: "('k::linorder \<times> 'v) list \<Rightarrow> bool" where
  "bt_wf m \<longleftrightarrow> sorted_wrt (<) (map fst m)"

lemma set_bt_insert: "set (map fst (bt_insert k v m)) = Set.insert k (set (map fst m))"
  by (induction k v m rule: bt_insert.induct) auto

lemma bt_wf_insert: "bt_wf m \<Longrightarrow> bt_wf (bt_insert k v m)"
proof (induction k v m rule: bt_insert.induct)
  case (1 k v)
  then show ?case by (simp add: bt_wf_def)
next
  case (2 k v j u m)
  then show ?case using set_bt_insert [of k v m] by (auto simp: bt_wf_def)
qed

lemma mset_bt_insert: "bt_wf m \<Longrightarrow> mset (bt_insert k v m) = add_mset (k, v) (mset [p \<leftarrow> m. fst p \<noteq> k])"
proof (induction k v m rule: bt_insert.induct)
  case (1 k v)
  then show ?case by simp
next
  case (2 k v j u m)
  consider "k < j" | "k = j" | "j < k" by fastforce
  then show ?case
  proof cases
    case 1
    with "2.prems" have "k \<notin> fst ` set ((j, u) # m)" by (auto simp: bt_wf_def)
    from mset_absent [OF this] 1 show ?thesis by (auto split: if_splits)
  next
    case 2
    with "2.prems" have "k \<notin> fst ` set m" by (auto simp: bt_wf_def)
    from mset_absent [OF this] 2 show ?thesis by simp
  next
    case 3
    with "2.prems" "2.IH" show ?thesis by (simp add: bt_wf_def)
  qed
qed

lemma bt_wf_filter: "bt_wf m \<Longrightarrow> bt_wf [p \<leftarrow> m. P p]"
  by (induction m) (auto simp: bt_wf_def)

interpretation bt: kv_store bt_insert bt_remove bt_wf
proof (unfold_locales, goal_cases)
  case 1
  show ?case by (simp add: bt_wf_def)
next
  case (2 m k v)
  then show ?case by (rule bt_wf_insert)
next
  case (3 m k)
  then show ?case by (simp add: delete_filter bt_wf_filter)
next
  case (4 m)
  then show ?case by (simp add: bt_wf_def strict_sorted_iff)
next
  case (5 m k v)
  then show ?case by (rule mset_bt_insert)
next
  case (6 k m)
  show ?case by (simp add: delete_filter)
qed

text \<open>\<open>entry(k).or_insert_with(Vec::new).push(x)\<close>\<close>

definition hm_push :: "'k \<Rightarrow> 'x \<Rightarrow> ('k \<times> 'x list) list \<Rightarrow> ('k \<times> 'x list) list" where
  "hm_push k x m = hm_insert k ((case map_of m k of None \<Rightarrow> [] | Some xs \<Rightarrow> xs) @ [x]) m"

definition hm_lookup_list :: "('k \<times> 'x list) list \<Rightarrow> 'k \<Rightarrow> 'x list" where
  "hm_lookup_list m k = (case map_of m k of None \<Rightarrow> [] | Some xs \<Rightarrow> xs)"

lemma hm_wf_push [simp]: "hm_wf m \<Longrightarrow> hm_wf (hm_push k x m)"
  by (simp add: hm_push_def hm.wf_insert)

lemma lookup_list_push: "hm_lookup_list (hm_push k x m) j = (if j = k then hm_lookup_list m k @ [x] else hm_lookup_list m j)"
  by (auto simp: hm_lookup_list_def hm_push_def update_conv')

lemmas map_of_hm [simp] = update_conv' delete_conv'

section \<open>Weighted quorums\<close>

text \<open>
  What a quorum rule has to give: in a system that is \<open>valid\<close>, the members are finitely many and the
  threshold is above two thirds of their total weight. Any two sets of members that reach the
  threshold then share more than a third of the weight, so they intersect.
\<close>

locale weighted_quorum =
  fixes members :: "'s \<Rightarrow> 'm set" and weight :: "'s \<Rightarrow> 'm \<Rightarrow> nat" and threshold :: "'s \<Rightarrow> nat"
    and valid :: "'s \<Rightarrow> bool"
  assumes finite_members: "valid s \<Longrightarrow> finite (members s)"
    and two_thirds: "valid s \<Longrightarrow> 2 * sum (weight s) (members s) < 3 * threshold s"
begin

lemma quorum_overlap:
  assumes "valid s" "A \<subseteq> members s" "B \<subseteq> members s"
    and "threshold s \<le> sum (weight s) A" "threshold s \<le> sum (weight s) B"
  shows "sum (weight s) (members s) < 3 * sum (weight s) (A \<inter> B)"
proof -
  have fin: "finite (members s)" by (rule finite_members [OF assms(1)])
  then have fA: "finite A" and fB: "finite B" using assms(2,3) finite_subset by auto
  have "sum (weight s) (A \<union> B) + sum (weight s) (A \<inter> B) = sum (weight s) A + sum (weight s) B"
    by (rule sum.union_inter [OF fA fB])
  moreover have "sum (weight s) (A \<union> B) \<le> sum (weight s) (members s)"
    using assms(2,3) fin by (intro sum_mono2) auto
  ultimately show ?thesis using two_thirds [OF assms(1)] assms(4,5) by linarith
qed

lemma quorums_intersect:
  assumes "valid s" "A \<subseteq> members s" "B \<subseteq> members s"
    and "threshold s \<le> sum (weight s) A" "threshold s \<le> sum (weight s) B"
  shows "A \<inter> B \<noteq> {}"
  using quorum_overlap [OF assms] by auto

end

section \<open>Runs of a component\<close>

text \<open>
  A component is driven by its public calls, one step each. A predicate every step keeps holds along
  every run (\<open>step_closed\<close>); with the initial states it holds in every reachable one
  (\<open>transition_system\<close>). A component refines an abstract machine when each of its steps, in a state
  with the invariant, is a step of the machine on the abstracted states or leaves it unchanged
  (\<open>simulation\<close>).
\<close>

locale step_closed =
  fixes step :: "'s \<Rightarrow> 's \<Rightarrow> bool" and inv :: "'s \<Rightarrow> bool"
  assumes step_inv: "step s s' \<Longrightarrow> inv s \<Longrightarrow> inv s'"
begin

lemma steps_inv: "step\<^sup>*\<^sup>* s s' \<Longrightarrow> inv s \<Longrightarrow> inv s'"
  by (induction rule: rtranclp_induct) (auto intro: step_inv)

end

locale transition_system = step_closed step inv
  for step :: "'s \<Rightarrow> 's \<Rightarrow> bool" and inv :: "'s \<Rightarrow> bool" +
  fixes initial :: "'s \<Rightarrow> bool"
  assumes initial_inv: "initial s \<Longrightarrow> inv s"
begin

lemma reachable_inv: "step\<^sup>*\<^sup>* s s' \<Longrightarrow> initial s \<Longrightarrow> inv s'"
  by (blast intro: steps_inv initial_inv)

end

locale simulation = step_closed step inv
  for step :: "'s \<Rightarrow> 's \<Rightarrow> bool" and inv :: "'s \<Rightarrow> bool" +
  fixes abs :: "'s \<Rightarrow> 'a" and astep :: "'a \<Rightarrow> 'a \<Rightarrow> bool"
  assumes step_simulated: "step s s' \<Longrightarrow> inv s \<Longrightarrow> abs s' = abs s \<or> astep (abs s) (abs s')"
begin

lemma run_simulated: "step\<^sup>*\<^sup>* s s' \<Longrightarrow> inv s \<Longrightarrow> astep\<^sup>*\<^sup>* (abs s) (abs s')"
proof (induction rule: rtranclp_induct)
  case (step s1 s2)
  from step_simulated [OF step.hyps(2) steps_inv [OF step.hyps(1) step.prems]] step.IH [OF step.prems]
  show ?case by (auto intro: rtranclp.rtrancl_into_rtrancl)
qed simp

end

lemma two_thirds_plus_one: "2 * n < 3 * (n * 2 div 3 + 1)" for n :: nat
  by simp

end
