(* ===== verification/Float64.thy ===== *)
theory Float64
  imports Prelude
begin

text \<open>
  The part of \<open>f64\<close> arithmetic the validator code uses, on non-negative values: a pair \<open>(m, e)\<close> of a
  significand and an exponent stands for \<open>m * 2 ^ e\<close>. Every operation computes the exact result and
  rounds it once to 53 significant bits, ties to even, as IEEE 754 prescribes. The operands are
  64-bit integers and constants between \<open>2 ^ - 7\<close> and \<open>2 ^ 14\<close>, so neither overflow to infinity nor
  subnormal numbers arise.
\<close>

type_synonym f64 = "nat \<times> int"

fun bitlen :: "nat \<Rightarrow> nat" where
  "bitlen n = (if n = 0 then 0 else Suc (bitlen (n div 2)))"

declare bitlen.simps [simp del]

text \<open>Division rounded to the nearest integer, ties to even.\<close>

definition rne :: "nat \<Rightarrow> nat \<Rightarrow> nat" where
  "rne a b = (let d = a div b; r = a mod b
              in if 2 * r < b \<or> 2 * r = b \<and> even d then d else d + 1)"

definition round53 :: "nat \<Rightarrow> int \<Rightarrow> f64" where
  "round53 m e = (let k = bitlen m - 53 in if k = 0 then (m, e) else (rne m (2 ^ k), e + int k))"

definition f64_of_u64 :: "u64 \<Rightarrow> f64" where
  "f64_of_u64 n = round53 (unat n) 0"

fun f64_mul :: "f64 \<Rightarrow> f64 \<Rightarrow> f64" where
  "f64_mul (m1, e1) (m2, e2) = round53 (m1 * m2) (e1 + e2)"

text \<open>
  The quotient is taken with 128 extra bits and one more bit that records a remainder: enough to
  decide the rounding, since the significands have at most 54 bits.
\<close>

fun f64_div :: "f64 \<Rightarrow> f64 \<Rightarrow> f64" where
  "f64_div (m1, e1) (m2, e2) =
     (let a = m1 * 2 ^ 128; sticky = (if a mod m2 = 0 then 0 else 1)
      in round53 (2 * (a div m2) + sticky) (e1 - e2 - 129))"

text \<open>\<open>x as u64\<close>: truncation towards zero, saturating at the largest \<open>u64\<close>.\<close>

fun f64_to_u64 :: "f64 \<Rightarrow> u64" where
  "f64_to_u64 (m, e) =
     (let n = (if 0 \<le> e then m * 2 ^ nat e else m div 2 ^ nat (- e)) in of_nat (min n (2 ^ 64 - 1)))"

text \<open>\<open>x as u32\<close>, likewise.\<close>

fun f64_to_u32 :: "f64 \<Rightarrow> u32" where
  "f64_to_u32 (m, e) =
     (let n = (if 0 \<le> e then m * 2 ^ nat e else m div 2 ^ nat (- e)) in of_nat (min n (2 ^ 32 - 1)))"

fun f64_less :: "f64 \<Rightarrow> f64 \<Rightarrow> bool" where
  "f64_less (m1, e1) (m2, e2) = (let e = min e1 e2 in m1 * 2 ^ nat (e1 - e) < m2 * 2 ^ nat (e2 - e))"

text \<open>Subtraction, with a negative difference cut to zero: it is only used where the result is scaled and cast to an
  unsigned integer, which turns every negative number into zero.\<close>

fun f64_sub_cut :: "f64 \<Rightarrow> f64 \<Rightarrow> f64" where
  "f64_sub_cut (m1, e1) (m2, e2) =
     (let e = min e1 e2 in round53 (m1 * 2 ^ nat (e1 - e) - m2 * 2 ^ nat (e2 - e)) e)"

lemma bitlen_bounds: "0 < n \<Longrightarrow> 2 ^ (bitlen n - 1) \<le> n \<and> n < 2 ^ bitlen n"
proof (induction n rule: bitlen.induct)
  case (1 n)
  show ?case
  proof (cases "n = 1")
    case True
    then show ?thesis by (simp add: bitlen.simps [of "Suc 0"] bitlen.simps [of 0])
  next
    case False
    with "1.prems" have pos: "0 < n div 2" by linarith
    have IH: "2 ^ (bitlen (n div 2) - 1) \<le> n div 2" "n div 2 < 2 ^ bitlen (n div 2)"
      using "1.IH" "1.prems" pos by auto
    have b: "bitlen n = Suc (bitlen (n div 2))" using "1.prems" by (simp add: bitlen.simps [of n])
    have "bitlen (n div 2) \<noteq> 0" using pos by (simp add: bitlen.simps [of "n div 2"])
    then have "(2::nat) ^ bitlen (n div 2) = 2 * 2 ^ (bitlen (n div 2) - 1)"
      by (metis Suc_diff_1 neq0_conv power_Suc)
    moreover have "2 * (n div 2) \<le> n" "n < 2 * (n div 2) + 2" by arith+
    ultimately have "2 ^ bitlen (n div 2) \<le> n" "n < 2 * 2 ^ bitlen (n div 2)" using IH by linarith+
    with b show ?thesis by simp
  qed
qed

lemma bitlen_le: "n < 2 ^ k \<Longrightarrow> bitlen n \<le> k"
proof (cases "n = 0")
  case True
  then show ?thesis by (simp add: bitlen.simps)
next
  case False
  assume "n < 2 ^ k"
  with False bitlen_bounds [of n] have "(2::nat) ^ (bitlen n - 1) < 2 ^ k" by linarith
  then show ?thesis by simp
qed

lemma round53_exact: "m < 2 ^ 53 \<Longrightarrow> round53 m e = (m, e)"
  using bitlen_le [of m 53] by (simp add: round53_def)

lemma rne_lower: "a div b \<le> rne a b"
  by (simp add: rne_def Let_def)

lemma rne_upper: "0 < b \<Longrightarrow> 2 * (b * rne a b) \<le> 2 * a + b"
proof -
  assume "0 < b"
  have "b * (a div b) + a mod b = a" by simp
  then have "2 * (b * (a div b)) + 2 * (a mod b) = 2 * a" by linarith
  with \<open>0 < b\<close> show ?thesis by (auto simp: rne_def Let_def algebra_simps)
qed

text \<open>
  Rounding an integer of at most \<open>53 + j\<close> bits moves it by at most half of \<open>2 ^ j\<close>, and never below a
  multiple of \<open>2 ^ j\<close> that it reached.
\<close>

lemma round53_value:
  assumes "m < 2 ^ (53 + j)" and "round53 m e = (m', e')"
  shows "\<exists>k \<le> j. e' = e + int k \<and> 2 * (m' * 2 ^ k) \<le> 2 * m + 2 ^ j \<and> m div 2 ^ k \<le> m'"
proof (cases "bitlen m \<le> 53")
  case True
  with assms(2) show ?thesis by (intro exI [of _ 0]) (auto simp: round53_def)
next
  case False
  define k where "k = bitlen m - 53"
  have k: "k \<le> j" "k \<noteq> 0" using bitlen_le [OF assms(1)] False by (auto simp: k_def)
  have r: "m' = rne m (2 ^ k)" "e' = e + int k" using assms(2) k(2) by (auto simp: round53_def Let_def simp flip: k_def)
  have "2 * (2 ^ k * rne m (2 ^ k)) \<le> 2 * m + 2 ^ k" by (rule rne_upper) simp
  moreover have "(2::nat) ^ k \<le> 2 ^ j" using k(1) by simp
  ultimately have "2 * (2 ^ k * m') \<le> 2 * m + 2 ^ j" unfolding r by linarith
  then have "2 * (m' * 2 ^ k) \<le> 2 * m + 2 ^ j" by (simp add: mult.commute)
  with k r rne_lower show ?thesis by (intro exI [of _ k]) auto
qed

text \<open>
  The product of an integer \<open>n < 2 ^ 50\<close> with a constant \<open>c * 2 ^ - s\<close> that is slightly above \<open>1 / d\<close>,
  truncated: exactly \<open>n div d\<close>, if the error \<open>d * c - 2 ^ s\<close> of the constant and the rounding error stay
  below the gap of \<open>c\<close> to the next quotient.
\<close>

lemma f64_mul_div_exact:
  assumes n: "unat n < 2 ^ 50" and c: "c < 2 ^ 53" and s: "50 \<le> s"
    and above: "d * c = 2 ^ s + err" "0 < d" and gap: "(2 ^ 50 div d + 1) * err + 2 ^ 50 < c"
  shows "unat (f64_to_u64 (f64_mul (f64_of_u64 n) (c, - int s))) = unat n div d"
proof -
  define p where "p = unat n * c"
  define q where "q = unat n div d"
  have "unat n < 2 ^ 53" using n by simp
  then have of: "f64_of_u64 n = (unat n, 0)" by (simp add: f64_of_u64_def round53_exact)
  obtain m e where me: "round53 p (- int s) = (m, e)" by fastforce
  have "p \<le> unat n * 2 ^ 53" using c by (simp add: p_def)
  also have "\<dots> < 2 ^ 50 * 2 ^ 53" using n by simp
  finally have "p < 2 ^ (53 + 50)" by simp
  from round53_value [OF this me] obtain k where k: "k \<le> 50" "e = - int s + int k"
      "2 * (m * 2 ^ k) \<le> 2 * p + 2 ^ 50" "p div 2 ^ k \<le> m" by auto
  have nq: "unat n = d * q + unat n mod d" "unat n mod d < d" using above(2) by (simp_all add: q_def)
  have "p = q * (d * c) + (unat n mod d) * c"
    by (subst p_def, subst nq(1)) (simp add: algebra_simps)
  then have pq: "p = q * 2 ^ s + q * err + (unat n mod d) * c" unfolding above(1) by (simp add: distrib_left)
  have lower: "q * 2 ^ (s - k) \<le> m"
  proof -
    have "q * 2 ^ s div 2 ^ k \<le> p div 2 ^ k" using pq by (intro div_le_mono) simp
    moreover have "q * 2 ^ s = q * 2 ^ (s - k) * 2 ^ k" using k(1) s by (simp flip: power_add)
    ultimately show ?thesis using k(4) by (metis div_mult_self_is_m le_trans zero_less_numeral zero_less_power)
  qed
  have "(unat n mod d) * c + c \<le> d * c"
    using nq(2) by (metis Suc_leI add.commute mult_Suc mult_le_mono1)
  then have "p + c \<le> (q + 1) * 2 ^ s + (q + 1) * err" using pq above(1) by (simp add: algebra_simps)
  moreover have "(q + 1) * err \<le> (2 ^ 50 div d + 1) * err"
    using n by (intro mult_le_mono1 add_le_mono1) (simp add: q_def div_le_mono)
  ultimately have "2 * (m * 2 ^ k) < 2 * ((q + 1) * 2 ^ s)" using k(3) gap by linarith
  then have "m * 2 ^ k < (q + 1) * 2 ^ s" by linarith
  moreover have "(2::nat) ^ s = 2 ^ (s - k) * 2 ^ k" using k(1) s by (simp flip: power_add)
  ultimately have "m * 2 ^ k < (q + 1) * 2 ^ (s - k) * 2 ^ k" by (simp only: mult.assoc)
  then have upper: "m < (q + 1) * 2 ^ (s - k)" by simp
  have "m div 2 ^ (s - k) = q" using lower upper
    by (intro div_nat_eqI) (simp_all add: mult.commute)
  moreover have "q < 2 ^ 50" using n by (simp add: q_def) (meson div_le_dividend le_less_trans)
  moreover have "f64_to_u64 (m, e) = of_nat (min (m div 2 ^ (s - k)) (2 ^ 64 - 1))"
    using k(1,2) s by (cases "s = k") (auto simp: nat_diff_distrib)
  ultimately show ?thesis using me of by (simp add: p_def q_def unat_of_nat)
qed

end
