(* ===== verification/Validators.thy ===== *)
theory Validators
  imports Float64
begin

text \<open>
  The consensus validator set, \<open>crates/truth/src/validator.rs\<close>: validators in a vector, bonding and
  unbonding, delegation, slashing with \<open>f64\<close> factors, epoch transitions and rewards. \<open>get_mut\<close>
  changes the first validator with the id. \<open>validator_set_hash\<close> takes the hash as a parameter.
\<close>

definition MIN_STAKE :: u64 where "MIN_STAKE = 1000"
definition UNBONDING_PERIOD :: u64 where "UNBONDING_PERIOD = 21"
definition JAIL_PERIOD :: u64 where "JAIL_PERIOD = 10"
definition MAX_VALIDATORS :: nat where "MAX_VALIDATORS = 100"
definition COMMISSION_RATE_DENOM :: u64 where "COMMISSION_RATE_DENOM = 10000"

text \<open>The doubles nearest to 0.05 and 0.01.\<close>

definition SLASH_FACTOR_DOUBLE_SIGN :: f64 where
  "SLASH_FACTOR_DOUBLE_SIGN = (7205759403792794, - 57)"

definition SLASH_FACTOR_EQUIVOCATION :: f64 where
  "SLASH_FACTOR_EQUIVOCATION = (5764607523034235, - 59)"

datatype validator_status = VInactive | VActive | VJailed | VUnbonding | VRemoved

record validator_metadata =
  md_name :: string
  md_endpoint :: "string option"
  md_description :: string

record validator =
  v_id :: bytes32
  v_stake :: u64
  v_delegated_stake :: u64
  v_pubkey :: bytes32
  v_power :: u64
  v_status :: validator_status
  v_jailed_until :: u64
  v_unbonding_start :: "u64 option"
  v_commission_rate :: u64
  v_self_delegation :: u64
  v_metadata :: validator_metadata

section \<open>Validators\<close>

definition calculate_power :: "u64 \<Rightarrow> u64" where
  "calculate_power stake = stake div 1000"

definition validator_new :: "bytes32 \<Rightarrow> u64 \<Rightarrow> bytes32 \<Rightarrow> validator" where
  "validator_new i stake pubkey =
     \<lparr>v_id = i, v_stake = stake, v_delegated_stake = 0, v_pubkey = pubkey, v_power = calculate_power stake,
      v_status = VActive, v_jailed_until = 0, v_unbonding_start = None, v_commission_rate = 1000,
      v_self_delegation = stake,
      v_metadata = \<lparr>md_name = [], md_endpoint = None, md_description = []\<rparr>\<rparr>"

definition with_metadata :: "string \<Rightarrow> string option \<Rightarrow> validator \<Rightarrow> validator" where
  "with_metadata name endpoint v = v\<lparr>v_metadata := (v_metadata v)\<lparr>md_name := name, md_endpoint := endpoint\<rparr>\<rparr>"

definition v_total_stake :: "validator \<Rightarrow> u64" where
  "v_total_stake v = v_stake v + v_delegated_stake v"

definition update_stake :: "u64 \<Rightarrow> validator \<Rightarrow> validator" where
  "update_stake new_stake v =
     v\<lparr>v_stake := new_stake, v_self_delegation := new_stake,
       v_power := calculate_power (new_stake + v_delegated_stake v)\<rparr>"

definition add_delegation :: "u64 \<Rightarrow> validator \<Rightarrow> validator" where
  "add_delegation amount v =
     (let d = v_delegated_stake v + amount
      in v\<lparr>v_delegated_stake := d, v_power := calculate_power (v_stake v + d)\<rparr>)"

definition remove_delegation :: "u64 \<Rightarrow> (string, unit, validator) op" where
  "remove_delegation amount v =
     (if amount \<le> v_delegated_stake v
      then let d = v_delegated_stake v - amount
           in (Inr (), v\<lparr>v_delegated_stake := d, v_power := calculate_power (v_stake v + d)\<rparr>)
      else (Inl ''Insufficient delegated stake'', v))"

definition jail :: "u64 \<Rightarrow> u64 \<Rightarrow> validator \<Rightarrow> validator" where
  "jail current_epoch slash_amount v =
     (let st = saturating_sub (v_stake v) slash_amount
      in v\<lparr>v_status := VJailed, v_jailed_until := current_epoch + JAIL_PERIOD, v_stake := st,
           v_power := calculate_power (st + v_delegated_stake v)\<rparr>)"

definition unjail :: "u64 \<Rightarrow> (string, unit, validator) op" where
  "unjail current_epoch v =
     (if current_epoch < v_jailed_until v then (Inl ''Jail period not yet served'', v)
      else (Inr (), v\<lparr>v_status := VActive, v_jailed_until := 0\<rparr>))"

definition start_unbond :: "u64 \<Rightarrow> validator \<Rightarrow> validator" where
  "start_unbond current_epoch v = v\<lparr>v_status := VUnbonding, v_unbonding_start := Some current_epoch\<rparr>"

definition can_unbond :: "u64 \<Rightarrow> validator \<Rightarrow> bool" where
  "can_unbond current_epoch v =
     (case v_unbonding_start v of Some start \<Rightarrow> start + UNBONDING_PERIOD \<le> current_epoch | None \<Rightarrow> False)"

definition v_remove :: "validator \<Rightarrow> validator" where
  "v_remove v = v\<lparr>v_status := VRemoved\<rparr>"

definition active_or_inactive :: "validator \<Rightarrow> bool" where
  "active_or_inactive v \<longleftrightarrow> v_status v = VActive"

section \<open>Delegations and slashing records\<close>

record delegation =
  dg_delegator_id :: bytes32
  dg_validator_id :: bytes32
  dg_amount :: u64
  dg_accumulated_rewards :: u64

definition delegation_new :: "bytes32 \<Rightarrow> bytes32 \<Rightarrow> u64 \<Rightarrow> delegation" where
  "delegation_new d v amount =
     \<lparr>dg_delegator_id = d, dg_validator_id = v, dg_amount = amount, dg_accumulated_rewards = 0\<rparr>"

datatype slash_type = DoubleSign | Equivocation | LivenessFailure

record slashing_record =
  sr_validator_id :: bytes32
  sr_epoch :: u64
  sr_slash_type :: slash_type
  sr_slash_amount :: u64
  sr_evidence_hash :: bytes32

fun slash_fraction :: "slash_type \<Rightarrow> u64 \<Rightarrow> u64" where
  "slash_fraction DoubleSign stake = f64_to_u64 (f64_mul (f64_of_u64 stake) SLASH_FACTOR_DOUBLE_SIGN)"
| "slash_fraction Equivocation stake = f64_to_u64 (f64_mul (f64_of_u64 stake) SLASH_FACTOR_EQUIVOCATION)"
| "slash_fraction LivenessFailure stake = 0"

definition slashing_record_new :: "bytes32 \<Rightarrow> u64 \<Rightarrow> slash_type \<Rightarrow> u64 \<Rightarrow> bytes32 \<Rightarrow> slashing_record" where
  "slashing_record_new i epoch t total_stake evidence =
     \<lparr>sr_validator_id = i, sr_epoch = epoch, sr_slash_type = t, sr_slash_amount = slash_fraction t total_stake,
      sr_evidence_hash = evidence\<rparr>"

section \<open>The validator set\<close>

record vset =
  validators :: "validator list"
  total_stake :: u64
  delegations :: "(bytes32 \<times> delegation list) list"
  slashing_records :: "slashing_record list"
  current_epoch :: u64

definition vset_new :: vset where
  "vset_new = \<lparr>validators = [], total_stake = 0, delegations = [], slashing_records = [], current_epoch = 0\<rparr>"

definition vset_add :: "validator \<Rightarrow> (string, unit, vset) op" where
  "vset_add v s =
     (if MAX_VALIDATORS \<le> length (validators s) then (Inl ''Maximum validator count reached'', s)
      else if v_stake v < MIN_STAKE then (Inl ''Minimum stake 1000 required'', s)
      else if list_ex (\<lambda>u. v_id u = v_id v) (validators s) then (Inl ''Validator already exists'', s)
      else (Inr (), s\<lparr>total_stake := total_stake s + v_total_stake v, validators := validators s @ [v]\<rparr>))"

fun remove_first :: "bytes32 \<Rightarrow> validator list \<Rightarrow> validator list" where
  "remove_first i [] = []"
| "remove_first i (v # vs) = (if v_id v = i then vs else v # remove_first i vs)"

fun update_first :: "bytes32 \<Rightarrow> (validator \<Rightarrow> validator) \<Rightarrow> validator list \<Rightarrow> validator list" where
  "update_first i f [] = []"
| "update_first i f (v # vs) = (if v_id v = i then f v # vs else v # update_first i f vs)"

definition vset_get :: "vset \<Rightarrow> bytes32 \<Rightarrow> validator option" where
  "vset_get s i = find (\<lambda>v. v_id v = i) (validators s)"

definition vset_remove :: "bytes32 \<Rightarrow> vset \<Rightarrow> validator option \<times> vset" where
  "vset_remove i s =
     (case vset_get s i of
        None \<Rightarrow> (None, s)
      | Some v \<Rightarrow> (Some v, s\<lparr>validators := remove_first i (validators s), total_stake := total_stake s - v_total_stake v\<rparr>))"

definition get_active :: "vset \<Rightarrow> validator list" where
  "get_active s = [v \<leftarrow> validators s. v_status v = VActive]"

definition get_active_ids :: "vset \<Rightarrow> bytes32 list" where
  "get_active_ids s = map v_id (get_active s)"

definition vset_threshold :: "vset \<Rightarrow> nat" where
  "vset_threshold s = (let active = get_active s in if active = [] then 0 else length active * 2 div 3 + 1)"

definition total_active_stake :: "vset \<Rightarrow> u64" where
  "total_active_stake s = sum_list (map v_total_stake (get_active s))"

definition validator_power :: "vset \<Rightarrow> bytes32 \<Rightarrow> u64 option" where
  "validator_power s i = map_option v_power (vset_get s i)"

definition bond :: "bytes32 \<Rightarrow> u64 \<Rightarrow> (string, unit, vset) op" where
  "bond i amount s =
     (case vset_get s i of
        None \<Rightarrow> (Inl ''Validator not found'', s)
      | Some v \<Rightarrow> (Inr (), s\<lparr>validators := update_first i (update_stake (v_stake v + amount)) (validators s),
                             total_stake := total_stake s + amount\<rparr>))"

definition unbond_start :: "bytes32 \<Rightarrow> (string, unit, vset) op" where
  "unbond_start i s =
     (case vset_get s i of
        None \<Rightarrow> (Inl ''Validator not found'', s)
      | Some v \<Rightarrow>
          if v_status v \<noteq> VActive then (Inl ''Validator not active'', s)
          else (Inr (), s\<lparr>validators := update_first i (start_unbond (current_epoch s)) (validators s)\<rparr>))"

definition unbond_complete :: "bytes32 \<Rightarrow> (string, u64, vset) op" where
  "unbond_complete i s =
     (case vset_get s i of
        None \<Rightarrow> (Inl ''Validator not found'', s)
      | Some v \<Rightarrow>
          if \<not> can_unbond (current_epoch s) v then (Inl ''Unbonding period not complete'', s)
          else (Inr (v_stake v), s\<lparr>validators := update_first i v_remove (validators s),
                                   total_stake := saturating_sub (total_stake s) (v_stake v)\<rparr>))"

definition vset_delegate :: "bytes32 \<Rightarrow> bytes32 \<Rightarrow> u64 \<Rightarrow> (string, unit, vset) op" where
  "vset_delegate d i amount s =
     (case vset_get s i of
        None \<Rightarrow> (Inl ''Validator not found'', s)
      | Some v \<Rightarrow>
          if v_status v \<noteq> VActive then (Inl ''Cannot delegate to inactive validator'', s)
          else (Inr (), s\<lparr>validators := update_first i (add_delegation amount) (validators s),
                          total_stake := total_stake s + amount,
                          delegations := hm_push d (delegation_new d i amount) (delegations s)\<rparr>))"

definition vset_slash :: "bytes32 \<Rightarrow> slash_type \<Rightarrow> bytes32 \<Rightarrow> (string, u64, vset) op" where
  "vset_slash i t evidence s =
     (case vset_get s i of
        None \<Rightarrow> (Inl ''Validator not found'', s)
      | Some v \<Rightarrow>
          let rec = slashing_record_new i (current_epoch s) t (v_total_stake v) evidence;
              amount = sr_slash_amount rec
          in (Inr amount, s\<lparr>validators := update_first i (jail (current_epoch s) amount) (validators s),
                            total_stake := saturating_sub (total_stake s) amount,
                            slashing_records := slashing_records s @ [rec]\<rparr>))"

definition check_double_sign :: "bytes32 \<Rightarrow> bytes32 \<Rightarrow> bytes32 \<Rightarrow> vset \<Rightarrow> bool" where
  "check_double_sign i h1 h2 s \<longleftrightarrow> h1 \<noteq> h2 \<and> vset_get s i \<noteq> None"

definition check_equivocation :: "bytes32 \<Rightarrow> u64 \<Rightarrow> u32 \<Rightarrow> vset \<Rightarrow> bool" where
  "check_equivocation i height round s \<longleftrightarrow> vset_get s i \<noteq> None"

definition epoch_unjail :: "u64 \<Rightarrow> validator \<Rightarrow> validator" where
  "epoch_unjail new_epoch v =
     (if v_status v = VJailed \<and> v_jailed_until v \<le> new_epoch then snd (unjail new_epoch v) else v)"

definition process_epoch_transition :: "u64 \<Rightarrow> vset \<Rightarrow> bytes32 list \<times> vset" where
  "process_epoch_transition new_epoch s =
     (let vs = map (epoch_unjail new_epoch) (validators s)
      in (map v_id [v \<leftarrow> vs. v_status v = VUnbonding \<and> can_unbond new_epoch v],
          s\<lparr>current_epoch := new_epoch, validators := vs\<rparr>))"

definition commission :: "u64 \<Rightarrow> u64 \<Rightarrow> u64" where
  "commission total_reward rate =
     f64_to_u64 (f64_div (f64_mul (f64_of_u64 total_reward) (f64_of_u64 rate)) (f64_of_u64 COMMISSION_RATE_DENOM))"

definition net_reward :: "u64 \<Rightarrow> u64 \<Rightarrow> validator \<Rightarrow> u64" where
  "net_reward total_reward active_stake v =
     saturating_sub total_reward (commission total_reward (v_commission_rate v)) * v_total_stake v div active_stake"

definition calculate_rewards :: "u64 \<Rightarrow> vset \<Rightarrow> (bytes32 \<times> u64) list" where
  "calculate_rewards total_reward s =
     (let active_stake = total_active_stake s
      in if active_stake = 0 \<or> total_reward = 0 then []
         else fold (\<lambda>v m. hm_insert (v_id v) (net_reward total_reward active_stake v) m) (get_active s) [])"

definition pay_reward :: "bytes32 \<times> u64 \<Rightarrow> vset \<Rightarrow> vset" where
  "pay_reward ir s =
     (case vset_get s (fst ir) of
        None \<Rightarrow> s
      | Some v \<Rightarrow> s\<lparr>validators := update_first (fst ir) (update_stake (v_stake v + snd ir)) (validators s)\<rparr>)"

definition distribute_rewards :: "u64 \<Rightarrow> vset \<Rightarrow> (bytes32 \<times> u64) list \<times> vset" where
  "distribute_rewards total_reward s =
     (let rewards = calculate_rewards total_reward s; s' = fold pay_reward rewards s
      in (rewards, s'\<lparr>total_stake := total_stake s' + total_reward\<rparr>))"

definition sort_by_power :: "vset \<Rightarrow> vset" where
  "sort_by_power s = s\<lparr>validators := sort_key (\<lambda>v. - int (unat (v_power v))) (validators s)\<rparr>"

definition select_top_validators :: "nat \<Rightarrow> vset \<Rightarrow> validator list" where
  "select_top_validators n s = take n (sort_key (\<lambda>v. - int (unat (v_power v))) (get_active s))"

definition validator_set_hash :: "(bytes \<Rightarrow> bytes32) \<Rightarrow> vset \<Rightarrow> bytes32" where
  "validator_set_hash hash s =
     hash (concat (map (\<lambda>v. v_id v @ to_le_bytes 8 (v_stake v) @ to_le_bytes 8 (v_power v)) (sort_key v_id (validators s))))"

section \<open>Well-formed sets\<close>

definition power_ok :: "validator \<Rightarrow> bool" where
  "power_ok v \<longleftrightarrow> v_power v = calculate_power (v_total_stake v)"

definition vset_wf :: "vset \<Rightarrow> bool" where
  "vset_wf s \<longleftrightarrow> distinct (map v_id (validators s)) \<and> length (validators s) \<le> MAX_VALIDATORS \<and>
     list_all power_ok (validators s)"

text \<open>The methods of a validator that change it, as a caller of \<open>get_mut\<close> can apply them.\<close>

inductive validator_method :: "(validator \<Rightarrow> validator) \<Rightarrow> bool" where
  "validator_method (update_stake n)"
| "validator_method (add_delegation n)"
| "validator_method (\<lambda>v. snd (remove_delegation n v))"
| "validator_method (jail e n)"
| "validator_method (\<lambda>v. snd (unjail e v))"
| "validator_method (start_unbond e)"
| "validator_method v_remove"

text \<open>The calls of the set; a validator is added with a power that follows its stake, as \<open>new\<close> and every method leave it.\<close>

inductive vset_step :: "vset \<Rightarrow> vset \<Rightarrow> bool" where
  vs_add: "power_ok v \<Longrightarrow> vset_add v s = (res, s') \<Longrightarrow> vset_step s s'"
| vs_get_mut: "validator_method f \<Longrightarrow> vset_step s (s\<lparr>validators := update_first i f (validators s)\<rparr>)"
| vs_remove: "vset_remove i s = (res, s') \<Longrightarrow> vset_step s s'"
| vs_bond: "bond i amount s = (res, s') \<Longrightarrow> vset_step s s'"
| vs_unbond_start: "unbond_start i s = (res, s') \<Longrightarrow> vset_step s s'"
| vs_unbond_complete: "unbond_complete i s = (res, s') \<Longrightarrow> vset_step s s'"
| vs_delegate: "vset_delegate d i amount s = (res, s') \<Longrightarrow> vset_step s s'"
| vs_slash: "vset_slash i t ev s = (res, s') \<Longrightarrow> vset_step s s'"
| vs_epoch: "process_epoch_transition e s = (res, s') \<Longrightarrow> vset_step s s'"
| vs_rewards: "distribute_rewards r s = (res, s') \<Longrightarrow> vset_step s s'"
| vs_sort: "vset_step s (sort_by_power s)"

definition keeps_wf :: "(validator \<Rightarrow> validator) \<Rightarrow> bool" where
  "keeps_wf f \<longleftrightarrow> (\<forall>v. v_id (f v) = v_id v \<and> (power_ok v \<longrightarrow> power_ok (f v)))"

lemmas validator_op_defs = update_stake_def add_delegation_def jail_def unjail_def start_unbond_def v_remove_def
  epoch_unjail_def

lemma keeps_wf_ops:
  "keeps_wf (update_stake n)" "keeps_wf (add_delegation n)" "keeps_wf (jail e n)" "keeps_wf (start_unbond e)"
  "keeps_wf v_remove" "keeps_wf (epoch_unjail e)"
  by (auto simp: keeps_wf_def power_ok_def v_total_stake_def validator_op_defs Let_def)

lemma keeps_wf_method: "validator_method f \<Longrightarrow> keeps_wf f"
  by (induction rule: validator_method.induct)
    (auto simp: keeps_wf_ops, auto simp: keeps_wf_def power_ok_def v_total_stake_def remove_delegation_def unjail_def Let_def)

lemma update_first_ids: "keeps_wf f \<Longrightarrow> map v_id (update_first i f vs) = map v_id vs"
  by (induction vs) (auto simp: keeps_wf_def)

lemma update_first_power: "keeps_wf f \<Longrightarrow> list_all power_ok vs \<Longrightarrow> list_all power_ok (update_first i f vs)"
  by (induction vs) (auto simp: keeps_wf_def)

lemma vset_wf_update:
  "keeps_wf f \<Longrightarrow> vset_wf s \<Longrightarrow> validators s' = update_first i f (validators s) \<Longrightarrow> vset_wf s'"
  by (simp add: vset_wf_def update_first_ids update_first_power)
    (metis length_map update_first_ids)

lemma set_remove_first: "set (remove_first i vs) \<subseteq> set vs"
  by (induction vs) auto

lemma vset_wf_remove: "vset_wf s \<Longrightarrow> vset_wf (s\<lparr>validators := remove_first i (validators s), total_stake := t\<rparr>)"
proof -
  have "distinct (map v_id vs) \<Longrightarrow> distinct (map v_id (remove_first i vs)) \<and> length (remove_first i vs) \<le> length vs" for vs
    by (induction vs) (auto dest: set_remove_first [THEN subsetD])
  then show "vset_wf s \<Longrightarrow> ?thesis" using set_remove_first
    by (fastforce simp: vset_wf_def list_all_iff)
qed

lemma vset_wf_pay: "vset_wf s \<Longrightarrow> vset_wf (pay_reward ir s)"
  by (auto simp: pay_reward_def intro: vset_wf_update keeps_wf_ops split: option.splits)

lemma vset_wf_fold_pay: "vset_wf s \<Longrightarrow> vset_wf (fold pay_reward rs s)"
  by (induction rs arbitrary: s) (auto simp: vset_wf_pay)

lemma power_ok_new: "power_ok (validator_new i stake pk)"
  by (simp add: power_ok_def validator_new_def v_total_stake_def)

lemma vset_wf_add: "power_ok v \<Longrightarrow> vset_add v s = (res, s') \<Longrightarrow> vset_wf s \<Longrightarrow> vset_wf s'"
  by (auto simp: vset_add_def vset_wf_def list_ex_iff split: if_splits) metis

lemma vset_wf_epoch: "vset_wf s \<Longrightarrow> vset_wf (snd (process_epoch_transition e s))"
proof -
  have "v_id \<circ> epoch_unjail e = v_id"
    using keeps_wf_ops(6) [of e] by (simp add: keeps_wf_def fun_eq_iff)
  moreover have "list_all power_ok vs \<Longrightarrow> list_all power_ok (map (epoch_unjail e) vs)" for vs
    using keeps_wf_ops(6) [of e] by (simp add: keeps_wf_def list_all_iff)
  ultimately show "vset_wf s \<Longrightarrow> ?thesis"
    by (simp add: vset_wf_def process_epoch_transition_def Let_def)
qed

lemma vset_wf_sort: "vset_wf s \<Longrightarrow> vset_wf (sort_by_power s)"
  by (simp add: vset_wf_def sort_by_power_def list_all_iff distinct_map)

lemma vset_step_wf: "vset_step s s' \<Longrightarrow> vset_wf s \<Longrightarrow> vset_wf s'"
proof (induction rule: vset_step.induct)
  case (vs_get_mut f s i)
  then show ?case using vset_wf_update [OF keeps_wf_method, of f s _ i] by simp
next
  case (vs_remove i s res s')
  then show ?case by (auto simp: vset_remove_def vset_wf_remove split: option.splits)
next
  case (vs_epoch e s res s')
  then show ?case using vset_wf_epoch by (metis snd_conv)
next
  case (vs_rewards r s res s')
  then have "vset_wf (fold pay_reward res s)" by (intro vset_wf_fold_pay)
  with vs_rewards show ?case by (auto simp: distribute_rewards_def Let_def vset_wf_def)
next
  case (vs_bond i amount s res s')
  then show ?case using vset_wf_update [OF keeps_wf_ops(1), of s s' i]
    by (auto simp: bond_def split: option.splits)
next
  case (vs_unbond_start i s res s')
  then show ?case using vset_wf_update [OF keeps_wf_ops(4), of s s' i]
    by (auto simp: unbond_start_def split: option.splits if_splits)
next
  case (vs_unbond_complete i s res s')
  then show ?case using vset_wf_update [OF keeps_wf_ops(5), of s s' i]
    by (auto simp: unbond_complete_def split: option.splits if_splits)
next
  case (vs_delegate d i amount s res s')
  then show ?case using vset_wf_update [OF keeps_wf_ops(2), of s s' i]
    by (auto simp: vset_delegate_def split: option.splits if_splits)
next
  case (vs_slash i t ev s res s')
  then show ?case using vset_wf_update [OF keeps_wf_ops(3), of s s' i]
    by (auto simp: vset_slash_def Let_def split: option.splits)
qed (auto intro: vset_wf_add vset_wf_sort)

lemma vset_wf_new: "vset_wf vset_new"
  by (simp add: vset_wf_def vset_new_def MAX_VALIDATORS_def)

interpretation vset_run: transition_system vset_step vset_wf "\<lambda>s. s = vset_new"
  by unfold_locales (auto intro: vset_wf_new vset_step_wf)

lemmas vset_reachable_wf = vset_run.reachable_inv [OF _ refl]

section \<open>Lookup after an update\<close>

lemma find_update_first:
  assumes "keeps_wf f"
  shows "find (\<lambda>v. v_id v = j) (update_first i f vs) =
    (if j = i then map_option f (find (\<lambda>v. v_id v = i) vs) else find (\<lambda>v. v_id v = j) vs)"
  using assms by (induction vs) (auto simp: keeps_wf_def)

lemma get_update:
  "keeps_wf f \<Longrightarrow> validators s' = update_first i f (validators s) \<Longrightarrow>
     vset_get s' j = (if j = i then map_option f (vset_get s i) else vset_get s j)"
  by (simp add: vset_get_def find_update_first)

lemma find_map_keep:
  "(\<And>v. v_id (f v) = v_id v) \<Longrightarrow> find (\<lambda>v. v_id v = i) (map f vs) = map_option f (find (\<lambda>v. v_id v = i) vs)"
  by (induction vs) auto

lemma get_epoch: "vset_get (snd (process_epoch_transition e s)) i = map_option (epoch_unjail e) (vset_get s i)"
  using keeps_wf_ops(6) [of e]
  by (simp add: vset_get_def process_epoch_transition_def Let_def find_map_keep keeps_wf_def)

section \<open>Rewards\<close>

lemma calculate_rewards_entries:
  assumes "distinct (map v_id vs)" "hm_wf m" "v_id ` set vs \<inter> fst ` set m = {}"
  shows "total (\<lambda>x. unat x) (fold (\<lambda>v m. hm_insert (v_id v) (f v) m) vs m) =
    total (\<lambda>x. unat x) m + sum_list (map (\<lambda>v. unat (f v)) vs)"
  using assms
proof (induction vs arbitrary: m)
  case Nil
  then show ?case by simp
next
  case (Cons v vs)
  have none: "map_of m (v_id v) = None" using Cons.prems(3) by (auto simp: map_of_eq_None_iff)
  have "v_id ` set vs \<inter> fst ` set (hm_insert (v_id v) (f v) m) = {}"
    using Cons.prems by (auto simp: dom_update)
  with Cons hm.wf_insert [OF Cons.prems(2)] show ?case
    by (simp add: hm.total_insert_new [OF Cons.prems(2) none])
qed

lemma sum_list_div_le: "sum_list (map (\<lambda>x. f x div n) xs) \<le> sum_list (map f xs) div (n :: nat)"
proof (induction xs)
  case Nil
  then show ?case by simp
next
  case (Cons x xs)
  have "f x div n + sum_list (map f xs) div n \<le> (f x + sum_list (map f xs)) div n"
    using div_add1_eq [of "f x" "sum_list (map f xs)" n] by simp
  with Cons show ?case by simp
qed

lemma sum_list_unat:
  "sum_list (map (\<lambda>v. unat (f v)) vs) < 2 ^ 64 \<Longrightarrow> unat (sum_list (map f vs) :: u64) = sum_list (map (\<lambda>v. unat (f v)) vs)"
proof (induction vs)
  case Nil
  then show ?case by simp
next
  case (Cons v vs)
  then have IH: "unat (sum_list (map f vs)) = sum_list (map (\<lambda>v. unat (f v)) vs)" by simp
  have "unat (f v) + unat (sum_list (map f vs)) < 2 ^ LENGTH(64)" using Cons.prems unfolding IH by simp
  from unat_add_no_wrap [OF this] IH show ?case by simp
qed

lemma net_rewards_sum:
  assumes small: "sum_list (map (\<lambda>v. unat (v_total_stake v)) vs) < 2 ^ 64"
    and no_overflow: "unat r * sum_list (map (\<lambda>v. unat (v_total_stake v)) vs) < 2 ^ 64"
    and active: "active = sum_list (map v_total_stake vs)"
  shows "sum_list (map (\<lambda>v. unat (net_reward r active v)) vs) \<le> unat r"
proof -
  let ?w = "\<lambda>v. unat (v_total_stake v)"
  let ?t = "sum_list (map ?w vs)"
  have act: "unat active = ?t" using sum_list_unat [OF small] by (simp add: active)
  have "unat (net_reward r active v) \<le> unat r * ?w v div ?t" if "v \<in> set vs" for v
  proof -
    let ?d = "saturating_sub r (commission r (v_commission_rate v))"
    have d: "unat ?d \<le> unat r" by (simp add: unat_saturating_sub)
    have "unat (?d * v_total_stake v) \<le> unat ?d * ?w v" by (simp add: unat_word_ariths)
    also have "\<dots> \<le> unat r * ?w v" using d by simp
    finally show ?thesis unfolding net_reward_def unat_div act by (rule div_le_mono)
  qed
  then have "sum_list (map (\<lambda>v. unat (net_reward r active v)) vs) \<le> sum_list (map (\<lambda>v. unat r * ?w v div ?t) vs)"
    by (intro sum_list_mono) auto
  also have "\<dots> \<le> sum_list (map (\<lambda>v. unat r * ?w v) vs) div ?t" by (rule sum_list_div_le)
  also have "\<dots> = unat r * ?t div ?t" by (simp add: sum_list_const_mult)
  also have "\<dots> \<le> unat r" by simp
  finally show ?thesis .
qed

section \<open>Properties\<close>

text \<open>C40. For stakes below \<open>2 ^ 50\<close> the floating-point slash is exact: a twentieth of the stake rounded
  down for double signing, a hundredth for equivocation, nothing for a liveness failure.\<close>

theorem slash_fraction_exact:
  assumes "unat stake < 2 ^ 50"
  shows "unat (slash_fraction DoubleSign stake) = unat stake div 20 \<and>
    unat (slash_fraction Equivocation stake) = unat stake div 100 \<and>
    slash_fraction LivenessFailure stake = 0"
  using f64_mul_div_exact [OF assms, of 7205759403792794 57 20 8]
    f64_mul_div_exact [OF assms, of 5764607523034235 59 100 12]
  by (simp add: SLASH_FACTOR_DOUBLE_SIGN_def SLASH_FACTOR_EQUIVOCATION_def)

theorem slash_fraction_exact_witness:
  "unat (slash_fraction DoubleSign 1999) = 99 \<and> unat (slash_fraction Equivocation 1999) = 19"
  using slash_fraction_exact [of 1999] by simp

text \<open>C33. In every set reached by its calls and by the validators' own methods, from validators added with a power that
  follows their stake, the ids are distinct, there are at most \<open>MAX_VALIDATORS\<close> of them, and each one's power is a
  thousandth of its total stake.\<close>

theorem vset_invariant:
  assumes "vset_step\<^sup>*\<^sup>* vset_new s"
  shows "distinct (map v_id (validators s)) \<and> length (validators s) \<le> 100 \<and>
    (\<forall>i v. vset_get s i = Some v \<longrightarrow> v_id v = i \<and> v_power v = v_total_stake v div 1000)"
  using vset_reachable_wf [OF assms]
  by (auto simp: vset_wf_def MAX_VALIDATORS_def list_all_iff power_ok_def calculate_power_def vset_get_def
      find_Some_iff)

theorem vset_invariant_witness:
  "let s = snd (bond [1] 500 (snd (vset_add (validator_new [1] 2000 []) vset_new)))
   in \<forall>i v. vset_get s i = Some v \<longrightarrow> v_id v = i \<and> v_power v = v_total_stake v div 1000"
proof -
  let ?a = "snd (vset_add (validator_new [1] 2000 []) vset_new)"
  have "vset_step vset_new ?a" by (rule vs_add [OF power_ok_new prod.collapse [symmetric]])
  moreover have "vset_step ?a (snd (bond [1] 500 ?a))" by (rule vs_bond [OF prod.collapse [symmetric]])
  ultimately have "vset_step\<^sup>*\<^sup>* vset_new (snd (bond [1] 500 ?a))"
    by (meson rtranclp.rtrancl_into_rtrancl rtranclp.rtrancl_refl)
  from vset_invariant [OF this] show ?thesis by (simp add: Let_def)
qed

text \<open>A slashed validator is jailed for exactly the jail period: an epoch transition before its end
  leaves it jailed, one at or after its end makes it active again.\<close>

theorem jail_served:
  assumes "vset_slash i t evidence s = (Inr amount, s')"
    and "unat (current_epoch s) + 10 < 2 ^ 64"
  shows "\<exists>v. vset_get (snd (process_epoch_transition e s')) i = Some v \<and>
    v_status v = (if unat e < unat (current_epoch s) + 10 then VJailed else VActive)"
proof -
  obtain v where g: "vset_get s i = Some v" and s': "validators s' = update_first i (jail (current_epoch s) amount) (validators s)"
    using assms(1) by (auto simp: vset_slash_def Let_def split: option.splits)
  have "unat (current_epoch s + 10) = unat (current_epoch s) + 10"
    using assms(2) unat_add_no_wrap [of "current_epoch s" 10] by simp
  then show ?thesis
    by (auto simp: get_epoch get_update [OF keeps_wf_ops(3) s'] g epoch_unjail_def unjail_def jail_def Let_def
        JAIL_PERIOD_def word_le_nat_alt word_less_nat_alt)
qed

theorem jail_served_witness:
  "let s = snd (vset_add (validator_new [1] 2000 []) vset_new); s' = snd (vset_slash [1] LivenessFailure [] s)
   in (\<exists>v. vset_get (snd (process_epoch_transition 9 s')) [1] = Some v \<and> v_status v = VJailed) \<and>
      (\<exists>v. vset_get (snd (process_epoch_transition 10 s')) [1] = Some v \<and> v_status v = VActive)"
proof -
  let ?s = "snd (vset_add (validator_new [1] 2000 []) vset_new)"
  have a: "vset_slash [1] LivenessFailure [] ?s = (Inr 0, snd (vset_slash [1] LivenessFailure [] ?s))"
    and e: "current_epoch ?s = 0"
    by (simp_all add: vset_slash_def vset_add_def validator_new_def vset_new_def vset_get_def
        slashing_record_new_def MAX_VALIDATORS_def MIN_STAKE_def Let_def)
  from jail_served [OF a, of 9] jail_served [OF a, of 10] show ?thesis by (simp add: e Let_def)
qed

text \<open>Completing an unbonding leaves the start of the unbonding in place and does not look at the
  status, so it succeeds again and pays the same stake again.\<close>

theorem unbond_complete_repeats:
  assumes "unbond_complete i s = (Inr stake, s')"
  shows "fst (unbond_complete i s') = Inr stake \<and>
    unat (total_stake (snd (unbond_complete i s'))) = unat (total_stake s) - 2 * unat stake"
proof -
  obtain v where g: "vset_get s i = Some v" and c: "can_unbond (current_epoch s) v" and st: "stake = v_stake v"
      and s': "s' = s\<lparr>validators := update_first i v_remove (validators s), total_stake := saturating_sub (total_stake s) stake\<rparr>"
    using assms by (auto simp: unbond_complete_def split: option.splits if_splits)
  have "vset_get s' i = Some (v_remove v)"
    using get_update [OF keeps_wf_ops(5), of s' i s i] g s' by simp
  with c st s' show ?thesis
    by (simp add: unbond_complete_def can_unbond_def v_remove_def unat_saturating_sub)
qed

theorem unbond_complete_repeats_witness:
  "let s = snd (process_epoch_transition 21 (snd (unbond_start [1] (snd (vset_add (validator_new [1] 2000 []) vset_new)))))
   in fst (unbond_complete [1] (snd (unbond_complete [1] s))) = Inr 2000"
proof -
  let ?s = "snd (process_epoch_transition 21 (snd (unbond_start [1] (snd (vset_add (validator_new [1] 2000 []) vset_new)))))"
  have "unbond_complete [1] ?s = (Inr 2000, snd (unbond_complete [1] ?s))"
    by (simp add: unbond_complete_def vset_add_def validator_new_def vset_new_def vset_get_def unbond_start_def
        MAX_VALIDATORS_def MIN_STAKE_def start_unbond_def process_epoch_transition_def Let_def epoch_unjail_def
        can_unbond_def UNBONDING_PERIOD_def)
  from unbond_complete_repeats [OF this] show ?thesis by (simp add: Let_def)
qed

text \<open>The rewards computed for the active validators add up to at most the total reward, as long as
  the reward times the active stake does not overflow.\<close>

theorem rewards_within_total:
  assumes "vset_wf s"
    and "sum_list (map (\<lambda>v. unat (v_total_stake v)) (get_active s)) < 2 ^ 64"
    and "unat reward * sum_list (map (\<lambda>v. unat (v_total_stake v)) (get_active s)) < 2 ^ 64"
  shows "total (\<lambda>x. unat x) (calculate_rewards reward s) \<le> unat reward"
proof -
  have "distinct (map v_id (get_active s))"
    using assms(1) by (auto simp: vset_wf_def get_active_def intro: distinct_map_filter)
  then show ?thesis
    using calculate_rewards_entries [of "get_active s" "[]" "net_reward reward (total_active_stake s)"]
      net_rewards_sum [OF assms(2,3), of "total_active_stake s"]
    by (simp add: calculate_rewards_def Let_def hm.wf_empty total_active_stake_def)
qed

theorem rewards_within_total_witness:
  "let s = snd (vset_add (validator_new [2] 3000 []) (snd (vset_add (validator_new [1] 2000 []) vset_new)))
   in total (\<lambda>x. unat x) (calculate_rewards 1000 s) \<le> 1000"
proof -
  let ?s = "snd (vset_add (validator_new [2] 3000 []) (snd (vset_add (validator_new [1] 2000 []) vset_new)))"
  have w: "vset_wf ?s" by (intro vset_wf_add [OF power_ok_new prod.collapse [symmetric]] vset_wf_new)
  have "get_active ?s = [validator_new [1] 2000 [], validator_new [2] 3000 []]"
    by (simp add: get_active_def vset_add_def validator_new_def vset_new_def MAX_VALIDATORS_def MIN_STAKE_def)
  then have "sum_list (map (\<lambda>v. unat (v_total_stake v)) (get_active ?s)) = 5000"
    by (simp add: validator_new_def v_total_stake_def)
  with rewards_within_total [OF w, of 1000] show ?thesis by (simp add: Let_def)
qed

end
