(* ===== verification/Settlement.thy ===== *)
theory Settlement
  imports Prelude
begin

text \<open>
  The settlement layer of the truth plane, \<open>crates/truth/src/settlement.rs\<close>: job escrows, the
  operator registry with its stake index, receipt anchors, artifact commitments, slashing
  conditions and the settlement state that owns them. The hash \<open>blake3\<close> is a parameter: the
  crate is not part of the repository; feeding a hasher in pieces hashes their concatenation.
\<close>

section \<open>Errors\<close>

datatype state_error =
    AccountNotFound | InsufficientBalance | InvalidNonce | InvalidTransaction | InvalidReceiver
  | InvalidSender | OperatorNotFound | OperatorNotActive | EscrowNotFound | EscrowNotActive
  | InsufficientStake | ReceiptNotFound | OutsideChallengeWindow

section \<open>Job escrows\<close>

datatype escrow_status = EscActive | EscFrozen | EscReleased | EscRefunded | EscPartiallyReleased

record job_escrow =
  je_job_id :: bytes32
  je_client_id :: bytes32
  je_amount :: u64
  je_reserved :: u64
  je_status :: escrow_status
  je_created_at_block :: u64
  je_deadline_block :: u64

definition job_escrow_new :: "bytes32 \<Rightarrow> bytes32 \<Rightarrow> u64 \<Rightarrow> u64 \<Rightarrow> u64 \<Rightarrow> u64 \<Rightarrow> job_escrow" where
  "job_escrow_new job_id client_id amount percent current_block deadline_blocks =
     \<lparr>je_job_id = job_id, je_client_id = client_id, je_amount = amount,
      je_reserved = saturating_mul amount percent div 10000, je_status = EscActive,
      je_created_at_block = current_block,
      je_deadline_block = saturating_add current_block deadline_blocks\<rparr>"

definition releaseable_amount :: "job_escrow \<Rightarrow> u64" where
  "releaseable_amount e = saturating_sub (je_amount e) (je_reserved e)"

definition escrow_release :: "bytes32 \<Rightarrow> job_escrow \<Rightarrow> u64 \<times> job_escrow" where
  "escrow_release to e =
     (if je_status e \<noteq> EscActive then (0, e) else (je_amount e, e\<lparr>je_status := EscReleased\<rparr>))"

definition escrow_refund :: "job_escrow \<Rightarrow> u64 \<times> job_escrow" where
  "escrow_refund e =
     (if je_status e \<noteq> EscActive then (0, e) else (je_amount e, e\<lparr>je_status := EscRefunded\<rparr>))"

definition escrow_freeze :: "job_escrow \<Rightarrow> job_escrow" where
  "escrow_freeze e = (if je_status e = EscActive then e\<lparr>je_status := EscFrozen\<rparr> else e)"

definition escrow_unfreeze :: "job_escrow \<Rightarrow> job_escrow" where
  "escrow_unfreeze e = (if je_status e = EscFrozen then e\<lparr>je_status := EscActive\<rparr> else e)"

definition escrow_is_expired :: "u64 \<Rightarrow> job_escrow \<Rightarrow> bool" where
  "escrow_is_expired current_block e \<longleftrightarrow> je_deadline_block e < current_block \<and> je_status e = EscActive"

section \<open>The operator registry\<close>

datatype operator_status = OpRegistered | OpActive | OpSuspended | OpSlashed | OpDeregistered

record operator_state =
  os_id :: bytes32
  os_pubkey :: bytes32
  os_stake :: u64
  os_reputation :: u64
  os_status :: operator_status
  os_region :: string
  os_capabilities :: "bytes32 list"
  os_slashed_count :: u32
  os_total_jobs_completed :: u64
  os_total_compute_units :: u64
  os_last_update_block :: u64

record operator_registry =
  operators :: "(bytes32 \<times> operator_state) list"
  stake_index :: "(u64 \<times> bytes32 list) list"

definition registry_new :: operator_registry where
  "registry_new = \<lparr>operators = [], stake_index = []\<rparr>"

definition register :: "operator_state \<Rightarrow> operator_registry \<Rightarrow> operator_registry" where
  "register oper r =
     r\<lparr>stake_index := hm_push (os_stake oper div 1000) (os_id oper) (stake_index r),
       operators := hm_insert (os_id oper) oper (operators r)\<rparr>"

definition registry_get :: "operator_registry \<Rightarrow> bytes32 \<Rightarrow> operator_state option" where
  "registry_get r i = map_of (operators r) i"

definition is_active :: "operator_registry \<Rightarrow> bytes32 \<Rightarrow> bool" where
  "is_active r i = (case registry_get r i of None \<Rightarrow> False | Some oper \<Rightarrow> os_status oper = OpActive)"

text \<open>\<open>if let Some(ids) = stake_index.get_mut(&b) { ids.retain(|i| *i != id) }\<close>\<close>

definition retain_bucket :: "u64 \<Rightarrow> bytes32 \<Rightarrow> (u64 \<times> bytes32 list) list \<Rightarrow> (u64 \<times> bytes32 list) list" where
  "retain_bucket b i ix =
     (case map_of ix b of None \<Rightarrow> ix | Some ids \<Rightarrow> hm_insert b [j \<leftarrow> ids. j \<noteq> i] ix)"

definition registry_update_stake :: "bytes32 \<Rightarrow> u64 \<Rightarrow> (state_error, unit, operator_registry) op" where
  "registry_update_stake i new_stake r =
     (case map_of (operators r) i of
        None \<Rightarrow> (Inl OperatorNotFound, r)
      | Some oper \<Rightarrow>
          (Inr (), r\<lparr>operators := hm_insert i (oper\<lparr>os_stake := new_stake\<rparr>) (operators r),
                     stake_index := hm_push (new_stake div 1000) (os_id oper)
                       (retain_bucket (os_stake oper div 1000) (os_id oper) (stake_index r))\<rparr>))"

definition deactivate :: "bytes32 \<Rightarrow> operator_registry \<Rightarrow> operator_registry" where
  "deactivate i r =
     (case map_of (operators r) i of
        None \<Rightarrow> r
      | Some oper \<Rightarrow> r\<lparr>operators := hm_insert i (oper\<lparr>os_status := OpDeregistered\<rparr>) (operators r)\<rparr>)"

text \<open>The bucket is read from the stake after it was reduced, as in the source.\<close>

definition registry_slash :: "bytes32 \<Rightarrow> u64 \<Rightarrow> (state_error, u64, operator_registry) op" where
  "registry_slash i amount r =
     (case map_of (operators r) i of
        None \<Rightarrow> (Inl OperatorNotFound, r)
      | Some oper \<Rightarrow>
          if os_stake oper < amount then (Inl InsufficientStake, r)
          else
            let oper' = oper\<lparr>os_stake := saturating_sub (os_stake oper) amount,
                             os_slashed_count := os_slashed_count oper + 1,
                             os_status := OpSlashed\<rparr>
            in (Inr amount, r\<lparr>operators := hm_insert i oper' (operators r),
                              stake_index := retain_bucket (os_stake oper' div 1000) (os_id oper') (stake_index r)\<rparr>))"

definition increase_reputation :: "bytes32 \<Rightarrow> u64 \<Rightarrow> operator_registry \<Rightarrow> operator_registry" where
  "increase_reputation i delta r =
     (case map_of (operators r) i of
        None \<Rightarrow> r
      | Some oper \<Rightarrow>
          let rep = min (os_reputation oper + delta) 10000;
              status = (if os_status oper = OpSuspended \<and> 1000 \<le> rep then OpActive else os_status oper)
          in r\<lparr>operators := hm_insert i (oper\<lparr>os_reputation := rep, os_status := status\<rparr>) (operators r)\<rparr>)"

definition decrease_reputation :: "bytes32 \<Rightarrow> u64 \<Rightarrow> operator_registry \<Rightarrow> operator_registry" where
  "decrease_reputation i delta r =
     (case map_of (operators r) i of
        None \<Rightarrow> r
      | Some oper \<Rightarrow>
          let rep = saturating_sub (os_reputation oper) delta;
              status = (if os_status oper = OpActive \<and> rep < 500 then OpSuspended else os_status oper)
          in r\<lparr>operators := hm_insert i (oper\<lparr>os_reputation := rep, os_status := status\<rparr>) (operators r)\<rparr>)"

definition get_active_operators :: "operator_registry \<Rightarrow> operator_state list" where
  "get_active_operators r = [oper \<leftarrow> map snd (operators r). os_status oper = OpActive]"

section \<open>Receipt anchors\<close>

datatype receipt_status =
    RcSubmitted | RcPendingVerification | RcVerified | RcChallenged | RcDisputed | RcSettled | RcRejected

record receipt_anchor =
  ra_receipt_id :: bytes32
  ra_job_id :: bytes32
  ra_operator_id :: bytes32
  ra_output_hash :: bytes32
  ra_input_hash :: bytes32
  ra_compute_used :: u64
  ra_status :: receipt_status
  ra_created_at_block :: u64
  ra_settled_at_block :: "u64 option"
  ra_challenger_id :: "bytes32 option"

definition receipt_anchor_new ::
    "(bytes \<Rightarrow> bytes32) \<Rightarrow> bytes32 \<Rightarrow> bytes32 \<Rightarrow> bytes32 \<Rightarrow> bytes32 \<Rightarrow> u64 \<Rightarrow> u64 \<Rightarrow> receipt_anchor" where
  "receipt_anchor_new blake3 job_id operator_id output_hash input_hash compute_used current_block =
     \<lparr>ra_receipt_id = blake3 (job_id @ operator_id @ output_hash @ to_le_bytes 8 current_block),
      ra_job_id = job_id, ra_operator_id = operator_id, ra_output_hash = output_hash,
      ra_input_hash = input_hash, ra_compute_used = compute_used, ra_status = RcSubmitted,
      ra_created_at_block = current_block, ra_settled_at_block = None, ra_challenger_id = None\<rparr>"

definition anchor_verify :: "receipt_anchor \<Rightarrow> receipt_anchor" where
  "anchor_verify a = a\<lparr>ra_status := RcVerified\<rparr>"

definition anchor_challenge :: "bytes32 \<Rightarrow> receipt_anchor \<Rightarrow> receipt_anchor" where
  "anchor_challenge challenger a = a\<lparr>ra_status := RcChallenged, ra_challenger_id := Some challenger\<rparr>"

definition anchor_escalate :: "receipt_anchor \<Rightarrow> receipt_anchor" where
  "anchor_escalate a = a\<lparr>ra_status := RcDisputed\<rparr>"

definition anchor_settle :: "u64 \<Rightarrow> receipt_anchor \<Rightarrow> receipt_anchor" where
  "anchor_settle current_block a = a\<lparr>ra_status := RcSettled, ra_settled_at_block := Some current_block\<rparr>"

definition is_within_challenge_window :: "u64 \<Rightarrow> u64 \<Rightarrow> receipt_anchor \<Rightarrow> bool" where
  "is_within_challenge_window current_block window a \<longleftrightarrow> current_block \<le> ra_created_at_block a + window"

section \<open>Artifact commitments\<close>

record artifact_commitment =
  ac_artifact_id :: bytes32
  ac_content_hash :: bytes32
  ac_size_bytes :: u64
  ac_creator :: bytes32
  ac_commitment_block :: u64
  ac_sealed :: bool

definition artifact_new :: "(bytes \<Rightarrow> bytes32) \<Rightarrow> bytes \<Rightarrow> bytes32 \<Rightarrow> u64 \<Rightarrow> artifact_commitment" where
  "artifact_new blake3 content creator current_block =
     (let content_hash = blake3 content
      in \<lparr>ac_artifact_id = blake3 (content_hash @ to_le_bytes 8 current_block),
          ac_content_hash = content_hash, ac_size_bytes = of_nat (length content),
          ac_creator = creator, ac_commitment_block = current_block, ac_sealed = False\<rparr>)"

definition artifact_seal :: "artifact_commitment \<Rightarrow> artifact_commitment" where
  "artifact_seal a = a\<lparr>ac_sealed := True\<rparr>"

definition artifact_verify :: "(bytes \<Rightarrow> bytes32) \<Rightarrow> artifact_commitment \<Rightarrow> bytes \<Rightarrow> bool" where
  "artifact_verify blake3 a content \<longleftrightarrow> blake3 content = ac_content_hash a"

section \<open>Slashing conditions\<close>

record slashing_conditions =
  sc_min_stake :: u64
  sc_slash_percentage :: u64
  sc_challenge_window_blocks :: u64
  sc_double_signing_window_blocks :: u64
  sc_max_challenges_before_slash :: u32

definition slashing_conditions_default :: slashing_conditions where
  "slashing_conditions_default =
     \<lparr>sc_min_stake = 1000, sc_slash_percentage = 5000, sc_challenge_window_blocks = 100,
      sc_double_signing_window_blocks = 10, sc_max_challenges_before_slash = 3\<rparr>"

definition calculate_slash_amount :: "slashing_conditions \<Rightarrow> u64 \<Rightarrow> u64" where
  "calculate_slash_amount c stake = (stake * sc_slash_percentage c) div 10000"

definition should_slash :: "slashing_conditions \<Rightarrow> u32 \<Rightarrow> bool" where
  "should_slash c challenge_count \<longleftrightarrow> sc_max_challenges_before_slash c \<le> challenge_count"

section \<open>The settlement state\<close>

record settlement_state =
  job_escrows :: "(bytes32 \<times> job_escrow) list"
  operator_registry_of :: operator_registry
  receipt_anchors :: "(bytes32 \<times> receipt_anchor) list"
  artifacts :: "(bytes32 \<times> artifact_commitment) list"
  slashing_conditions_of :: slashing_conditions
  slashing_pool :: u64
  verifier_rewards :: "(bytes32 \<times> u64) list"

definition settlement_new :: settlement_state where
  "settlement_new =
     \<lparr>job_escrows = [], operator_registry_of = registry_new, receipt_anchors = [], artifacts = [],
      slashing_conditions_of = slashing_conditions_default, slashing_pool = 0, verifier_rewards = []\<rparr>"

definition create_escrow :: "bytes32 \<Rightarrow> bytes32 \<Rightarrow> u64 \<Rightarrow> u64 \<Rightarrow> u64 \<Rightarrow> settlement_state \<Rightarrow> settlement_state" where
  "create_escrow job_id client_id amount current_block deadline_blocks s =
     s\<lparr>job_escrows := hm_insert job_id
          (job_escrow_new job_id client_id amount 10 current_block deadline_blocks) (job_escrows s)\<rparr>"

definition get_escrow :: "settlement_state \<Rightarrow> bytes32 \<Rightarrow> job_escrow option" where
  "get_escrow s job_id = map_of (job_escrows s) job_id"

definition release_escrow :: "bytes32 \<Rightarrow> bytes32 \<Rightarrow> (state_error, u64, settlement_state) op" where
  "release_escrow job_id to s =
     (case map_of (job_escrows s) job_id of
        None \<Rightarrow> (Inl EscrowNotFound, s)
      | Some e \<Rightarrow>
          if je_status e \<noteq> EscActive then (Inl EscrowNotActive, s)
          else let (paid, e') = escrow_release to e
               in (Inr paid, s\<lparr>job_escrows := hm_insert job_id e' (job_escrows s)\<rparr>))"

definition refund_escrow :: "bytes32 \<Rightarrow> (state_error, u64, settlement_state) op" where
  "refund_escrow job_id s =
     (case map_of (job_escrows s) job_id of
        None \<Rightarrow> (Inl EscrowNotFound, s)
      | Some e \<Rightarrow>
          if je_status e \<noteq> EscActive then (Inl EscrowNotActive, s)
          else let (paid, e') = escrow_refund e
               in (Inr paid, s\<lparr>job_escrows := hm_insert job_id e' (job_escrows s)\<rparr>))"

definition anchor_receipt :: "receipt_anchor \<Rightarrow> settlement_state \<Rightarrow> settlement_state" where
  "anchor_receipt a s = s\<lparr>receipt_anchors := hm_insert (ra_receipt_id a) a (receipt_anchors s)\<rparr>"

definition get_receipt :: "settlement_state \<Rightarrow> bytes32 \<Rightarrow> receipt_anchor option" where
  "get_receipt s i = map_of (receipt_anchors s) i"

definition settlement_commit_artifact :: "artifact_commitment \<Rightarrow> settlement_state \<Rightarrow> settlement_state" where
  "settlement_commit_artifact a s = s\<lparr>artifacts := hm_insert (ac_artifact_id a) a (artifacts s)\<rparr>"

definition get_artifact :: "settlement_state \<Rightarrow> bytes32 \<Rightarrow> artifact_commitment option" where
  "get_artifact s i = map_of (artifacts s) i"

definition add_slashed_to_pool :: "u64 \<Rightarrow> settlement_state \<Rightarrow> settlement_state" where
  "add_slashed_to_pool amount s = s\<lparr>slashing_pool := slashing_pool s + amount\<rparr>"

text \<open>\<open>*rewards.entry(*v).or_insert(0) += per_verifier\<close> for each verifier in turn.\<close>

fun credit_verifiers :: "bytes32 list \<Rightarrow> u64 \<Rightarrow> (bytes32 \<times> u64) list \<Rightarrow> (bytes32 \<times> u64) list" where
  "credit_verifiers [] per m = m"
| "credit_verifiers (v # vs) per m =
     credit_verifiers vs per (hm_insert v ((case map_of m v of None \<Rightarrow> 0 | Some x \<Rightarrow> x) + per) m)"

text \<open>
  The division by the number of verifiers panics on an empty slice, after the pool was reduced:
  the state is then lost with the thread, so the panicking branch has no state.
\<close>

definition distribute_verifier_rewards ::
    "bytes32 list \<Rightarrow> u64 \<Rightarrow> settlement_state \<Rightarrow> ((state_error + unit) \<times> settlement_state) rust" where
  "distribute_verifier_rewards verifiers amount s =
     (if slashing_pool s < amount then Return (Inl InsufficientBalance, s)
      else if of_nat (length verifiers) = (0 :: u64) then Panic
      else let per = amount div of_nat (length verifiers)
           in Return (Inr (), s\<lparr>slashing_pool := slashing_pool s - amount,
                               verifier_rewards := credit_verifiers verifiers per (verifier_rewards s)\<rparr>))"

section \<open>Runs of an escrow\<close>

text \<open>The operations a holder of an escrow can call, and the payouts of a sequence of calls.\<close>

datatype escrow_op = EscRelease bytes32 | EscRefund | EscFreeze | EscUnfreeze

fun escrow_step :: "escrow_op \<Rightarrow> job_escrow \<Rightarrow> u64 \<times> job_escrow" where
  "escrow_step (EscRelease to) e = escrow_release to e"
| "escrow_step EscRefund e = escrow_refund e"
| "escrow_step EscFreeze e = (0, escrow_freeze e)"
| "escrow_step EscUnfreeze e = (0, escrow_unfreeze e)"

fun escrow_run :: "escrow_op list \<Rightarrow> job_escrow \<Rightarrow> u64 list \<times> job_escrow" where
  "escrow_run [] e = ([], e)"
| "escrow_run (x # xs) e =
     (let (paid, e') = escrow_step x e; (ps, e'') = escrow_run xs e' in (paid # ps, e''))"

definition escrow_open :: "job_escrow \<Rightarrow> bool" where
  "escrow_open e \<longleftrightarrow> je_status e \<in> {EscActive, EscFrozen}"

definition escrow_paid_out :: "job_escrow \<Rightarrow> bool" where
  "escrow_paid_out e \<longleftrightarrow> je_status e \<in> {EscReleased, EscRefunded}"

lemmas escrow_defs = escrow_release_def escrow_refund_def escrow_freeze_def escrow_unfreeze_def
  escrow_open_def escrow_paid_out_def

lemma escrow_step_paid_out: "escrow_paid_out e \<Longrightarrow> escrow_step x e = (0, e)"
  by (cases x) (auto simp: escrow_defs)

lemma escrow_run_paid_out: "escrow_paid_out e \<Longrightarrow> escrow_run xs e = (replicate (length xs) 0, e)"
  by (induction xs) (auto simp: escrow_step_paid_out)

lemma escrow_step_open:
  assumes "escrow_open e" and "escrow_step x e = (paid, e')"
  shows "je_amount e' = je_amount e \<and>
    (escrow_open e' \<and> paid = 0 \<or> escrow_paid_out e' \<and> paid = je_amount e)"
  using assms by (cases x) (auto simp: escrow_defs split: if_splits)

lemma escrow_open_not_paid_out: "escrow_open e \<Longrightarrow> \<not> escrow_paid_out e"
  by (auto simp: escrow_defs)

lemma escrow_run_pays:
  "escrow_open e \<Longrightarrow> escrow_run xs e = (ps, e') \<Longrightarrow>
     je_amount e' = je_amount e \<and> (escrow_open e' \<or> escrow_paid_out e') \<and>
     sum_list (map unat ps) = (if escrow_paid_out e' then unat (je_amount e) else 0)"
proof (induction xs arbitrary: e ps e')
  case Nil
  then show ?case by (auto dest: escrow_open_not_paid_out)
next
  case (Cons x xs)
  obtain paid e1 where s: "escrow_step x e = (paid, e1)" by fastforce
  obtain qs e2 where r: "escrow_run xs e1 = (qs, e2)" by fastforce
  have eqs: "ps = paid # qs" "e' = e2" using Cons.prems(2) s r by auto
  from escrow_step_open [OF Cons.prems(1) s] consider
      (opn) "escrow_open e1" "paid = 0" "je_amount e1 = je_amount e"
    | (out) "escrow_paid_out e1" "paid = je_amount e" "je_amount e1 = je_amount e" by blast
  then show ?case
  proof cases
    case opn
    with Cons.IH [OF opn(1) r] eqs show ?thesis by auto
  next
    case out
    then have "qs = replicate (length xs) 0" "e2 = e1"
      using r escrow_run_paid_out [OF out(1), of xs] by auto
    with out eqs show ?thesis by (simp add: sum_list_replicate)
  qed
qed

section \<open>Amounts\<close>

lemma div_10000_le: "unat (a :: u64) \<le> k * 10000 \<Longrightarrow> unat (a div 10000) \<le> k"
  by (simp add: unat_div div_le_mono [of _ "k * 10000" 10000, simplified])

text \<open>
  A product with a ratio of at most 10000 basis points, divided by 10000, never exceeds the amount:
  also where it wraps or saturates, since then the amount is above \<open>2 ^ 64 div 10000\<close>.
\<close>

lemma basis_points_bound:
  assumes "p \<le> 10000" and "x \<le> amount * p \<or> x < 2 ^ 64 \<and> 2 ^ 64 \<le> amount * p"
  shows "x div 10000 \<le> (amount :: nat)"
proof -
  have "amount * p \<le> amount * 10000" using assms(1) by simp
  with assms(2) have "x \<le> amount * 10000" by linarith
  then have "x div 10000 \<le> (amount * 10000) div 10000" by (rule div_le_mono)
  then show ?thesis by simp
qed

lemma escrow_reserved_le:
  assumes "unat percent \<le> 10000"
  shows "je_reserved (job_escrow_new j c amount percent b d) \<le> amount"
proof -
  have "unat (saturating_mul amount percent) \<le> unat amount * unat percent"
    by (simp add: unat_saturating_mul)
  then have "unat (saturating_mul amount percent) div 10000 \<le> unat amount"
    by (rule basis_points_bound [OF assms disjI1])
  then show ?thesis by (simp add: job_escrow_new_def word_le_nat_alt unat_div)
qed

lemma wrap_product: "unat (a * b :: u64) \<le> unat a * unat b"
  by (simp add: unat_word_ariths)

section \<open>The stake index\<close>

definition registry_wf :: "operator_registry \<Rightarrow> bool" where
  "registry_wf r \<longleftrightarrow> hm_wf (operators r) \<and> hm_wf (stake_index r) \<and>
     (\<forall>i oper. map_of (operators r) i = Some oper \<longrightarrow>
        os_id oper = i \<and> i \<in> set (hm_lookup_list (stake_index r) (os_stake oper div 1000)) \<and>
        os_reputation oper \<le> 10000)"

lemma registry_wfD:
  assumes "registry_wf r" and "map_of (operators r) i = Some oper"
  shows "os_id oper = i" and "i \<in> set (hm_lookup_list (stake_index r) (os_stake oper div 1000))"
    and "os_reputation oper \<le> 10000"
  using assms by (auto simp: registry_wf_def)

lemma lookup_list_retain:
  "hm_lookup_list (retain_bucket b i ix) c = (if c = b then [j \<leftarrow> hm_lookup_list ix b. j \<noteq> i] else hm_lookup_list ix c)"
  by (auto simp: retain_bucket_def hm_lookup_list_def split: option.splits)

lemma hm_wf_retain [simp]: "hm_wf ix \<Longrightarrow> hm_wf (retain_bucket b i ix)"
  by (auto simp: retain_bucket_def hm.wf_insert split: option.splits)

text \<open>The operations the ledger applies to its registry, and the other ones that keep the index, as a step relation.\<close>

inductive registry_step :: "operator_registry \<Rightarrow> operator_registry \<Rightarrow> bool" where
  reg_register: "os_reputation oper \<le> 10000 \<Longrightarrow> registry_step r (register oper r)"
| reg_update: "registry_update_stake i st r = (res, r') \<Longrightarrow> registry_step r r'"
| reg_deactivate: "registry_step r (deactivate i r)"
| reg_increase: "registry_step r (increase_reputation i d r)"
| reg_decrease: "registry_step r (decrease_reputation i d r)"

definition sample_operator :: "bytes32 \<Rightarrow> u64 \<Rightarrow> operator_state" where
  "sample_operator i stake =
     \<lparr>os_id = i, os_pubkey = zero32, os_stake = stake, os_reputation = 1000, os_status = OpActive,
      os_region = ''global'', os_capabilities = [], os_slashed_count = 0, os_total_jobs_completed = 0,
      os_total_compute_units = 0, os_last_update_block = 0\<rparr>"

lemma registry_wf_new: "registry_wf registry_new"
  by (simp add: registry_wf_def registry_new_def hm.wf_empty)

lemma registry_wf_register:
  "os_reputation oper \<le> 10000 \<Longrightarrow> registry_wf r \<Longrightarrow> registry_wf (register oper r)"
  by (auto simp: registry_wf_def register_def hm.wf_insert lookup_list_push) metis

lemma bucket_frame:
  "j \<noteq> i \<Longrightarrow> j \<in> set (hm_lookup_list (hm_push b' i (retain_bucket b i ix)) c) \<longleftrightarrow> j \<in> set (hm_lookup_list ix c)"
  by (simp add: lookup_list_push lookup_list_retain)

lemma registry_wf_update_stake:
  assumes "registry_update_stake i st r = (res, r')" and w: "registry_wf r"
  shows "registry_wf r'"
proof (cases "map_of (operators r) i")
  case None
  with assms show ?thesis by (simp add: registry_update_stake_def)
next
  case (Some oper)
  let ?ix = "hm_push (st div 1000) i (retain_bucket (os_stake oper div 1000) i (stake_index r))"
  from Some assms have r': "r' = r\<lparr>operators := hm_insert i (oper\<lparr>os_stake := st\<rparr>) (operators r), stake_index := ?ix\<rparr>"
    by (auto simp: registry_update_stake_def registry_wfD(1))
  have own: "i \<in> set (hm_lookup_list ?ix (st div 1000))" by (simp add: lookup_list_push)
  have "hm_wf (operators r)" "hm_wf (stake_index r)" using w by (simp_all add: registry_wf_def)
  then show ?thesis unfolding registry_wf_def r'
    using own bucket_frame registry_wfD [OF w] Some by (auto simp: hm.wf_insert)
qed

text \<open>An operation that rewrites one entry and keeps its id and stake, with a bounded reputation.\<close>

lemma registry_wf_rewrite:
  assumes "registry_wf r" and "map_of (operators r) i = Some oper"
    and "os_id oper' = os_id oper" "os_stake oper' = os_stake oper" "os_reputation oper' \<le> 10000"
  shows "registry_wf (r\<lparr>operators := hm_insert i oper' (operators r)\<rparr>)"
  using assms by (auto simp: registry_wf_def hm.wf_insert)

lemma registry_step_wf: "registry_step r r' \<Longrightarrow> registry_wf r \<Longrightarrow> registry_wf r'"
proof (induction rule: registry_step.induct)
  case (reg_deactivate r i)
  then show ?case
    by (auto simp: deactivate_def intro!: registry_wf_rewrite dest: registry_wfD(3) split: option.splits)
next
  case (reg_increase r i d)
  then show ?case
    by (auto simp: increase_reputation_def Let_def intro!: registry_wf_rewrite split: option.splits)
next
  case (reg_decrease r i d)
  then show ?case
    by (auto simp: decrease_reputation_def Let_def intro!: registry_wf_rewrite
        intro: order_trans [OF saturating_sub_bound registry_wfD(3)] split: option.splits)
qed (auto intro: registry_wf_register registry_wf_update_stake)

interpretation registry_run: transition_system registry_step registry_wf "\<lambda>r. r = registry_new"
  by unfold_locales (auto intro: registry_wf_new registry_step_wf)

lemmas registry_reachable_wf = registry_run.reachable_inv [OF _ refl]

subsection \<open>The index under every call\<close>

text \<open>The calls that change the registry, slashing included, and whether the last call that touched the stake of an
  operator (registering it, restaking it or slashing it with success) was a slash.\<close>

datatype registry_call = RegAdd operator_state | RegRestake bytes32 u64 | RegDeactivate bytes32 | RegSlash bytes32 u64
  | RegRaise bytes32 u64 | RegLower bytes32 u64

fun registry_after :: "registry_call \<Rightarrow> operator_registry \<Rightarrow> operator_registry" where
  "registry_after (RegAdd oper) r = register oper r"
| "registry_after (RegRestake i st) r = snd (registry_update_stake i st r)"
| "registry_after (RegDeactivate i) r = deactivate i r"
| "registry_after (RegSlash i amount) r = snd (registry_slash i amount r)"
| "registry_after (RegRaise i d) r = increase_reputation i d r"
| "registry_after (RegLower i d) r = decrease_reputation i d r"

fun slash_mark :: "registry_call \<Rightarrow> operator_registry \<Rightarrow> (bytes32 \<Rightarrow> bool) \<Rightarrow> bytes32 \<Rightarrow> bool" where
  "slash_mark (RegAdd oper) r m = m(os_id oper := False)"
| "slash_mark (RegRestake i st) r m = m(i := False)"
| "slash_mark (RegSlash i amount) r m = (if isl (fst (registry_slash i amount r)) then m else m(i := True))"
| "slash_mark call r m = m"

fun registry_calls :: "registry_call list \<Rightarrow> operator_registry \<Rightarrow> operator_registry" where
  "registry_calls [] r = r"
| "registry_calls (x # xs) r = registry_calls xs (registry_after x r)"

fun slashed_last :: "registry_call list \<Rightarrow> operator_registry \<Rightarrow> (bytes32 \<Rightarrow> bool) \<Rightarrow> bytes32 \<Rightarrow> bool" where
  "slashed_last [] r m = m"
| "slashed_last (x # xs) r m = slashed_last xs (registry_after x r) (slash_mark x r m)"

definition index_marked :: "operator_registry \<Rightarrow> (bytes32 \<Rightarrow> bool) \<Rightarrow> bool" where
  "index_marked r m \<longleftrightarrow> hm_wf (operators r) \<and> hm_wf (stake_index r) \<and>
     (\<forall>i oper. map_of (operators r) i = Some oper \<longrightarrow>
        os_id oper = i \<and> (i \<in> set (hm_lookup_list (stake_index r) (os_stake oper div 1000)) \<longleftrightarrow> \<not> m i))"

lemma index_marked_rewrite:
  assumes "index_marked r m" "map_of (operators r) i = Some oper" "os_id oper' = os_id oper" "os_stake oper' = os_stake oper"
  shows "index_marked (r\<lparr>operators := hm_insert i oper' (operators r)\<rparr>) m"
  using assms by (auto simp: index_marked_def hm.wf_insert)

text \<open>A call that rewrites the entry of one operator and lists or unlists no other one in any bucket.\<close>

lemma index_marked_entry:
  assumes "index_marked r m" "operators r' = hm_insert i oper' (operators r)" "os_id oper' = i" "hm_wf (stake_index r')"
    and frame: "\<And>j k. j \<noteq> i \<Longrightarrow> j \<in> set (hm_lookup_list (stake_index r') k) \<longleftrightarrow> j \<in> set (hm_lookup_list (stake_index r) k)"
    and own: "i \<in> set (hm_lookup_list (stake_index r') (os_stake oper' div 1000)) \<longleftrightarrow> \<not> b"
  shows "index_marked r' (m(i := b))"
  using assms unfolding index_marked_def by (simp add: hm.wf_insert)

lemma index_marked_after:
  assumes "index_marked r m"
  shows "index_marked (registry_after x r) (slash_mark x r m)"
proof -
  have wf: "hm_wf (operators r)" "hm_wf (stake_index r)" using assms by (simp_all add: index_marked_def)
  have ids: "os_id oper = i" if "map_of (operators r) i = Some oper" for i oper
    using assms that by (simp add: index_marked_def)
  show ?thesis
  proof (cases x)
    case (RegAdd oper)
    show ?thesis unfolding RegAdd registry_after.simps slash_mark.simps
      by (rule index_marked_entry [OF assms, of _ _ oper]) (simp_all add: register_def wf lookup_list_push)
  next
    case (RegRestake i st)
    show ?thesis
    proof (cases "map_of (operators r) i")
      case None
      with assms RegRestake show ?thesis by (auto simp: registry_update_stake_def index_marked_def)
    next
      case (Some oper)
      show ?thesis unfolding RegRestake registry_after.simps slash_mark.simps
        by (rule index_marked_entry [OF assms, of _ _ "oper\<lparr>os_stake := st\<rparr>"])
          (simp_all add: registry_update_stake_def Some wf ids [OF Some] lookup_list_push lookup_list_retain)
    qed
  next
    case (RegSlash i amount)
    show ?thesis
    proof (cases "isl (fst (registry_slash i amount r))")
      case True
      with assms RegSlash show ?thesis by (auto simp: registry_slash_def Let_def split: option.splits if_splits)
    next
      case False
      then obtain oper where oper: "map_of (operators r) i = Some oper" "\<not> os_stake oper < amount"
        by (auto simp: registry_slash_def Let_def split: option.splits if_splits)
      have "index_marked (snd (registry_slash i amount r)) (m(i := True))"
        by (rule index_marked_entry [OF assms, of _ _ "oper\<lparr>os_stake := saturating_sub (os_stake oper) amount,
              os_slashed_count := os_slashed_count oper + 1, os_status := OpSlashed\<rparr>"])
          (simp_all add: registry_slash_def oper wf ids [OF oper(1)] Let_def lookup_list_retain)
      with False RegSlash show ?thesis by simp
    qed
  qed (use assms in \<open>auto simp: deactivate_def increase_reputation_def decrease_reputation_def Let_def split: option.splits
      intro: index_marked_rewrite\<close>)
qed

lemma index_marked_calls: "index_marked r m \<Longrightarrow> index_marked (registry_calls xs r) (slashed_last xs r m)"
  by (induction xs arbitrary: r m) (simp_all add: index_marked_after)

definition reputations_bounded :: "operator_registry \<Rightarrow> bool" where
  "reputations_bounded r \<longleftrightarrow> (\<forall>i oper. map_of (operators r) i = Some oper \<longrightarrow> os_reputation oper \<le> 10000)"

lemma reputations_bounded_after:
  assumes "reputations_bounded r" "\<And>oper. x = RegAdd oper \<Longrightarrow> os_reputation oper \<le> 10000"
  shows "reputations_bounded (registry_after x r)"
  using assms
  by (cases x) (auto simp: reputations_bounded_def register_def registry_update_stake_def deactivate_def registry_slash_def
      increase_reputation_def decrease_reputation_def Let_def intro: order_trans [OF saturating_sub_bound]
      split: option.splits if_splits)

lemma reputations_bounded_calls:
  "reputations_bounded r \<Longrightarrow> \<forall>oper. RegAdd oper \<in> set xs \<longrightarrow> os_reputation oper \<le> 10000 \<Longrightarrow> reputations_bounded (registry_calls xs r)"
  by (induction xs arbitrary: r) (simp_all add: reputations_bounded_after)

section \<open>Verifier rewards\<close>

lemma credit_verifiers_wf: "hm_wf m \<Longrightarrow> hm_wf (credit_verifiers vs per m)"
  by (induction vs per m rule: credit_verifiers.induct) (auto simp: hm.wf_insert)

lemma total_credit_verifiers:
  "hm_wf m \<Longrightarrow> total (\<lambda>x. x) (credit_verifiers vs per m) = total (\<lambda>x. x) m + of_nat (length vs) * per"
proof (induction vs per m rule: credit_verifiers.induct)
  case (1 per m)
  then show ?case by simp
next
  case (2 v vs per m)
  have "total (\<lambda>x. x) (hm_insert v ((case map_of m v of None \<Rightarrow> 0 | Some x \<Rightarrow> x) + per) m) = total (\<lambda>x. x) m + per"
    using 2(2) by (cases "map_of m v") (simp_all add: hm.total_insert_new hm.total_update)
  with 2 show ?case by (simp add: hm.wf_insert algebra_simps)
qed

section \<open>Properties\<close>

text \<open>C1. Over any sequence of release, refund, freeze and unfreeze calls on an open escrow, the payouts
  add up to the escrowed amount exactly when the escrow ends released or refunded, and to nothing
  otherwise; the amount never changes, and once paid out the escrow pays nothing more.\<close>

theorem escrow_pays_at_most_once:
  assumes "escrow_open e" and "escrow_run ops e = (payouts, e')"
  shows "sum_list (map unat payouts) = (if escrow_paid_out e' then unat (je_amount e) else 0) \<and>
    je_amount e' = je_amount e \<and>
    (escrow_paid_out e' \<longrightarrow> escrow_run later e' = (replicate (length later) 0, e'))"
  using escrow_run_pays [OF assms] escrow_run_paid_out by auto

theorem escrow_pays_at_most_once_witness:
  "let e = job_escrow_new (replicate 32 1) (replicate 32 2) 5000 10 7 500;
       e' = snd (escrow_run [EscFreeze, EscRelease [], EscUnfreeze, EscRelease [], EscRefund] e)
   in sum_list (map unat (fst (escrow_run [EscFreeze, EscRelease [], EscUnfreeze, EscRelease [], EscRefund] e))) = 5000
      \<and> je_amount e' = 5000 \<and> escrow_run [EscRefund] e' = ([0], e')"
proof -
  let ?e = "job_escrow_new (replicate 32 1) (replicate 32 2) 5000 10 7 500"
  let ?ops = "[EscFreeze, EscRelease [], EscUnfreeze, EscRelease [], EscRefund]"
  have o: "escrow_open ?e" by (simp add: escrow_open_def job_escrow_new_def)
  have r: "escrow_run ?ops ?e = (fst (escrow_run ?ops ?e), snd (escrow_run ?ops ?e))" by simp
  have p: "escrow_paid_out (snd (escrow_run ?ops ?e))" by (simp add: escrow_defs job_escrow_new_def)
  show ?thesis
    using escrow_pays_at_most_once [OF o r, of "[EscRefund]"] p by (simp add: job_escrow_new_def)
qed

text \<open>With a reserve of at most 10000 basis points, the reserve and the releaseable part of a new
  escrow add up to its amount, also where the product of amount and percentage saturates.\<close>

theorem escrow_reserve_split:
  assumes "unat percent \<le> 10000"
  shows "let e = job_escrow_new job client amount percent block deadline
         in je_reserved e \<le> amount \<and> unat (releaseable_amount e) + unat (je_reserved e) = unat amount"
  using escrow_reserved_le [OF assms, of job client amount block deadline]
  by (auto simp: Let_def releaseable_amount_def unat_saturating_sub word_le_nat_alt)
     (simp add: job_escrow_new_def)

theorem escrow_reserve_split_witness:
  "let e = job_escrow_new (replicate 32 1) (replicate 32 2) (- 1) 10000 0 500
   in je_reserved e \<le> - 1 \<and> unat (releaseable_amount e) + unat (je_reserved e) = 2 ^ 64 - 1"
  using escrow_reserve_split [of 10000 "replicate 32 1" "replicate 32 2" "- 1" 0 500]
  by (simp add: Let_def unat_minus_one_word)

text \<open>A successful release or refund pays the whole amount of an active escrow, leaves every other
  escrow alone, and afterwards both release and refund of that job fail with \<open>EscrowNotActive\<close> and
  change nothing.\<close>

theorem release_refund_exclusive:
  assumes "release_escrow job to s = (Inr paid, s') \<or> refund_escrow job s = (Inr paid, s')"
  shows "(\<exists>e. get_escrow s job = Some e \<and> je_status e = EscActive \<and> paid = je_amount e) \<and>
    (other \<noteq> job \<longrightarrow> get_escrow s' other = get_escrow s other) \<and>
    release_escrow job to' s' = (Inl EscrowNotActive, s') \<and> refund_escrow job s' = (Inl EscrowNotActive, s')"
  using assms
  by (auto simp: release_escrow_def refund_escrow_def get_escrow_def escrow_release_def escrow_refund_def
      split: option.splits if_splits)

theorem release_refund_exclusive_witness:
  "let s = create_escrow (replicate 32 1) (replicate 32 2) 5000 0 500 settlement_new;
       s' = snd (release_escrow (replicate 32 1) [] s)
   in (\<exists>e. get_escrow s (replicate 32 1) = Some e \<and> je_status e = EscActive \<and> 5000 = je_amount e) \<and>
      get_escrow s' (replicate 32 9) = get_escrow s (replicate 32 9) \<and>
      refund_escrow (replicate 32 1) s' = (Inl EscrowNotActive, s')"
proof -
  let ?s = "create_escrow (replicate 32 1) (replicate 32 2) 5000 0 500 settlement_new"
  have "release_escrow (replicate 32 1) [] ?s = (Inr 5000, snd (release_escrow (replicate 32 1) [] ?s))"
    by (simp add: release_escrow_def create_escrow_def settlement_new_def job_escrow_new_def escrow_release_def)
  then have h: "release_escrow (replicate 32 1) [] ?s = (Inr 5000, snd (release_escrow (replicate 32 1) [] ?s))
      \<or> refund_escrow (replicate 32 1) ?s = (Inr 5000, snd (release_escrow (replicate 32 1) [] ?s))" ..
  have "replicate 32 (9 :: u8) \<noteq> replicate 32 1" by (simp add: replicate_eq_replicate)
  with release_refund_exclusive [OF h, of "replicate 32 9"] show ?thesis
    unfolding Let_def by blast
qed

text \<open>C37. The stake index under every sequence of calls, slashes included: each operator is filed under its own id, and it is
  listed in the stake bucket of its current stake exactly when the last call that touched its stake was not a successful
  slash. If every operator was registered with a reputation of at most 10000, no reputation is above that.\<close>

theorem registry_index_exact:
  assumes "registry_get (registry_calls xs registry_new) i = Some oper"
  shows "os_id oper = i \<and>
    (i \<in> set (hm_lookup_list (stake_index (registry_calls xs registry_new)) (os_stake oper div 1000)) \<longleftrightarrow>
      \<not> slashed_last xs registry_new (\<lambda>i. False) i) \<and>
    ((\<forall>x. RegAdd x \<in> set xs \<longrightarrow> os_reputation x \<le> 10000) \<longrightarrow> os_reputation oper \<le> 10000)"
proof -
  have "index_marked registry_new (\<lambda>i. False)" by (simp add: index_marked_def registry_new_def hm.wf_empty)
  from index_marked_calls [OF this, of xs] reputations_bounded_calls [of registry_new xs] assms show ?thesis
    by (simp add: index_marked_def registry_get_def reputations_bounded_def) (simp add: registry_new_def)
qed

text \<open>An operator is slashed, and then restaked.\<close>

theorem registry_index_exact_witness:
  "let xs = [RegAdd (sample_operator [7] 2500), RegSlash [7] 1000]
   in [7] \<notin> set (hm_lookup_list (stake_index (registry_calls xs registry_new)) 1) \<and>
      [7] \<in> set (hm_lookup_list (stake_index (registry_calls (xs @ [RegRestake [7] 1500]) registry_new)) 1)"
proof -
  let ?xs = "[RegAdd (sample_operator [7] 2500), RegSlash [7] 1000]" and ?ys = "[RegAdd (sample_operator [7] 2500), RegSlash [7] 1000, RegRestake [7] 1500]"
  have "\<exists>x. registry_get (registry_calls ?xs registry_new) [7] = Some x \<and> os_stake x = 1500"
    "\<exists>y. registry_get (registry_calls ?ys registry_new) [7] = Some y \<and> os_stake y = 1500"
    "slashed_last ?xs registry_new (\<lambda>i. False) [7]" "\<not> slashed_last ?ys registry_new (\<lambda>i. False) [7]"
    by (simp_all add: registry_get_def register_def registry_new_def registry_slash_def sample_operator_def registry_update_stake_def
        saturating_sub_def Let_def)
  with registry_index_exact [of ?xs "[7]"] registry_index_exact [of ?ys "[7]"] show ?thesis by (auto simp: Let_def simp del: registry_calls.simps)
qed

text \<open>Slashing an operator removes it from the stake bucket of its new stake, where a lookup by
  stake would look for it, and leaves it listed in the bucket of its old stake when that is another
  one: the index does not follow a slash.\<close>

theorem slash_index_stale:
  assumes "registry_wf r" and "registry_get r i = Some oper"
    and "registry_slash i amount r = (Inr slashed, r')"
  shows "let stake' = os_stake oper - amount
         in map_option os_stake (registry_get r' i) = Some stake' \<and>
            i \<notin> set (hm_lookup_list (stake_index r') (stake' div 1000)) \<and>
            (stake' div 1000 \<noteq> os_stake oper div 1000 \<longrightarrow>
               i \<in> set (hm_lookup_list (stake_index r') (os_stake oper div 1000)))"
  using assms registry_wfD [OF assms(1)]
  by (auto simp: registry_slash_def registry_get_def Let_def lookup_list_retain saturating_sub_le not_less
      split: if_splits)

theorem slash_index_stale_witness:
  "let r = register (sample_operator [7] 2500) registry_new; r' = snd (registry_slash [7] 1000 r)
   in map_option os_stake (registry_get r' [7]) = Some 1500 \<and>
      [7] \<notin> set (hm_lookup_list (stake_index r') 1) \<and> [7] \<in> set (hm_lookup_list (stake_index r') 2)"
proof -
  let ?r = "register (sample_operator [7] 2500) registry_new"
  have w: "registry_wf ?r" by (rule registry_wf_register) (simp_all add: registry_wf_new sample_operator_def)
  have g: "registry_get ?r [7] = Some (sample_operator [7] 2500)"
    by (simp add: registry_get_def register_def registry_new_def sample_operator_def)
  have s: "registry_slash [7] 1000 ?r = (Inr 1000, snd (registry_slash [7] 1000 ?r))"
    by (simp add: registry_slash_def register_def registry_new_def sample_operator_def)
  from slash_index_stale [OF w g s] show ?thesis by (simp add: Let_def sample_operator_def)
qed

text \<open>Distributing an amount of the slashing pool over a non-empty list of verifiers returns
  without panicking; what leaves the pool is what the rewards gain plus the remainder of the
  division, which is credited to nobody.\<close>

theorem verifier_rewards_conserved:
  assumes "verifiers \<noteq> []" and "length verifiers < 2 ^ 64" and "amount \<le> slashing_pool s"
    and "hm_wf (verifier_rewards s)"
  shows "\<exists>s'. distribute_verifier_rewards verifiers amount s = Return (Inr (), s') \<and>
    slashing_pool s' = slashing_pool s - amount \<and>
    total (\<lambda>x. x) (verifier_rewards s') + amount mod of_nat (length verifiers) =
      total (\<lambda>x. x) (verifier_rewards s) + amount"
proof -
  let ?n = "of_nat (length verifiers) :: u64"
  have "unat ?n = length verifiers" using assms(2) by (simp add: unat_of_nat)
  then have "?n \<noteq> 0" using assms(1) by (metis length_0_conv unat_0)
  moreover have "?n * (amount div ?n) + amount mod ?n = amount" by (simp add: mult_div_mod_eq)
  ultimately show ?thesis using assms(3,4)
    by (auto simp: distribute_verifier_rewards_def Let_def total_credit_verifiers add.assoc)
qed

theorem verifier_rewards_conserved_witness:
  "\<exists>s'. distribute_verifier_rewards [[1], [2], [1]] 100 (add_slashed_to_pool 500 settlement_new) = Return (Inr (), s') \<and>
    slashing_pool s' = 400 \<and> total (\<lambda>x. x) (verifier_rewards s') + 1 = 100"
  using verifier_rewards_conserved [of "[[1], [2], [1]]" 100 "add_slashed_to_pool 500 settlement_new"]
  by (simp add: add_slashed_to_pool_def settlement_new_def hm.wf_empty)

text \<open>The slash computed from the slashing conditions never exceeds the stake for a percentage of at
  most 10000, also where the product wraps; where it does not wrap it is the exact fraction.\<close>

theorem slash_amount_bounded:
  assumes "unat (sc_slash_percentage c) \<le> 10000"
  shows "calculate_slash_amount c stake \<le> stake \<and>
    (unat stake * unat (sc_slash_percentage c) < 2 ^ 64 \<longrightarrow>
      unat (calculate_slash_amount c stake) = unat stake * unat (sc_slash_percentage c) div 10000)"
proof -
  have "unat (stake * sc_slash_percentage c) div 10000 \<le> unat stake"
    by (rule basis_points_bound [OF assms disjI1 [OF wrap_product]])
  then show ?thesis
    by (simp add: calculate_slash_amount_def word_le_nat_alt unat_div unat_mult_no_wrap)
qed

theorem slash_amount_bounded_witness:
  "calculate_slash_amount slashing_conditions_default (- 1) \<le> - 1 \<and>
   unat (calculate_slash_amount slashing_conditions_default 2001) = 1000"
  using slash_amount_bounded [of slashing_conditions_default "- 1"]
    slash_amount_bounded [of slashing_conditions_default 2001]
  by (simp add: slashing_conditions_default_def)

end
