(* ===== verification/Transactions.thy ===== *)
theory Transactions
  imports Settlement
begin

text \<open>
  Transactions of the truth plane, \<open>crates/truth/src/transaction.rs\<close>: the transaction types, their
  format check, the authorization check and the constructors that lay out each payload. The hash
  and the Ed25519 check come from crates outside the repository and are the fields of \<open>crypto\<close>:
  \<open>ed25519_ok key message signature\<close> says that both parse and the signature verifies, the three
  library calls whose failures the code maps to the same error.
\<close>

record crypto =
  blake3 :: "bytes \<Rightarrow> bytes32"
  ed25519_ok :: "bytes32 \<Rightarrow> bytes \<Rightarrow> bytes \<Rightarrow> bool"

datatype transaction_type =
    JobSubmit | JobSettle | ArtifactCommit | OperatorRegister | OperatorUpdate | ReputationUpdate
  | EscrowDeposit | EscrowRelease | EscrowRefund | GovernanceVote
  | Transfer | ContractDeploy | ContractCall | IntelligenceSubmit | IntelligenceSettle

datatype tx_error =
    InvalidFormat | UnsupportedTxType | InvalidSignature | InvalidSenderForType | InvalidPayload | Expired

record transaction =
  tx_id :: bytes32
  tx_sender :: bytes32
  tx_type :: transaction_type
  tx_payload :: bytes
  tx_nonce :: u64
  tx_fee :: u64
  tx_signature :: bytes

definition is_legacy_type :: "transaction_type \<Rightarrow> bool" where
  "is_legacy_type t \<longleftrightarrow>
     t \<in> {Transfer, ContractDeploy, ContractCall, IntelligenceSubmit, IntelligenceSettle}"

definition tx_verify :: "transaction \<Rightarrow> tx_error + unit" where
  "tx_verify tx =
     (if is_legacy_type (tx_type tx)
      then (if tx_payload tx = [] \<and> tx_type tx \<noteq> Transfer then Inl InvalidFormat else Inr ())
      else (if tx_payload tx = [] then Inl InvalidPayload else Inr ()))"

definition is_settlement_type :: "transaction \<Rightarrow> bool" where
  "is_settlement_type tx \<longleftrightarrow>
     tx_type tx \<in> {JobSubmit, JobSettle, ArtifactCommit, OperatorRegister, OperatorUpdate,
       ReputationUpdate, EscrowDeposit, EscrowRelease, EscrowRefund}"

definition verify_authorization :: "crypto \<Rightarrow> bytes32 \<Rightarrow> transaction \<Rightarrow> tx_error + unit" where
  "verify_authorization c pubkey tx =
     (if tx_signature tx = [] then Inl InvalidSignature
      else if length (tx_signature tx) \<noteq> 64 then Inl InvalidSignature
      else
        let message = blake3 c (tx_sender tx @ to_le_bytes 8 (tx_nonce tx) @ tx_payload tx)
        in if ed25519_ok c pubkey message (tx_signature tx) then Inr () else Inl InvalidSignature)"

section \<open>Constructors\<close>

definition tx_of_payload :: "crypto \<Rightarrow> transaction_type \<Rightarrow> bytes32 \<Rightarrow> u64 \<Rightarrow> bytes \<Rightarrow> transaction" where
  "tx_of_payload c t sender fee payload =
     \<lparr>tx_id = blake3 c payload, tx_sender = sender, tx_type = t, tx_payload = payload,
      tx_nonce = 0, tx_fee = fee, tx_signature = []\<rparr>"

definition new_job_submit :: "crypto \<Rightarrow> bytes32 \<Rightarrow> bytes32 \<Rightarrow> u64 \<Rightarrow> u64 \<Rightarrow> transaction" where
  "new_job_submit c job_id kernel_id budget deadline =
     tx_of_payload c JobSubmit zero32 0
       (job_id @ kernel_id @ to_le_bytes 8 budget @ to_le_bytes 8 deadline)"

definition new_job_settle :: "crypto \<Rightarrow> bytes32 \<Rightarrow> bytes32 \<Rightarrow> transaction" where
  "new_job_settle c receipt_id output_hash = tx_of_payload c JobSettle zero32 0 (receipt_id @ output_hash)"

definition new_artifact_commit :: "crypto \<Rightarrow> bytes32 \<Rightarrow> u64 \<Rightarrow> transaction" where
  "new_artifact_commit c content_hash size_bytes =
     tx_of_payload c ArtifactCommit zero32 0 (content_hash @ to_le_bytes 8 size_bytes)"

definition new_operator_register :: "crypto \<Rightarrow> bytes32 \<Rightarrow> bytes32 \<Rightarrow> u64 \<Rightarrow> bytes \<Rightarrow> transaction" where
  "new_operator_register c operator_id pubkey stake region =
     tx_of_payload c OperatorRegister operator_id stake
       (operator_id @ pubkey @ to_le_bytes 8 stake @ region)"

definition new_reputation_update :: "crypto \<Rightarrow> bytes32 \<Rightarrow> u64 \<Rightarrow> transaction" where
  "new_reputation_update c target_operator delta =
     tx_of_payload c ReputationUpdate zero32 0 (target_operator @ to_le_bytes 8 delta)"

definition new_escrow_deposit :: "crypto \<Rightarrow> bytes32 \<Rightarrow> u64 \<Rightarrow> transaction" where
  "new_escrow_deposit c job_id amount =
     tx_of_payload c EscrowDeposit zero32 amount (job_id @ to_le_bytes 8 amount)"

definition new_escrow_release :: "crypto \<Rightarrow> bytes32 \<Rightarrow> bytes32 \<Rightarrow> transaction" where
  "new_escrow_release c job_id recipient = tx_of_payload c EscrowRelease zero32 0 (job_id @ recipient)"

definition new_escrow_refund :: "crypto \<Rightarrow> bytes32 \<Rightarrow> transaction" where
  "new_escrow_refund c job_id = tx_of_payload c EscrowRefund zero32 0 job_id"

lemmas new_tx_defs = new_job_submit_def new_job_settle_def new_artifact_commit_def
  new_operator_register_def new_reputation_update_def new_escrow_deposit_def
  new_escrow_release_def new_escrow_refund_def tx_of_payload_def

lemma tx_verify_ok_iff:
  "tx_verify tx = Inr () \<longleftrightarrow> tx_payload tx \<noteq> [] \<or> tx_type tx = Transfer"
  by (auto simp: tx_verify_def is_legacy_type_def)

lemma authorization_iff:
  "verify_authorization c pubkey tx = Inr () \<longleftrightarrow>
     length (tx_signature tx) = 64 \<and>
     ed25519_ok c pubkey (blake3 c (tx_sender tx @ to_le_bytes 8 (tx_nonce tx) @ tx_payload tx)) (tx_signature tx)"
  by (auto simp: verify_authorization_def Let_def)

section \<open>Properties\<close>

text \<open>The signed message covers neither the transaction type nor the fee: a signature valid for
  one transaction authorizes the same payload under any other type and any fee.\<close>

theorem authorization_ignores_type:
  assumes "verify_authorization c pubkey tx = Inr ()"
  shows "verify_authorization c pubkey (tx\<lparr>tx_type := t, tx_fee := f\<rparr>) = Inr ()"
  using assms by (simp add: verify_authorization_def Let_def split: if_splits)

theorem authorization_ignores_type_witness:
  "let c = \<lparr>blake3 = (\<lambda>m. take 32 (m @ zero32)), ed25519_ok = (\<lambda>k m s. s = m @ k)\<rparr>;
       tx = (new_escrow_deposit c (replicate 32 1) 7)\<lparr>tx_signature := zero32 @ replicate 32 5\<rparr>
   in verify_authorization c (replicate 32 5) (tx\<lparr>tx_type := EscrowRefund, tx_fee := 0\<rparr>) = Inr ()"
proof -
  let ?c = "\<lparr>blake3 = (\<lambda>m. take 32 (m @ zero32)), ed25519_ok = (\<lambda>k m s. s = m @ k)\<rparr> :: crypto"
  let ?tx = "(new_escrow_deposit ?c (replicate 32 1) 7)\<lparr>tx_signature := zero32 @ replicate 32 5\<rparr>"
  have "verify_authorization ?c (replicate 32 5) ?tx = Inr ()"
    by (simp add: verify_authorization_def Let_def new_tx_defs)
  from authorization_ignores_type [OF this] show ?thesis unfolding Let_def .
qed

end
