(* ===== verification/Ledger.thy ===== *)
theory Ledger
  imports Transactions
begin

text \<open>
  The ledger state of the truth plane, \<open>crates/truth/src/state.rs\<close> and \<open>block.rs\<close>: the state that
  holds the settlement layer, the transaction dispatcher with one handler per transaction type, the
  application of a block's transactions, and the root hash. Handlers parse their payload out of byte
  slices; a handler returns its result and the state it leaves behind.
\<close>

record ledger_receipt =
  lr_id :: bytes32
  lr_job_id :: bytes32
  lr_operator_id :: bytes32
  lr_output_hash :: bytes32
  lr_compute_used :: u64
  lr_fee :: u64
  lr_settled :: bool

definition ledger_receipt_new ::
    "(bytes \<Rightarrow> bytes32) \<Rightarrow> bytes32 \<Rightarrow> bytes32 \<Rightarrow> bytes32 \<Rightarrow> u64 \<Rightarrow> u64 \<Rightarrow> ledger_receipt" where
  "ledger_receipt_new hash job_id operator_id output_hash compute_used fee =
     \<lparr>lr_id = hash (job_id @ operator_id), lr_job_id = job_id, lr_operator_id = operator_id,
      lr_output_hash = output_hash, lr_compute_used = compute_used, lr_fee = fee, lr_settled = False\<rparr>"

definition ledger_receipt_settle :: "ledger_receipt \<Rightarrow> ledger_receipt" where
  "ledger_receipt_settle r = r\<lparr>lr_settled := True\<rparr>"

record ledger =
  lg_version :: u64
  lg_height :: u64
  lg_state_root :: bytes32
  lg_validator_set_root :: bytes32
  lg_settlement :: settlement_state
  lg_intelligence_receipts :: "(bytes32 \<times> ledger_receipt) list"

definition STATE_VERSION :: u64 where
  "STATE_VERSION = 2"

definition ledger_new :: ledger where
  "ledger_new =
     \<lparr>lg_version = STATE_VERSION, lg_height = 0, lg_state_root = zero32, lg_validator_set_root = zero32,
      lg_settlement = settlement_new, lg_intelligence_receipts = []\<rparr>"

section \<open>Transaction handlers\<close>

definition apply_job_submit :: "transaction \<Rightarrow> (state_error, unit, ledger) op" where
  "apply_job_submit tx s =
     (if length (tx_payload tx) < 80 then (Inl InvalidTransaction, s)
      else
        let job_id = sub_slice (tx_payload tx) 0 32;
            budget = from_le_bytes (sub_slice (tx_payload tx) 64 72)
        in (Inr (), s\<lparr>lg_settlement :=
              create_escrow job_id (tx_sender tx) budget (lg_height s) 500 (lg_settlement s)\<rparr>))"

definition apply_job_settle :: "crypto \<Rightarrow> transaction \<Rightarrow> (state_error, unit, ledger) op" where
  "apply_job_settle c tx s =
     (if length (tx_payload tx) < 64 then (Inl InvalidTransaction, s)
      else
        let job_id = tx_sender tx; st = lg_settlement s;
            st' = (case get_escrow st job_id of
                     None \<Rightarrow> st
                   | Some e \<Rightarrow> st\<lparr>job_escrows := hm_insert job_id (snd (escrow_release (tx_sender tx) e)) (job_escrows st)\<rparr>);
            output_hash = sub_slice (tx_payload tx) 32 64
        in (Inr (), s\<lparr>lg_settlement :=
              anchor_receipt (receipt_anchor_new (blake3 c) job_id (tx_sender tx) output_hash zero32 0 (lg_height s)) st'\<rparr>))"

definition apply_artifact_commit :: "transaction \<Rightarrow> (state_error, unit, ledger) op" where
  "apply_artifact_commit tx s =
     (if length (tx_payload tx) < 40 then (Inl InvalidTransaction, s) else (Inr (), s))"

definition fresh_operator :: "bytes32 \<Rightarrow> bytes32 \<Rightarrow> u64 \<Rightarrow> u64 \<Rightarrow> operator_state" where
  "fresh_operator operator_id pubkey stake height =
     \<lparr>os_id = operator_id, os_pubkey = pubkey, os_stake = stake, os_reputation = 1000,
      os_status = OpActive, os_region = ''global'', os_capabilities = [], os_slashed_count = 0,
      os_total_jobs_completed = 0, os_total_compute_units = 0, os_last_update_block = height\<rparr>"

definition apply_operator_register :: "transaction \<Rightarrow> (state_error, unit, ledger) op" where
  "apply_operator_register tx s =
     (if length (tx_payload tx) < 72 then (Inl InvalidTransaction, s)
      else
        let operator_id = sub_slice (tx_payload tx) 0 32;
            pubkey = sub_slice (tx_payload tx) 32 64;
            stake = from_le_bytes (sub_slice (tx_payload tx) 64 72);
            oper = fresh_operator operator_id pubkey (max (tx_fee tx) stake) (lg_height s);
            st = lg_settlement s
        in (Inr (), s\<lparr>lg_settlement := st\<lparr>operator_registry_of := register oper (operator_registry_of st)\<rparr>\<rparr>))"

definition apply_operator_update :: "transaction \<Rightarrow> (state_error, unit, ledger) op" where
  "apply_operator_update tx s =
     (if length (tx_payload tx) < 32 then (Inl InvalidTransaction, s)
      else if \<not> is_active (operator_registry_of (lg_settlement s)) (sub_slice (tx_payload tx) 0 32)
      then (Inl OperatorNotActive, s)
      else (Inr (), s))"

text \<open>\<open>delta\<close> is an \<open>i64\<close>: the word is read as two's complement, and \<open>(-delta) as u64\<close> wraps.\<close>

definition apply_reputation_update :: "transaction \<Rightarrow> (state_error, unit, ledger) op" where
  "apply_reputation_update tx s =
     (if length (tx_payload tx) < 40 then (Inl InvalidTransaction, s)
      else
        let target = sub_slice (tx_payload tx) 0 32;
            delta = from_le_bytes (sub_slice (tx_payload tx) 32 40) :: u64;
            st = lg_settlement s;
            reg = operator_registry_of st;
            reg' = (if 0 \<le> sint delta then increase_reputation target delta reg
                    else decrease_reputation target (- delta) reg)
        in (Inr (), s\<lparr>lg_settlement := st\<lparr>operator_registry_of := reg'\<rparr>\<rparr>))"

definition apply_escrow_deposit :: "transaction \<Rightarrow> (state_error, unit, ledger) op" where
  "apply_escrow_deposit tx s =
     (if length (tx_payload tx) < 40 then (Inl InvalidTransaction, s)
      else
        let job_id = sub_slice (tx_payload tx) 0 32;
            amount = from_le_bytes (sub_slice (tx_payload tx) 32 40)
        in (Inr (), s\<lparr>lg_settlement :=
              create_escrow job_id (tx_sender tx) amount (lg_height s) 500 (lg_settlement s)\<rparr>))"

definition apply_escrow_release :: "transaction \<Rightarrow> (state_error, unit, ledger) op" where
  "apply_escrow_release tx s =
     (if length (tx_payload tx) < 64 then (Inl InvalidTransaction, s)
      else
        case release_escrow (sub_slice (tx_payload tx) 0 32) (sub_slice (tx_payload tx) 32 64) (lg_settlement s) of
          (Inl e, st) \<Rightarrow> (Inl e, s\<lparr>lg_settlement := st\<rparr>)
        | (Inr _, st) \<Rightarrow> (Inr (), s\<lparr>lg_settlement := st\<rparr>))"

definition apply_escrow_refund :: "transaction \<Rightarrow> (state_error, unit, ledger) op" where
  "apply_escrow_refund tx s =
     (if length (tx_payload tx) < 32 then (Inl InvalidTransaction, s)
      else
        case refund_escrow (sub_slice (tx_payload tx) 0 32) (lg_settlement s) of
          (Inl e, st) \<Rightarrow> (Inl e, s\<lparr>lg_settlement := st\<rparr>)
        | (Inr _, st) \<Rightarrow> (Inr (), s\<lparr>lg_settlement := st\<rparr>))"

definition apply_intelligence_submit :: "crypto \<Rightarrow> transaction \<Rightarrow> (state_error, unit, ledger) op" where
  "apply_intelligence_submit c tx s =
     (let p = tx_payload tx;
          operator_id = (case get_range p 0 32 of Some x \<Rightarrow> x | None \<Rightarrow> zero32);
          compute_used = (case get_range p 32 40 of Some x \<Rightarrow> from_le_bytes x | None \<Rightarrow> 0);
          output_hash = (case get_range p 40 72 of Some x \<Rightarrow> x | None \<Rightarrow> zero32);
          receipt = ledger_receipt_new (blake3 c) (tx_sender tx) operator_id output_hash compute_used (tx_fee tx)
      in (Inr (), s\<lparr>lg_intelligence_receipts := hm_insert (lr_id receipt) receipt (lg_intelligence_receipts s)\<rparr>))"

definition apply_intelligence_settle :: "transaction \<Rightarrow> (state_error, unit, ledger) op" where
  "apply_intelligence_settle tx s =
     (case get_range (tx_payload tx) 0 32 of
        None \<Rightarrow> (Inl InvalidTransaction, s)
      | Some receipt_id \<Rightarrow>
          (case map_of (lg_intelligence_receipts s) receipt_id of
             None \<Rightarrow> (Inl InvalidTransaction, s)
           | Some r \<Rightarrow>
               if lr_settled r then (Inr (), s)
               else (Inr (), s\<lparr>lg_intelligence_receipts :=
                       hm_insert receipt_id (ledger_receipt_settle r) (lg_intelligence_receipts s)\<rparr>)))"

section \<open>Dispatch\<close>

text \<open>The authorization step: skipped for votes and transfers, for an empty signature, and for a
  sender that is not registered (or registered with the zero key).\<close>

definition authorized :: "crypto \<Rightarrow> transaction \<Rightarrow> ledger \<Rightarrow> bool" where
  "authorized c tx s \<longleftrightarrow>
     tx_type tx \<in> {GovernanceVote, Transfer} \<or> tx_signature tx = [] \<or>
     (let sender_pubkey = (case registry_get (operator_registry_of (lg_settlement s)) (tx_sender tx) of
                             Some oper \<Rightarrow> os_pubkey oper | None \<Rightarrow> zero32)
      in sender_pubkey = zero32 \<or> verify_authorization c sender_pubkey tx = Inr ())"

fun dispatch :: "crypto \<Rightarrow> transaction_type \<Rightarrow> transaction \<Rightarrow> (state_error, unit, ledger) op" where
  "dispatch c JobSubmit tx s = apply_job_submit tx s"
| "dispatch c JobSettle tx s = apply_job_settle c tx s"
| "dispatch c ArtifactCommit tx s = apply_artifact_commit tx s"
| "dispatch c OperatorRegister tx s = apply_operator_register tx s"
| "dispatch c OperatorUpdate tx s = apply_operator_update tx s"
| "dispatch c ReputationUpdate tx s = apply_reputation_update tx s"
| "dispatch c EscrowDeposit tx s = apply_escrow_deposit tx s"
| "dispatch c EscrowRelease tx s = apply_escrow_release tx s"
| "dispatch c EscrowRefund tx s = apply_escrow_refund tx s"
| "dispatch c GovernanceVote tx s = (Inr (), s)"
| "dispatch c Transfer tx s = (Inr (), s)"
| "dispatch c ContractDeploy tx s = (Inr (), s)"
| "dispatch c ContractCall tx s = (Inr (), s)"
| "dispatch c IntelligenceSubmit tx s = apply_intelligence_submit c tx s"
| "dispatch c IntelligenceSettle tx s = apply_intelligence_settle tx s"

definition apply_transaction :: "crypto \<Rightarrow> transaction \<Rightarrow> (state_error, ledger_receipt option, ledger) op" where
  "apply_transaction c tx s =
     (case tx_verify tx of
        Inl _ \<Rightarrow> (Inl InvalidTransaction, s)
      | Inr _ \<Rightarrow>
          if \<not> authorized c tx s then (Inl InvalidTransaction, s)
          else case dispatch c (tx_type tx) tx s of
                 (Inl e, s') \<Rightarrow> (Inl e, s')
               | (Inr _, s') \<Rightarrow> (Inr None, s'))"

fun apply_txs :: "crypto \<Rightarrow> transaction list \<Rightarrow> ledger_receipt option list \<Rightarrow> (state_error, ledger_receipt option list, ledger) op" where
  "apply_txs c [] results s = (Inr results, s)"
| "apply_txs c (tx # txs) results s =
     (case apply_transaction c tx s of
        (Inr receipt, s') \<Rightarrow> apply_txs c txs (results @ [receipt]) s'
      | (Inl e, s') \<Rightarrow> (Inl e, s'))"

definition apply_block_transactions :: "crypto \<Rightarrow> transaction list \<Rightarrow> (state_error, ledger_receipt option list, ledger) op" where
  "apply_block_transactions c txs s = apply_txs c txs [] s"

section \<open>Root hash and height\<close>

definition root_hash :: "crypto \<Rightarrow> ledger \<Rightarrow> bytes32" where
  "root_hash c s =
     blake3 c (to_le_bytes 8 (lg_version s) @ to_le_bytes 8 (lg_height s) @ lg_validator_set_root s
       @ to_le_bytes 8 (of_nat (length (job_escrows (lg_settlement s))) :: u64)
       @ to_le_bytes 8 (of_nat (length (operators (operator_registry_of (lg_settlement s)))) :: u64)
       @ to_le_bytes 8 (of_nat (length (receipt_anchors (lg_settlement s))) :: u64)
       @ concat (sort (map fst (job_escrows (lg_settlement s))))
       @ concat (sort (map fst (operators (operator_registry_of (lg_settlement s))))))"

definition compute_state_root :: "crypto \<Rightarrow> ledger \<Rightarrow> bytes32 \<times> ledger" where
  "compute_state_root c s = (let h = root_hash c s in (h, s\<lparr>lg_state_root := h\<rparr>))"

definition increment_height :: "ledger \<Rightarrow> ledger" where
  "increment_height s = s\<lparr>lg_height := lg_height s + 1\<rparr>"

definition set_validator_set_root :: "bytes32 \<Rightarrow> ledger \<Rightarrow> ledger" where
  "set_validator_set_root root s = s\<lparr>lg_validator_set_root := root\<rparr>"

section \<open>Blocks\<close>

record block_header =
  bh_height :: u64
  bh_timestamp :: u64
  bh_parent_hash :: bytes32
  bh_state_root :: bytes32
  bh_receipts_root :: bytes32
  bh_validator_set_hash :: bytes32

record block =
  b_header :: block_header
  b_transactions :: "transaction list"
  b_signatures :: "(bytes32 \<times> bytes) list"

definition block_new :: "block_header \<Rightarrow> transaction list \<Rightarrow> block" where
  "block_new header txs = \<lparr>b_header = header, b_transactions = txs, b_signatures = []\<rparr>"

section \<open>Well-formed ledgers\<close>

definition settlement_wf :: "settlement_state \<Rightarrow> bool" where
  "settlement_wf st \<longleftrightarrow> hm_wf (job_escrows st) \<and> hm_wf (receipt_anchors st) \<and>
     registry_wf (operator_registry_of st) \<and>
     (\<forall>j e. map_of (job_escrows st) j = Some e \<longrightarrow> je_job_id e = j \<and> je_reserved e \<le> je_amount e) \<and>
     (\<forall>i a. map_of (receipt_anchors st) i = Some a \<longrightarrow> ra_receipt_id a = i)"

definition ledger_wf :: "ledger \<Rightarrow> bool" where
  "ledger_wf s \<longleftrightarrow> settlement_wf (lg_settlement s) \<and> hm_wf (lg_intelligence_receipts s)"

text \<open>What a node does to its ledger: apply a transaction, advance the height, refresh the root,
  install a validator set root.\<close>

inductive ledger_step :: "crypto \<Rightarrow> ledger \<Rightarrow> ledger \<Rightarrow> bool" for c where
  step_tx: "apply_transaction c tx s = (res, s') \<Longrightarrow> ledger_step c s s'"
| step_height: "ledger_step c s (increment_height s)"
| step_root: "ledger_step c s (snd (compute_state_root c s))"
| step_validators: "ledger_step c s (set_validator_set_root root s)"

lemmas handler_defs = apply_job_submit_def apply_job_settle_def apply_artifact_commit_def
  apply_operator_register_def apply_operator_update_def apply_reputation_update_def
  apply_escrow_deposit_def apply_escrow_release_def apply_escrow_refund_def
  apply_intelligence_submit_def apply_intelligence_settle_def

lemma release_escrow_error: "release_escrow j to st = (Inl e, st') \<Longrightarrow> st' = st"
  by (auto simp: release_escrow_def split: option.splits if_splits prod.splits)

lemma refund_escrow_error: "refund_escrow j st = (Inl e, st') \<Longrightarrow> st' = st"
  by (auto simp: refund_escrow_def split: option.splits if_splits prod.splits)

lemma dispatch_error: "dispatch c t tx s = (Inl e, s') \<Longrightarrow> s' = s"
  by (cases t) (auto simp: handler_defs Let_def dest: release_escrow_error refund_escrow_error
      split: if_splits option.splits prod.splits sum.splits)

subsection \<open>The invariant is kept by every handler\<close>

lemma settlement_wf_create: "settlement_wf st \<Longrightarrow> settlement_wf (create_escrow j cl a b d st)"
  using escrow_reserved_le [of 10 j cl a b d]
  by (auto simp: settlement_wf_def create_escrow_def hm.wf_insert) (auto simp: job_escrow_new_def)

lemma settlement_wf_set_escrow:
  assumes "settlement_wf st" and "map_of (job_escrows st) j = Some e"
    and "je_job_id e' = je_job_id e" "je_reserved e' = je_reserved e" "je_amount e' = je_amount e"
  shows "settlement_wf (st\<lparr>job_escrows := hm_insert j e' (job_escrows st)\<rparr>)"
  using assms by (auto simp: settlement_wf_def hm.wf_insert)

lemma escrow_release_fields:
  "je_job_id (snd (escrow_release to e)) = je_job_id e" "je_reserved (snd (escrow_release to e)) = je_reserved e"
  "je_amount (snd (escrow_release to e)) = je_amount e"
  by (auto simp: escrow_release_def)

lemma settlement_wf_release: "settlement_wf st \<Longrightarrow> release_escrow j to st = (res, st') \<Longrightarrow> settlement_wf st'"
  by (auto simp: release_escrow_def escrow_release_def intro!: settlement_wf_set_escrow
      split: option.splits if_splits)

lemma settlement_wf_refund: "settlement_wf st \<Longrightarrow> refund_escrow j st = (res, st') \<Longrightarrow> settlement_wf st'"
  by (auto simp: refund_escrow_def escrow_refund_def intro!: settlement_wf_set_escrow
      split: option.splits if_splits)

lemma settlement_wf_registry:
  "settlement_wf st \<Longrightarrow> registry_step (operator_registry_of st) r \<Longrightarrow> settlement_wf (st\<lparr>operator_registry_of := r\<rparr>)"
  by (auto simp: settlement_wf_def dest: registry_step_wf)

lemma settlement_wf_anchor: "settlement_wf st \<Longrightarrow> settlement_wf (anchor_receipt a st)"
  by (auto simp: settlement_wf_def anchor_receipt_def hm.wf_insert)

lemma ledger_wf_settlement: "ledger_wf s \<Longrightarrow> settlement_wf st \<Longrightarrow> ledger_wf (s\<lparr>lg_settlement := st\<rparr>)"
  by (simp add: ledger_wf_def)

lemma ledger_wf_job_settle: "ledger_wf s \<Longrightarrow> ledger_wf (snd (apply_job_settle c tx s))"
  by (auto simp: apply_job_settle_def Let_def get_escrow_def escrow_release_fields ledger_wf_def
      intro!: settlement_wf_anchor settlement_wf_set_escrow split: option.splits)

lemma ledger_wf_operator_register: "ledger_wf s \<Longrightarrow> ledger_wf (snd (apply_operator_register tx s))"
  by (auto simp: apply_operator_register_def Let_def ledger_wf_def
      intro!: settlement_wf_registry reg_register) (simp add: fresh_operator_def)

lemma ledger_wf_reputation_update: "ledger_wf s \<Longrightarrow> ledger_wf (snd (apply_reputation_update tx s))"
  by (auto simp: apply_reputation_update_def Let_def ledger_wf_def
      intro!: settlement_wf_registry reg_increase reg_decrease)

lemma ledger_wf_escrow_release: "ledger_wf s \<Longrightarrow> ledger_wf (snd (apply_escrow_release tx s))"
  by (auto simp: apply_escrow_release_def ledger_wf_def dest: settlement_wf_release split: prod.splits sum.splits)

lemma ledger_wf_escrow_refund: "ledger_wf s \<Longrightarrow> ledger_wf (snd (apply_escrow_refund tx s))"
  by (auto simp: apply_escrow_refund_def ledger_wf_def dest: settlement_wf_refund split: prod.splits sum.splits)

lemma ledger_wf_dispatch: "ledger_wf s \<Longrightarrow> ledger_wf (snd (dispatch c t tx s))"
proof (cases t)
  case IntelligenceSettle
  assume "ledger_wf s"
  with IntelligenceSettle show ?thesis
    by (auto simp: apply_intelligence_settle_def ledger_wf_def hm.wf_insert split: option.splits)
qed (auto simp: apply_job_submit_def apply_escrow_deposit_def apply_artifact_commit_def apply_operator_update_def
    apply_intelligence_submit_def Let_def ledger_wf_def settlement_wf_create hm.wf_insert
    ledger_wf_job_settle [unfolded ledger_wf_def] ledger_wf_operator_register [unfolded ledger_wf_def]
    ledger_wf_reputation_update [unfolded ledger_wf_def] ledger_wf_escrow_release [unfolded ledger_wf_def]
    ledger_wf_escrow_refund [unfolded ledger_wf_def])

lemma apply_transaction_state:
  "apply_transaction c tx s = (res, s') \<Longrightarrow> s' = s \<or> s' = snd (dispatch c (tx_type tx) tx s)"
  by (auto simp: apply_transaction_def split: sum.splits if_splits prod.splits)

lemma apply_transaction_wf: "apply_transaction c tx s = (res, s') \<Longrightarrow> ledger_wf s \<Longrightarrow> ledger_wf s'"
  using apply_transaction_state ledger_wf_dispatch by metis

lemma ledger_wf_new: "ledger_wf ledger_new"
  by (simp add: ledger_wf_def settlement_wf_def ledger_new_def settlement_new_def registry_wf_new hm.wf_empty)

lemma ledger_step_wf: "ledger_step c s s' \<Longrightarrow> ledger_wf s \<Longrightarrow> ledger_wf s'"
  by (induction rule: ledger_step.induct)
    (auto dest: apply_transaction_wf simp: increment_height_def compute_state_root_def Let_def
      set_validator_set_root_def ledger_wf_def)

interpretation ledger_run: transition_system "ledger_step c" ledger_wf "\<lambda>s. s = ledger_new" for c
  by unfold_locales (auto intro: ledger_wf_new ledger_step_wf)

lemmas ledger_reachable_wf = ledger_run.reachable_inv [OF _ refl]

section \<open>Blocks of transactions\<close>

lemma apply_transaction_None: "apply_transaction c tx s = (Inr r, s') \<Longrightarrow> r = None"
  by (auto simp: apply_transaction_def split: sum.splits if_splits prod.splits)

lemma apply_txs_results:
  "apply_txs c txs acc s = (Inr rs, s') \<Longrightarrow> rs = acc @ replicate (length txs) None"
proof (induction txs arbitrary: acc s)
  case Nil
  then show ?case by simp
next
  case (Cons tx txs)
  then show ?case
    by (auto split: prod.splits sum.splits dest!: apply_transaction_None Cons.IH)
qed

lemma apply_txs_append:
  "apply_txs c (xs @ ys) acc s =
     (case apply_txs c xs acc s of (Inr rs, s') \<Rightarrow> apply_txs c ys rs s' | (Inl e, s') \<Rightarrow> (Inl e, s'))"
  by (induction xs arbitrary: acc s) (auto split: prod.splits sum.splits)

lemma failed_unchanged: "apply_transaction c tx s = (Inl e, s') \<Longrightarrow> s' = s"
  by (auto simp: apply_transaction_def dest: dispatch_error split: sum.splits if_splits prod.splits)

section \<open>Transactions built by the constructors\<close>

lemma unsigned_authorized [simp]: "tx_signature tx = [] \<Longrightarrow> authorized c tx s"
  by (simp add: authorized_def)

lemma tx_of_payload_simps [simp]:
  "tx_signature (tx_of_payload c t sn f p) = []" "tx_type (tx_of_payload c t sn f p) = t"
  "tx_payload (tx_of_payload c t sn f p) = p" "tx_sender (tx_of_payload c t sn f p) = sn"
  "tx_fee (tx_of_payload c t sn f p) = f"
  by (simp_all add: tx_of_payload_def)

lemma apply_unsigned:
  "tx_payload tx \<noteq> [] \<Longrightarrow> tx_signature tx = [] \<Longrightarrow>
     apply_transaction c tx s =
       (case dispatch c (tx_type tx) tx s of (Inl e, s') \<Rightarrow> (Inl e, s') | (Inr _, s') \<Rightarrow> (Inr None, s'))"
  by (simp add: apply_transaction_def tx_verify_def split: sum.splits)

lemma to_le_bytes_8_ne [simp]: "to_le_bytes 8 w \<noteq> []"
  by (metis length_to_le_bytes list.size(3) zero_neq_numeral)

lemma length_ne_Nil: "length xs = 32 \<Longrightarrow> xs \<noteq> []"
  by auto

lemma deposit_applies:
  assumes "length job_id = 32"
  shows "apply_transaction c (new_escrow_deposit c job_id amount) s =
    (Inr None, s\<lparr>lg_settlement := create_escrow job_id zero32 amount (lg_height s) 500 (lg_settlement s)\<rparr>)"
  using assms
  by (simp add: apply_unsigned new_escrow_deposit_def apply_escrow_deposit_def Let_def slice_whole)

lemma release_applies:
  assumes "length job_id = 32" "length recipient = 32"
  shows "apply_transaction c (new_escrow_release c job_id recipient) s =
    (case release_escrow job_id recipient (lg_settlement s) of
       (Inl e, st) \<Rightarrow> (Inl e, s\<lparr>lg_settlement := st\<rparr>) | (Inr _, st) \<Rightarrow> (Inr None, s\<lparr>lg_settlement := st\<rparr>))"
  using assms
  by (auto simp: apply_unsigned new_escrow_release_def apply_escrow_release_def slice_whole length_ne_Nil
      split: prod.splits sum.splits)

lemma refund_applies:
  assumes "length job_id = 32"
  shows "apply_transaction c (new_escrow_refund c job_id) s =
    (case refund_escrow job_id (lg_settlement s) of
       (Inl e, st) \<Rightarrow> (Inl e, s\<lparr>lg_settlement := st\<rparr>) | (Inr _, st) \<Rightarrow> (Inr None, s\<lparr>lg_settlement := st\<rparr>))"
  using assms
  by (auto simp: apply_unsigned new_escrow_refund_def apply_escrow_refund_def slice_whole length_ne_Nil
      split: prod.splits sum.splits)

lemma register_applies:
  assumes "length operator_id = 32" "length pubkey = 32"
  shows "apply_transaction c (new_operator_register c operator_id pubkey stake region) s =
    (Inr None, s\<lparr>lg_settlement := (lg_settlement s)\<lparr>operator_registry_of :=
       register (fresh_operator operator_id pubkey stake (lg_height s)) (operator_registry_of (lg_settlement s))\<rparr>\<rparr>)"
  using assms
  by (simp add: apply_unsigned new_operator_register_def apply_operator_register_def Let_def slice_whole length_ne_Nil)

text \<open>A concrete hash and signature scheme, for the examples.\<close>

definition toy_crypto :: crypto where
  "toy_crypto = \<lparr>blake3 = (\<lambda>m. take 32 (m @ zero32)), ed25519_ok = (\<lambda>k m s. s = m @ k)\<rparr>"

section \<open>Properties\<close>

text \<open>C4. Every ledger a node reaches from the empty one by transactions, height increments, root
  updates and validator set changes is well formed: maps have distinct keys, every escrow is filed
  under its job with a reserve within its amount, every anchor under its receipt id, and the
  operator registry is indexed by stake.\<close>

theorem ledger_invariant:
  assumes "(ledger_step c)\<^sup>*\<^sup>* ledger_new s"
  shows "settlement_wf (lg_settlement s) \<and> hm_wf (lg_intelligence_receipts s)"
  using ledger_reachable_wf [OF assms] by (simp add: ledger_wf_def)

theorem ledger_invariant_witness:
  "settlement_wf (lg_settlement (increment_height
     (snd (apply_transaction toy_crypto (new_escrow_deposit toy_crypto (replicate 32 1) 900) ledger_new))))"
proof -
  let ?s = "snd (apply_transaction toy_crypto (new_escrow_deposit toy_crypto (replicate 32 1) 900) ledger_new)"
  have "ledger_step toy_crypto ledger_new ?s" by (rule step_tx) (rule prod.collapse [symmetric])
  moreover have "ledger_step toy_crypto ?s (increment_height ?s)" by (rule step_height)
  ultimately have "(ledger_step toy_crypto)\<^sup>*\<^sup>* ledger_new (increment_height ?s)"
    by (meson rtranclp.rtrancl_into_rtrancl rtranclp.rtrancl_refl)
  from ledger_invariant [OF this] show ?thesis ..
qed

text \<open>C27. A transaction that fails, at the format check, at authorization or in its handler, leaves
  the ledger exactly as it was.\<close>

theorem failed_transaction_changes_nothing:
  assumes "apply_transaction c tx s = (Inl err, s')"
  shows "s' = s"
  by (rule failed_unchanged [OF assms])

theorem failed_transaction_changes_nothing_witness:
  "snd (apply_transaction toy_crypto (new_escrow_refund toy_crypto (replicate 32 1)) ledger_new) = ledger_new"
proof -
  have "apply_transaction toy_crypto (new_escrow_refund toy_crypto (replicate 32 1)) ledger_new =
      (Inl EscrowNotFound, snd (apply_transaction toy_crypto (new_escrow_refund toy_crypto (replicate 32 1)) ledger_new))"
    by (simp add: refund_applies refund_escrow_def ledger_new_def settlement_new_def)
  from failed_transaction_changes_nothing [OF this] show ?thesis .
qed

text \<open>A block stops at its first failing transaction and keeps the effects of the ones before it:
  the block is not applied atomically. Where all succeed the reported receipts are all \<open>None\<close>.\<close>

theorem block_stops_at_first_error:
  assumes "apply_block_transactions c before s = (Inr rs, s1)"
    and "apply_transaction c tx s1 = (Inl err, s2)"
  shows "apply_block_transactions c (before @ tx # after) s = (Inl err, s1) \<and>
    rs = replicate (length before) None"
proof -
  have "s2 = s1" by (rule failed_unchanged [OF assms(2)])
  with assms apply_txs_results [of c before "[]" s rs s1] show ?thesis
    by (simp add: apply_block_transactions_def apply_txs_append)
qed

theorem block_stops_at_first_error_witness:
  "fst (apply_block_transactions toy_crypto
      [new_escrow_deposit toy_crypto (replicate 32 1) 900, new_escrow_refund toy_crypto (replicate 32 2)] ledger_new)
    = Inl EscrowNotFound \<and>
   get_escrow (lg_settlement (snd (apply_block_transactions toy_crypto
      [new_escrow_deposit toy_crypto (replicate 32 1) 900, new_escrow_refund toy_crypto (replicate 32 2)] ledger_new)))
      (replicate 32 1) \<noteq> None"
proof -
  let ?d = "new_escrow_deposit toy_crypto (replicate 32 1) 900"
  let ?st = "create_escrow (replicate 32 1) zero32 900 0 500 settlement_new"
  let ?s = "ledger_new\<lparr>lg_settlement := ?st\<rparr>"
  have ne: "replicate 32 (2 :: u8) \<noteq> replicate 32 1" by (simp add: replicate_eq_replicate)
  have a: "apply_block_transactions toy_crypto [?d] ledger_new = (Inr [None], ?s)"
    by (simp add: apply_block_transactions_def deposit_applies ledger_new_def)
  have b: "apply_transaction toy_crypto (new_escrow_refund toy_crypto (replicate 32 2)) ?s = (Inl EscrowNotFound, ?s)"
    using ne by (simp add: refund_applies refund_escrow_def create_escrow_def settlement_new_def)
  from block_stops_at_first_error [OF a b, of "[]"] show ?thesis
    by (simp add: get_escrow_def create_escrow_def)
qed

text \<open>A job-submission transaction built by its constructor is applied and escrows exactly the
  submitted budget for the submitted job: the handler reads back what the constructor wrote, and no
  other escrow changes.\<close>

theorem job_submit_roundtrip:
  assumes "length job_id = 32" and "length kernel_id = 32"
  shows "\<exists>s'. apply_transaction c (new_job_submit c job_id kernel_id budget deadline) s = (Inr None, s') \<and>
    get_escrow (lg_settlement s') job_id = Some (job_escrow_new job_id zero32 budget 10 (lg_height s) 500) \<and>
    (\<forall>j. j \<noteq> job_id \<longrightarrow> get_escrow (lg_settlement s') j = get_escrow (lg_settlement s) j)"
  using assms
  by (simp add: apply_unsigned new_job_submit_def apply_job_submit_def Let_def slice_whole
      create_escrow_def get_escrow_def)

theorem job_submit_roundtrip_witness:
  "\<exists>s'. apply_transaction toy_crypto (new_job_submit toy_crypto (replicate 32 1) (replicate 32 2) 1234 99) ledger_new = (Inr None, s') \<and>
    get_escrow (lg_settlement s') (replicate 32 1) = Some (job_escrow_new (replicate 32 1) zero32 1234 10 0 500) \<and>
    (\<forall>j. j \<noteq> replicate 32 1 \<longrightarrow> get_escrow (lg_settlement s') j = None)"
  using job_submit_roundtrip [of "replicate 32 1" "replicate 32 2" toy_crypto 1234 99 ledger_new]
  by (simp add: ledger_new_def settlement_new_def get_escrow_def)

text \<open>An operator-registration transaction built by its constructor registers the operator with
  the given key and stake, active, at reputation 1000, and filed in its stake bucket.\<close>

theorem operator_register_roundtrip:
  assumes "length operator_id = 32" and "length pubkey = 32"
  shows "\<exists>s' oper. apply_transaction c (new_operator_register c operator_id pubkey stake region) s = (Inr None, s') \<and>
    registry_get (operator_registry_of (lg_settlement s')) operator_id = Some oper \<and>
    os_id oper = operator_id \<and> os_pubkey oper = pubkey \<and> os_stake oper = stake \<and>
    os_reputation oper = 1000 \<and> is_active (operator_registry_of (lg_settlement s')) operator_id \<and>
    operator_id \<in> set (hm_lookup_list (stake_index (operator_registry_of (lg_settlement s'))) (stake div 1000))"
  using assms
  by (simp add: register_applies register_def fresh_operator_def registry_get_def is_active_def lookup_list_push)

theorem operator_register_roundtrip_witness:
  "\<exists>s' oper. apply_transaction toy_crypto (new_operator_register toy_crypto (replicate 32 3) (replicate 32 4) 5000 []) ledger_new = (Inr None, s') \<and>
    registry_get (operator_registry_of (lg_settlement s')) (replicate 32 3) = Some oper \<and> os_stake oper = 5000"
  using operator_register_roundtrip [of "replicate 32 3" "replicate 32 4" toy_crypto 5000 "[]" ledger_new]
  by auto

text \<open>A deposit is applied whatever escrow the job already has: the earlier amount and client are
  overwritten and a released or refunded escrow becomes active again.\<close>

theorem deposit_overwrites_escrow:
  assumes "length job_id = 32" and "get_escrow (lg_settlement s) job_id = Some old"
  shows "\<exists>s'. apply_transaction c (new_escrow_deposit c job_id amount) s = (Inr None, s') \<and>
    get_escrow (lg_settlement s') job_id = Some (job_escrow_new job_id zero32 amount 10 (lg_height s) 500)"
  using assms(1) by (simp add: deposit_applies create_escrow_def get_escrow_def)

theorem deposit_overwrites_escrow_witness:
  "let s = ledger_new\<lparr>lg_settlement := create_escrow (replicate 32 1) (replicate 32 8) 70000 0 500 settlement_new\<rparr>
   in \<exists>s'. apply_transaction toy_crypto (new_escrow_deposit toy_crypto (replicate 32 1) 1) s = (Inr None, s') \<and>
      get_escrow (lg_settlement s') (replicate 32 1) = Some (job_escrow_new (replicate 32 1) zero32 1 10 0 500)"
  using deposit_overwrites_escrow [of "replicate 32 1"
      "ledger_new\<lparr>lg_settlement := create_escrow (replicate 32 1) (replicate 32 8) 70000 0 500 settlement_new\<rparr>"
      "job_escrow_new (replicate 32 1) (replicate 32 8) 70000 10 0 500" toy_crypto 1]
  by (simp add: Let_def create_escrow_def get_escrow_def ledger_new_def)

text \<open>C38. Which signatures are checked. A transaction that takes effect, of any type but a vote or a transfer, has a valid
  signature under the key its sender is registered with, if that key is not zero and the signature is not empty. In
  every other case, of an empty signature, of a sender that is not registered and of one registered with the zero key,
  it takes effect whatever the signature check says.\<close>

theorem signature_gate:
  assumes "apply_transaction c tx s = (Inr r, s')"
    and "tx_type tx \<notin> {GovernanceVote, Transfer}"
  defines "key \<equiv> (case registry_get (operator_registry_of (lg_settlement s)) (tx_sender tx) of Some oper \<Rightarrow> os_pubkey oper | None \<Rightarrow> zero32)"
  shows "if key \<noteq> zero32 \<and> tx_signature tx \<noteq> [] then verify_authorization c key tx = Inr ()
    else \<forall>f. apply_transaction (c\<lparr>ed25519_ok := f\<rparr>) tx s = (Inr r, s')"
proof (cases "key \<noteq> zero32 \<and> tx_signature tx \<noteq> []")
  case True
  with assms show ?thesis
    by (auto simp: apply_transaction_def authorized_def Let_def split: sum.splits if_splits option.splits)
next
  case False
  have "dispatch (c\<lparr>ed25519_ok := f\<rparr>) t tx s = dispatch c t tx s" for f t
    by (cases t) (simp_all add: apply_job_settle_def apply_intelligence_submit_def)
  moreover have "authorized (c\<lparr>ed25519_ok := f\<rparr>) tx s" for f
    using False by (auto simp: authorized_def key_def)
  ultimately show ?thesis using False assms(1)
    by (auto simp: apply_transaction_def split: sum.splits if_splits prod.splits)
qed

text \<open>In the example an operator registered with the zero key is taken over with a signature that is not one.\<close>

theorem signature_gate_witness:
  "let reg = (\<lambda>key stake. new_operator_register toy_crypto (replicate 32 3) key stake []);
       s = snd (apply_transaction toy_crypto (reg zero32 5000) ledger_new);
       tx = (reg (replicate 32 7) 9)\<lparr>tx_signature := [1]\<rparr>
   in \<exists>s'. \<forall>f. apply_transaction (toy_crypto\<lparr>ed25519_ok := f\<rparr>) tx s = (Inr None, s')"
proof -
  let ?reg = "\<lambda>key stake. new_operator_register toy_crypto (replicate 32 3) key stake []"
  let ?s = "snd (apply_transaction toy_crypto (?reg zero32 5000) ledger_new)"
  let ?tx = "(?reg (replicate 32 7) 9)\<lparr>tx_signature := [1]\<rparr>"
  have g: "registry_get (operator_registry_of (lg_settlement ?s)) (tx_sender (?reg (replicate 32 7) 9)) =
      Some (fresh_operator (replicate 32 3) zero32 5000 0)"
    by (simp add: register_applies ledger_new_def register_def registry_get_def fresh_operator_def)
      (simp add: new_operator_register_def)
  have k: "os_pubkey (fresh_operator (replicate 32 3) zero32 5000 0) = zero32" by (simp add: fresh_operator_def)
  have t: "tx_type ?tx = OperatorRegister" "length (tx_payload ?tx) = 72" "tx_verify ?tx = Inr ()"
    by (simp_all add: new_operator_register_def tx_verify_def)
  have "authorized toy_crypto ?tx ?s" by (simp add: authorized_def g k)
  then obtain s' where a: "apply_transaction toy_crypto ?tx ?s = (Inr None, s')"
    using t by (simp add: apply_transaction_def apply_operator_register_def Let_def)
  from signature_gate [OF a] t(1) show ?thesis unfolding Let_def by (auto simp: g k)
qed

text \<open>The root hash depends on the version, the height, the validator set root, the number of
  receipts and the sets of escrow and operator keys only: not on the iteration order of the maps,
  and not on any amount, stake, status or receipt content.\<close>

theorem root_hash_of_keys:
  assumes "ledger_wf s" and "ledger_wf s'"
    and "lg_version s = lg_version s'" "lg_height s = lg_height s'" "lg_validator_set_root s = lg_validator_set_root s'"
    and "length (receipt_anchors (lg_settlement s)) = length (receipt_anchors (lg_settlement s'))"
    and "dom (get_escrow (lg_settlement s)) = dom (get_escrow (lg_settlement s'))"
    and "dom (registry_get (operator_registry_of (lg_settlement s))) = dom (registry_get (operator_registry_of (lg_settlement s')))"
  shows "root_hash c s = root_hash c s'"
proof -
  have keys: "mset (map fst m) = mset (map fst m')" if "hm_wf m" "hm_wf m'" "dom (map_of m) = dom (map_of m')"
    for m m' :: "(bytes32 \<times> 'v) list"
    using that set_eq_iff_mset_eq_distinct [of "map fst m" "map fst m'"]
    by (simp add: hm_wf_def dom_map_of_conv_image_fst)
  have e: "mset (map fst (job_escrows (lg_settlement s))) = mset (map fst (job_escrows (lg_settlement s')))"
    by (rule keys) (use assms in \<open>auto simp: ledger_wf_def settlement_wf_def get_escrow_def [abs_def]\<close>)
  have r: "mset (map fst (operators (operator_registry_of (lg_settlement s)))) =
      mset (map fst (operators (operator_registry_of (lg_settlement s'))))"
    by (rule keys) (use assms in \<open>auto simp: ledger_wf_def settlement_wf_def registry_wf_def registry_get_def [abs_def]\<close>)
  have "sort xs = sort ys \<and> length xs = length ys" if "mset xs = mset ys" for xs ys :: "bytes32 list"
    using that by (metis mset_eq_length mset_sort properties_for_sort sorted_sort)
  from this [OF e] this [OF r] assms show ?thesis by (simp add: root_hash_def)
qed

theorem root_hash_of_keys_witness:
  "root_hash toy_crypto (ledger_new\<lparr>lg_settlement := create_escrow [1] [2] 70000 0 500 settlement_new\<rparr>) =
   root_hash toy_crypto (ledger_new\<lparr>lg_settlement := create_escrow [1] [9] 1 0 500 settlement_new\<rparr>)"
proof -
  have w: "settlement_wf (create_escrow [1] cl a 0 500 settlement_new)" for cl a
    using ledger_wf_new by (intro settlement_wf_create) (simp add: ledger_wf_def ledger_new_def)
  show ?thesis
    by (rule root_hash_of_keys; use w in \<open>simp add: ledger_wf_def ledger_new_def hm.wf_empty\<close>)
      (simp_all add: create_escrow_def get_escrow_def [abs_def] settlement_new_def)
qed

end
