(* ===== verification/Consensus.thy ===== *)
theory Consensus
  imports Validators Ledger
begin

text \<open>
  The BFT consensus engine, \<open>crates/truth/src/consensus.rs\<close>: votes, quorum certificates, the view state
  machine and block finalization. The engine's mutable part sits behind an \<open>RwLock\<close>; each method is a
  transition of the record \<open>consensus\<close>. \<open>receive_prevote\<close> and \<open>receive_precommit\<close> take the lock three
  times (two reads for the checks, one write): \<open>prevote_interleaved\<close> and \<open>precommit_interleaved\<close> are these calls with
  other calls between the locks. Wall-clock seconds are an argument.
\<close>

datatype consensus_phase = Idle | Propose | PreVotePhase | PreCommitPhase | Finalized

datatype vote_type = PreVote | PreCommit

record vote =
  vt_validator_id :: bytes32
  vt_height :: u64
  vt_round :: u32
  vt_type :: vote_type
  vt_block_hash :: bytes32
  vt_signature :: bytes

definition vote_new :: "bytes32 \<Rightarrow> u64 \<Rightarrow> u32 \<Rightarrow> vote_type \<Rightarrow> bytes32 \<Rightarrow> bytes \<Rightarrow> vote" where
  "vote_new i height round t block_hash signature =
     \<lparr>vt_validator_id = i, vt_height = height, vt_round = round, vt_type = t, vt_block_hash = block_hash,
      vt_signature = signature\<rparr>"

record quorum_certificate =
  qc_block_hash :: bytes32
  qc_height :: u64
  qc_round :: u32
  qc_vote_type :: vote_type
  qc_signatures :: "(bytes32 \<times> bytes) list"
  qc_validator_set_hash :: bytes32

definition qc_new :: "bytes32 \<Rightarrow> u64 \<Rightarrow> u32 \<Rightarrow> vote_type \<Rightarrow> bytes32 \<Rightarrow> quorum_certificate" where
  "qc_new block_hash height round t vsh =
     \<lparr>qc_block_hash = block_hash, qc_height = height, qc_round = round, qc_vote_type = t,
      qc_signatures = [], qc_validator_set_hash = vsh\<rparr>"

definition add_signature :: "bytes32 \<Rightarrow> bytes \<Rightarrow> quorum_certificate \<Rightarrow> quorum_certificate" where
  "add_signature i sig qc = qc\<lparr>qc_signatures := qc_signatures qc @ [(i, sig)]\<rparr>"

definition qc_weight :: "quorum_certificate \<Rightarrow> u64" where
  "qc_weight qc = of_nat (length (qc_signatures qc))"

definition is_quorum :: "nat \<Rightarrow> nat \<Rightarrow> quorum_certificate \<Rightarrow> bool" where
  "is_quorum total_validators threshold qc \<longleftrightarrow>
     (let quorum_threshold = total_validators * 2 div 3 + 1;
          required = (if threshold = 0 then quorum_threshold else threshold)
      in required \<le> length (qc_signatures qc))"

record consensus =
  cs_height :: u64
  cs_round :: u32
  cs_state :: consensus_phase
  cs_proposer :: bytes32
  cs_locked_block :: "bytes32 option"
  cs_locked_qc :: "quorum_certificate option"
  cs_prevote_qc :: "quorum_certificate option"
  cs_precommit_qc :: "quorum_certificate option"
  cs_votes :: "(bytes32 \<times> vote) list"
  cs_last_commit_timestamp :: u64

definition consensus_default :: consensus where
  "consensus_default =
     \<lparr>cs_height = 0, cs_round = 0, cs_state = Idle, cs_proposer = zero32, cs_locked_block = None,
      cs_locked_qc = None, cs_prevote_qc = None, cs_precommit_qc = None, cs_votes = [],
      cs_last_commit_timestamp = 0\<rparr>"

record engine =
  en_validators :: "validator list"
  en_threshold :: nat
  en_view_timeout_ms :: u64

definition engine_new :: "validator list \<Rightarrow> u64 \<Rightarrow> engine" where
  "engine_new vs timeout =
     (let active = [v \<leftarrow> vs. active_or_inactive v]
      in \<lparr>en_validators = vs, en_threshold = length active * 2 div 3 + 1, en_view_timeout_ms = timeout\<rparr>)"

definition get_validator_set_hash :: "(bytes \<Rightarrow> bytes32) \<Rightarrow> engine \<Rightarrow> bytes32" where
  "get_validator_set_hash hash en = hash (concat (sort (map v_id (en_validators en))))"

definition get_proposer :: "engine \<Rightarrow> u64 \<Rightarrow> u32 \<Rightarrow> bytes32" where
  "get_proposer en height round =
     (let active = [v \<leftarrow> en_validators en. active_or_inactive v]
      in if active = [] then zero32
         else v_id (active ! (unat (height + ucast round) mod length active)))"

definition is_leader :: "engine \<Rightarrow> bytes32 \<Rightarrow> u64 \<Rightarrow> u32 \<Rightarrow> bool" where
  "is_leader en i height round \<longleftrightarrow> get_proposer en height round = i"

definition start_new_view :: "engine \<Rightarrow> u64 \<Rightarrow> u32 \<Rightarrow> consensus \<Rightarrow> consensus" where
  "start_new_view en height round s =
     s\<lparr>cs_height := height, cs_round := round, cs_state := Propose, cs_votes := [],
       cs_proposer := get_proposer en height round\<rparr>"

definition propose :: "engine \<Rightarrow> block \<Rightarrow> quorum_certificate option \<Rightarrow> (string, block, consensus) op" where
  "propose en blk qc s =
     (if cs_state s \<noteq> Propose then (Inl ''Invalid state for proposal'', s)
      else
        let s1 = s\<lparr>cs_proposer := get_proposer en (cs_height s) (cs_round s)\<rparr>;
            s2 = (case qc of None \<Rightarrow> s1
                  | Some parent_qc \<Rightarrow> s1\<lparr>cs_locked_block := Some (qc_block_hash parent_qc), cs_locked_qc := Some parent_qc\<rparr>)
        in (Inr blk, s2\<lparr>cs_state := PreVotePhase\<rparr>))"

definition make_vote :: "bytes32 \<Rightarrow> bytes32 \<Rightarrow> vote_type \<Rightarrow> bytes \<Rightarrow> consensus \<Rightarrow> vote" where
  "make_vote i block_hash t signature s = vote_new i (cs_height s) (cs_round s) t block_hash signature"

definition vote_count :: "vote_type \<Rightarrow> (bytes32 \<times> vote) list \<Rightarrow> nat" where
  "vote_count t votes = length [v \<leftarrow> map snd votes. vt_type v = t]"

text \<open>The certificate: the signatures of the stored votes of the type for the block.\<close>

definition certificate :: "(bytes \<Rightarrow> bytes32) \<Rightarrow> engine \<Rightarrow> vote_type \<Rightarrow> bytes32 \<Rightarrow> consensus \<Rightarrow> quorum_certificate" where
  "certificate hash en t block_hash s =
     fold (\<lambda>(vid, v) qc. if vt_type v = t \<and> vt_block_hash v = block_hash then add_signature vid (vt_signature v) qc else qc)
       (cs_votes s) (qc_new block_hash (cs_height s) (cs_round s) t (get_validator_set_hash hash en))"

text \<open>The checks, made on the states seen by the two read locks.\<close>

definition vote_checks :: "vote_type \<Rightarrow> vote \<Rightarrow> consensus \<Rightarrow> consensus \<Rightarrow> string option" where
  "vote_checks t vote sh sr =
     (if vt_height vote \<noteq> cs_height sh then Some ''Vote height mismatch''
      else if vt_round vote \<noteq> cs_round sr then Some ''Vote round mismatch''
      else if vt_type vote \<noteq> t
        then Some (case t of PreVote \<Rightarrow> ''Invalid vote type for PreVote phase'' | PreCommit \<Rightarrow> ''Invalid vote type for PreCommit phase'')
      else None)"

text \<open>The part of \<open>receive_prevote\<close> under the write lock.\<close>

definition prevote_write :: "(bytes \<Rightarrow> bytes32) \<Rightarrow> engine \<Rightarrow> vote \<Rightarrow> consensus \<Rightarrow> quorum_certificate option \<times> consensus" where
  "prevote_write hash en vote s =
     (let s1 = s\<lparr>cs_votes := hm_insert (vt_validator_id vote) vote (cs_votes s)\<rparr>; h = vt_block_hash vote
      in if en_threshold en \<le> vote_count PreVote (cs_votes s1)
         then
           let qc = certificate hash en PreVote h s1;
               s2 = s1\<lparr>cs_state := PreCommitPhase, cs_prevote_qc := Some qc\<rparr>;
               s3 = (if cs_locked_block s2 = None \<or> cs_locked_block s2 \<noteq> Some h
                     then s2\<lparr>cs_locked_block := Some h, cs_locked_qc := cs_prevote_qc s2\<rparr> else s2)
           in (Some qc, s3)
         else (None, s1))"

definition precommit_write ::
    "(bytes \<Rightarrow> bytes32) \<Rightarrow> engine \<Rightarrow> u64 \<Rightarrow> vote \<Rightarrow> consensus \<Rightarrow> quorum_certificate option \<times> consensus" where
  "precommit_write hash en now vote s =
     (let s1 = s\<lparr>cs_votes := hm_insert (vt_validator_id vote) vote (cs_votes s)\<rparr>; h = vt_block_hash vote
      in if en_threshold en \<le> vote_count PreCommit (cs_votes s1)
         then let qc = certificate hash en PreCommit h s1
              in (Some qc, s1\<lparr>cs_state := Finalized, cs_precommit_qc := Some qc, cs_last_commit_timestamp := now\<rparr>)
         else (None, s1))"

definition receive_prevote ::
    "(bytes \<Rightarrow> bytes32) \<Rightarrow> engine \<Rightarrow> vote \<Rightarrow> (string, quorum_certificate option, consensus) op" where
  "receive_prevote hash en vote s =
     (case vote_checks PreVote vote s s of
        Some e \<Rightarrow> (Inl e, s)
      | None \<Rightarrow> (let (r, s') = prevote_write hash en vote s in (Inr r, s')))"

definition receive_precommit ::
    "(bytes \<Rightarrow> bytes32) \<Rightarrow> engine \<Rightarrow> u64 \<Rightarrow> vote \<Rightarrow> (string, quorum_certificate option, consensus) op" where
  "receive_precommit hash en now vote s =
     (case vote_checks PreCommit vote s s of
        Some e \<Rightarrow> (Inl e, s)
      | None \<Rightarrow> (let (r, s') = precommit_write hash en now vote s in (Inr r, s')))"

text \<open>The same calls when other tasks change the state between their locks: they see \<open>sh\<close> and \<open>sr\<close> under
  the read locks and \<open>sw\<close> under the write lock.\<close>

definition prevote_interleaved ::
    "(bytes \<Rightarrow> bytes32) \<Rightarrow> engine \<Rightarrow> vote \<Rightarrow> consensus \<Rightarrow> consensus \<Rightarrow> (string, quorum_certificate option, consensus) op" where
  "prevote_interleaved hash en vote sh sr sw =
     (case vote_checks PreVote vote sh sr of
        Some e \<Rightarrow> (Inl e, sw)
      | None \<Rightarrow> (let (r, s') = prevote_write hash en vote sw in (Inr r, s')))"

definition precommit_interleaved ::
    "(bytes \<Rightarrow> bytes32) \<Rightarrow> engine \<Rightarrow> u64 \<Rightarrow> vote \<Rightarrow> consensus \<Rightarrow> consensus \<Rightarrow>
      (string, quorum_certificate option, consensus) op" where
  "precommit_interleaved hash en now vote sh sr sw =
     (case vote_checks PreCommit vote sh sr of
        Some e \<Rightarrow> (Inl e, sw)
      | None \<Rightarrow> (let (r, s') = precommit_write hash en now vote sw in (Inr r, s')))"

definition receive_vote ::
    "(bytes \<Rightarrow> bytes32) \<Rightarrow> engine \<Rightarrow> u64 \<Rightarrow> vote \<Rightarrow> (string, quorum_certificate option, consensus) op" where
  "receive_vote hash en now vote s =
     (case vt_type vote of PreVote \<Rightarrow> receive_prevote hash en vote s | PreCommit \<Rightarrow> receive_precommit hash en now vote s)"

definition commit :: "quorum_certificate \<Rightarrow> (string, unit, consensus) op" where
  "commit qc s =
     (if cs_state s \<noteq> Finalized then (Inl ''Cannot commit: not in Finalized state'', s)
      else (Inr (), s\<lparr>cs_precommit_qc := Some qc, cs_state := Idle\<rparr>))"

definition advance_to_next_view :: "engine \<Rightarrow> consensus \<Rightarrow> consensus" where
  "advance_to_next_view en s =
     (let r = cs_round s + 1
      in s\<lparr>cs_round := r, cs_state := Propose, cs_votes := [], cs_proposer := get_proposer en (cs_height s) r\<rparr>)"

definition advance_to_next_height :: "consensus \<Rightarrow> consensus" where
  "advance_to_next_height s =
     s\<lparr>cs_height := cs_height s + 1, cs_round := 0, cs_state := Idle, cs_votes := [], cs_locked_block := None,
       cs_locked_qc := None, cs_prevote_qc := None, cs_precommit_qc := None\<rparr>"

definition get_vote_count :: "consensus \<Rightarrow> nat" where
  "get_vote_count s = length (cs_votes s)"

definition has_quorum :: "engine \<Rightarrow> vote_type \<Rightarrow> consensus \<Rightarrow> bool" where
  "has_quorum en t s \<longleftrightarrow> en_threshold en \<le> vote_count t (cs_votes s)"

definition can_produce :: "consensus \<Rightarrow> bool" where
  "can_produce s \<longleftrightarrow> cs_state s = Idle \<or> cs_state s = Propose"

section \<open>Blocks\<close>

definition propose_block ::
    "(bytes \<Rightarrow> bytes32) \<Rightarrow> engine \<Rightarrow> ledger \<Rightarrow> transaction list \<Rightarrow> bytes32 \<Rightarrow> u64 \<Rightarrow> block" where
  "propose_block hash en st txs parent_hash now =
     block_new \<lparr>bh_height = lg_height st + 1, bh_timestamp = now, bh_parent_hash = parent_hash,
                bh_state_root = lg_state_root st, bh_receipts_root = zero32,
                bh_validator_set_hash = get_validator_set_hash hash en\<rparr> txs"

definition finalize_block :: "crypto \<Rightarrow> block \<Rightarrow> (state_error, bytes32 list, ledger) op" where
  "finalize_block c blk st =
     (case apply_block_transactions c (b_transactions blk) st of
        (Inl e, st') \<Rightarrow> (Inl e, st')
      | (Inr receipts, st') \<Rightarrow>
          (Inr (map lr_id (concat (map (\<lambda>r. case r of None \<Rightarrow> [] | Some x \<Rightarrow> [x]) receipts))),
           snd (compute_state_root c (increment_height st'))))"

section \<open>Runs of the engine\<close>

text \<open>
  One call on the engine that nothing disturbs between its locks. Votes are at the height and round of the state
  and keyed by their voter; a finalized state holds a precommit certificate of its own view.
\<close>

inductive consensus_step :: "(bytes \<Rightarrow> bytes32) \<Rightarrow> engine \<Rightarrow> consensus \<Rightarrow> consensus \<Rightarrow> bool"
  for hash en where
  step_view: "consensus_step hash en s (start_new_view en height round s)"
| step_propose: "consensus_step hash en s (snd (propose en blk qc s))"
| step_vote: "consensus_step hash en s (snd (receive_vote hash en now v s))"
| step_commit: "consensus_step hash en s (snd (commit qc s))"
| step_next_view: "consensus_step hash en s (advance_to_next_view en s)"
| step_next_height: "consensus_step hash en s (advance_to_next_height s)"

definition vote_fits :: "consensus \<Rightarrow> bytes32 \<times> vote \<Rightarrow> bool" where
  "vote_fits s = (\<lambda>(k, v). vt_validator_id v = k \<and> vt_height v = cs_height s \<and> vt_round v = cs_round s)"

definition qc_of_view :: "vote_type \<Rightarrow> consensus \<Rightarrow> quorum_certificate \<Rightarrow> bool" where
  "qc_of_view t s qc \<longleftrightarrow> qc_vote_type qc = t \<and> qc_height qc = cs_height s \<and> qc_round qc = cs_round s
     \<and> distinct (map fst (qc_signatures qc)) \<and> qc_signatures qc \<noteq> []"

definition consensus_wf :: "consensus \<Rightarrow> bool" where
  "consensus_wf s \<longleftrightarrow> hm_wf (cs_votes s) \<and> list_all (vote_fits s) (cs_votes s)
     \<and> (cs_state s = Finalized \<longrightarrow> (\<exists>qc. cs_precommit_qc s = Some qc \<and> qc_of_view PreCommit s qc))"

lemma vote_count_total: "vote_count t votes = total (\<lambda>v. if vt_type v = t then 1 else 0 :: nat) votes"
  unfolding vote_count_def by (rule count_values)

lemma vote_count_new:
  "hm_wf m \<Longrightarrow> map_of m i = None \<Longrightarrow> vt_type v = t \<Longrightarrow> vote_count t (hm_insert i v m) = Suc (vote_count t m)"
  by (simp add: vote_count_total hm.total_insert_new)

text \<open>The loop that collects the signatures is a filter of the stored votes.\<close>

lemma certificate_fields:
  "certificate hash en t h s =
     (qc_new h (cs_height s) (cs_round s) t (get_validator_set_hash hash en))
       \<lparr>qc_signatures := [(i, vt_signature v). (i, v) \<leftarrow> cs_votes s, vt_type v = t \<and> vt_block_hash v = h]\<rparr>"
proof -
  have "fold (\<lambda>(vid, v) qc. if vt_type v = t \<and> vt_block_hash v = h then add_signature vid (vt_signature v) qc else qc) vs qc
      = qc\<lparr>qc_signatures := qc_signatures qc @ [(i, vt_signature v). (i, v) \<leftarrow> vs, vt_type v = t \<and> vt_block_hash v = h]\<rparr>"
    for vs qc
    by (induction vs arbitrary: qc) (auto simp: add_signature_def)
  from this [of "cs_votes s" "qc_new h (cs_height s) (cs_round s) t (get_validator_set_hash hash en)"]
  show ?thesis unfolding certificate_def by (simp add: qc_new_def)
qed

lemma signers_filter:
  "map fst [(i, vt_signature v). (i, v) \<leftarrow> vs, P v] = map fst [p \<leftarrow> vs. P (snd p)]"
  by (induction vs) auto

lemma certificate_signers:
  "map fst (qc_signatures (certificate hash en t h s)) =
     map fst [p \<leftarrow> cs_votes s. vt_type (snd p) = t \<and> vt_block_hash (snd p) = h]"
  using signers_filter [of "\<lambda>v. vt_type v = t \<and> vt_block_hash v = h" "cs_votes s"] by (simp add: certificate_fields)

lemma certificate_header [simp]:
  "qc_block_hash (certificate hash en t h s) = h" "qc_height (certificate hash en t h s) = cs_height s"
  "qc_round (certificate hash en t h s) = cs_round s" "qc_vote_type (certificate hash en t h s) = t"
  by (simp_all add: certificate_fields qc_new_def)

lemma certificate_distinct: "hm_wf (cs_votes s) \<Longrightarrow> distinct (map fst (qc_signatures (certificate hash en t h s)))"
  by (auto simp: certificate_signers hm_wf_def intro: distinct_map_filter)

lemma certificate_of_view:
  assumes "hm_wf (cs_votes s)" "(i, v) \<in> set (cs_votes s)" "vt_type v = t" "vt_block_hash v = h"
  shows "qc_of_view t s (certificate hash en t h s)"
proof -
  have "i \<in> set (map fst (qc_signatures (certificate hash en t h s)))"
    unfolding certificate_signers using assms by force
  then have "qc_signatures (certificate hash en t h s) \<noteq> []" by auto
  with certificate_distinct [OF assms(1)] show ?thesis by (simp add: qc_of_view_def)
qed

lemma new_vote_stored: "hm_wf m \<Longrightarrow> (i, v) \<in> set (hm_insert i v m)"
  by (simp add: hm.set_insert)

lemma vote_fits_insert:
  "hm_wf (cs_votes s) \<Longrightarrow> list_all (vote_fits s) (cs_votes s) \<Longrightarrow> vt_height v = cs_height s \<Longrightarrow> vt_round v = cs_round s
    \<Longrightarrow> list_all (vote_fits s) (hm_insert (vt_validator_id v) v (cs_votes s))"
  by (auto simp: list_all_iff hm.set_insert vote_fits_def)

lemma vote_checks_None:
  "vote_checks t v s s = None \<longleftrightarrow> vt_height v = cs_height s \<and> vt_round v = cs_round s \<and> vt_type v = t"
  by (auto simp: vote_checks_def)

lemma vote_fits_cong: "cs_height s' = cs_height s \<Longrightarrow> cs_round s' = cs_round s \<Longrightarrow> vote_fits s' = vote_fits s"
  by (simp add: vote_fits_def)

lemma qc_of_view_cong: "cs_height s' = cs_height s \<Longrightarrow> cs_round s' = cs_round s \<Longrightarrow> qc_of_view t s' = qc_of_view t s"
  by (auto simp: qc_of_view_def fun_eq_iff)

lemma prevote_write_wf:
  assumes "consensus_wf s" "vt_height v = cs_height s" "vt_round v = cs_round s"
  shows "consensus_wf (snd (prevote_write hash en v s))"
  using assms vote_fits_insert [of s v]
  by (auto simp: consensus_wf_def prevote_write_def Let_def hm.wf_insert vote_fits_def qc_of_view_def)

lemma precommit_write_wf:
  assumes "consensus_wf s" "vt_height v = cs_height s" "vt_round v = cs_round s" "vt_type v = PreCommit"
  shows "consensus_wf (snd (precommit_write hash en now v s))"
proof -
  let ?s1 = "s\<lparr>cs_votes := hm_insert (vt_validator_id v) v (cs_votes s)\<rparr>"
  have w: "hm_wf (cs_votes s)" using assms(1) by (simp add: consensus_wf_def)
  have "qc_of_view PreCommit ?s1 (certificate hash en PreCommit (vt_block_hash v) ?s1)"
    by (rule certificate_of_view [of _ "vt_validator_id v" v]) (use w assms(4) in \<open>auto simp: hm.wf_insert new_vote_stored\<close>)
  then show ?thesis using assms vote_fits_insert [of s v]
    by (auto simp: consensus_wf_def precommit_write_def Let_def hm.wf_insert vote_fits_def qc_of_view_def)
qed

lemma receive_vote_wf: "consensus_wf s \<Longrightarrow> consensus_wf (snd (receive_vote hash en now v s))"
  by (cases "vt_type v")
    (auto simp: receive_vote_def receive_prevote_def receive_precommit_def vote_checks_None
      intro: prevote_write_wf precommit_write_wf split: option.splits prod.splits
      dest: prevote_write_wf [of _ _ hash en] precommit_write_wf [of _ _ hash en now])

lemma consensus_step_wf: "consensus_step hash en s s' \<Longrightarrow> consensus_wf s \<Longrightarrow> consensus_wf s'"
proof (induction rule: consensus_step.induct)
  case (step_vote s now v)
  then show ?case by (simp add: receive_vote_wf)
next
  case (step_propose s blk qc)
  then show ?case
    by (cases qc) (auto simp: consensus_wf_def propose_def Let_def vote_fits_def list_all_iff)
next
  case (step_commit s qc)
  then show ?case by (auto simp: consensus_wf_def commit_def vote_fits_def list_all_iff)
qed (auto simp: consensus_wf_def start_new_view_def advance_to_next_view_def advance_to_next_height_def Let_def hm_wf_def)

lemma consensus_default_wf: "consensus_wf consensus_default"
  by (simp add: consensus_wf_def consensus_default_def hm_wf_def)

interpretation consensus_run: transition_system "consensus_step hash en" consensus_wf "\<lambda>s. s = consensus_default" for hash en
  by unfold_locales (auto simp: consensus_default_wf intro: consensus_step_wf)

lemmas consensus_reachable_wf = consensus_run.reachable_inv [OF _ refl]

text \<open>
  The engine under several tasks. Besides the calls that nothing disturbs, a vote can be stored in any state, having
  passed its checks on others: the states of its read locks are earlier states of the engine, which the step leaves
  open. Without these steps the calls run one after the other.
\<close>

inductive engine_step :: "bool \<Rightarrow> (bytes \<Rightarrow> bytes32) \<Rightarrow> engine \<Rightarrow> consensus \<Rightarrow> consensus \<Rightarrow> bool" for interleaved hash en where
  undisturbed: "consensus_step hash en s s' \<Longrightarrow> engine_step interleaved hash en s s'"
| late_prevote: "interleaved \<Longrightarrow> engine_step interleaved hash en s (snd (prevote_interleaved hash en v sh sr s))"
| late_precommit: "interleaved \<Longrightarrow> engine_step interleaved hash en s (snd (precommit_interleaved hash en now v sh sr s))"

definition engine_wf :: "consensus \<Rightarrow> bool" where
  "engine_wf s \<longleftrightarrow> hm_wf (cs_votes s) \<and> list_all (\<lambda>(k, v). vt_validator_id v = k) (cs_votes s) \<and>
     (cs_state s = Finalized \<longrightarrow> (\<exists>qc. cs_precommit_qc s = Some qc \<and> qc_of_view PreCommit s qc))"

lemma voter_keys_insert:
  "hm_wf m \<Longrightarrow> list_all (\<lambda>(k, v). vt_validator_id v = k) m \<Longrightarrow>
    list_all (\<lambda>(k, v). vt_validator_id v = k) (hm_insert (vt_validator_id v) v m)"
  by (auto simp: list_all_iff hm.set_insert)

lemma late_prevote_wf: "engine_wf s \<Longrightarrow> engine_wf (snd (prevote_interleaved hash en v sh sr s))"
  using voter_keys_insert [of "cs_votes s" v]
  by (auto simp: engine_wf_def prevote_interleaved_def prevote_write_def Let_def hm.wf_insert qc_of_view_def split: option.splits)

lemma late_precommit_wf: "engine_wf s \<Longrightarrow> engine_wf (snd (precommit_interleaved hash en now v sh sr s))"
proof -
  assume w: "engine_wf s"
  let ?s1 = "s\<lparr>cs_votes := hm_insert (vt_validator_id v) v (cs_votes s)\<rparr>"
  have "qc_of_view PreCommit ?s1 (certificate hash en PreCommit (vt_block_hash v) ?s1)" if "vt_type v = PreCommit"
    by (rule certificate_of_view [of _ "vt_validator_id v" v]) (use w that in \<open>auto simp: engine_wf_def hm.wf_insert new_vote_stored\<close>)
  with w voter_keys_insert [of "cs_votes s" v] show ?thesis
    by (auto simp: engine_wf_def precommit_interleaved_def vote_checks_def precommit_write_def Let_def hm.wf_insert qc_of_view_def
        split: option.splits if_splits)
qed

lemma receive_vote_interleaved:
  "receive_vote hash en now v s =
     (case vt_type v of PreVote \<Rightarrow> prevote_interleaved hash en v s s s | PreCommit \<Rightarrow> precommit_interleaved hash en now v s s s)"
  by (simp add: receive_vote_def receive_prevote_def receive_precommit_def prevote_interleaved_def precommit_interleaved_def
      split: vote_type.split)

lemma engine_step_wf: "engine_step interleaved hash en s s' \<Longrightarrow> engine_wf s \<Longrightarrow> engine_wf s'"
proof (induction rule: engine_step.induct)
  case (undisturbed s s')
  then show ?case
  proof (induction rule: consensus_step.induct)
    case (step_vote s now v)
    then show ?case by (cases "vt_type v") (simp_all add: receive_vote_interleaved late_prevote_wf late_precommit_wf)
  next
    case (step_propose s blk qc)
    then show ?case by (cases qc) (auto simp: engine_wf_def propose_def Let_def)
  next
    case (step_commit s qc)
    then show ?case by (auto simp: engine_wf_def commit_def)
  qed (auto simp: engine_wf_def start_new_view_def advance_to_next_view_def advance_to_next_height_def Let_def hm_wf_def)
qed (simp_all add: late_prevote_wf late_precommit_wf)

interpretation engine_run: transition_system "engine_step interleaved hash en" engine_wf "\<lambda>s. s = consensus_default"
  for interleaved hash en
proof unfold_locales
  show "engine_step interleaved hash en s s' \<Longrightarrow> engine_wf s \<Longrightarrow> engine_wf s'" for s s' by (rule engine_step_wf)
qed (simp add: engine_wf_def consensus_default_def hm_wf_def)

lemma undisturbed_run:
  "(engine_step False hash en)\<^sup>*\<^sup>* s s' \<Longrightarrow> (consensus_step hash en)\<^sup>*\<^sup>* s s'"
  by (induction rule: rtranclp_induct) (auto elim: engine_step.cases intro: rtranclp.rtrancl_into_rtrancl)

lemma run_undisturbed:
  "(consensus_step hash en)\<^sup>*\<^sup>* s s' \<Longrightarrow> (engine_step interleaved hash en)\<^sup>*\<^sup>* s s'"
  by (induction rule: rtranclp_induct) (auto intro: rtranclp.rtrancl_into_rtrancl undisturbed)

text \<open>A vote that passes the checks is stored, and answered with a certificate once the votes of its type
  reach the threshold.\<close>

lemma receive_vote_accepts:
  assumes "vt_height v = cs_height s" "vt_round v = cs_round s"
  defines "s1 \<equiv> s\<lparr>cs_votes := hm_insert (vt_validator_id v) v (cs_votes s)\<rparr>"
  shows "fst (receive_vote hash en now v s) =
      Inr (if en_threshold en \<le> vote_count (vt_type v) (cs_votes s1)
           then Some (certificate hash en (vt_type v) (vt_block_hash v) s1) else None)"
    and "cs_votes (snd (receive_vote hash en now v s)) = cs_votes s1"
    and "cs_height (snd (receive_vote hash en now v s)) = cs_height s"
    and "cs_round (snd (receive_vote hash en now v s)) = cs_round s"
  using assms(1,2) unfolding s1_def
  by (cases "vt_type v"; simp add: receive_vote_def receive_prevote_def receive_precommit_def vote_checks_def
      prevote_write_def precommit_write_def Let_def)+

lemma receive_vote_certificate:
  assumes "fst (receive_vote hash en now v s) = Inr (Some qc)"
  defines "s1 \<equiv> s\<lparr>cs_votes := hm_insert (vt_validator_id v) v (cs_votes s)\<rparr>"
  shows "qc = certificate hash en (vt_type v) (vt_block_hash v) s1"
    and "en_threshold en \<le> vote_count (vt_type v) (cs_votes s1)"
proof -
  have f: "vt_height v = cs_height s \<and> vt_round v = cs_round s"
    using assms(1) by (cases "vt_type v")
      (auto simp: receive_vote_def receive_prevote_def receive_precommit_def vote_checks_def split: if_splits)
  with assms(1) show "qc = certificate hash en (vt_type v) (vt_block_hash v) s1"
    and "en_threshold en \<le> vote_count (vt_type v) (cs_votes s1)"
    unfolding s1_def by (auto simp: receive_vote_accepts split: if_splits)
qed

lemma unanimous_certificate:
  assumes "list_all (\<lambda>(i, v). vt_type v = t \<longrightarrow> vt_block_hash v = h) (cs_votes s)"
  shows "length (qc_signatures (certificate hash en t h s)) = vote_count t (cs_votes s)"
proof -
  have "[p \<leftarrow> cs_votes s. vt_type (snd p) = t \<and> vt_block_hash (snd p) = h] = [p \<leftarrow> cs_votes s. vt_type (snd p) = t]"
    using assms by (intro filter_cong) (auto simp: list_all_iff)
  then have "length (map fst (qc_signatures (certificate hash en t h s))) = length [p \<leftarrow> cs_votes s. vt_type (snd p) = t]"
    by (simp add: certificate_signers)
  then show ?thesis by (simp add: vote_count_def filter_map o_def)
qed

text \<open>Certificates as quorums: every active validator weighs one.\<close>

definition active_ids :: "engine \<Rightarrow> bytes32 set" where
  "active_ids en = v_id ` set [v \<leftarrow> en_validators en. active_or_inactive v]"

definition engine_ok :: "engine \<Rightarrow> bool" where
  "engine_ok en \<longleftrightarrow> en = engine_new (en_validators en) (en_view_timeout_ms en)"

interpretation vote_quorum: weighted_quorum active_ids "\<lambda>_ _. 1" en_threshold engine_ok
proof (unfold_locales, goal_cases)
  case (1 s)
  show ?case by (simp add: active_ids_def)
next
  case (2 s)
  let ?a = "[v \<leftarrow> en_validators s. active_or_inactive v]"
  have "card (active_ids s) \<le> length ?a"
    unfolding active_ids_def by (metis card_image_le card_length le_trans List.finite_set)
  moreover have "en_threshold s = length ?a * 2 div 3 + 1"
    using 2 unfolding engine_ok_def by (metis (no_types, lifting) engine.select_convs(2) engine_new_def)
  ultimately show ?case using two_thirds_plus_one [of "length ?a"] by simp
qed

lemma dispatch_height: "dispatch c t tx s = (r, s') \<Longrightarrow> lg_height s' = lg_height s"
  by (cases t) (auto simp: handler_defs Let_def split: if_splits option.splits prod.splits sum.splits)

lemma apply_txs_height: "apply_txs c txs acc s = (r, s') \<Longrightarrow> lg_height s' = lg_height s"
proof (induction txs arbitrary: acc s)
  case Nil
  then show ?case by simp
next
  case (Cons tx txs)
  then show ?case
    by (auto simp: apply_transaction_def dest: dispatch_height split: prod.splits sum.splits if_splits)
qed

text \<open>What the certificate answering a vote holds.\<close>

lemma certificate_facts:
  assumes "consensus_wf s" "receive_vote hash en now v s = (Inr (Some qc), s')"
  shows "qc_block_hash qc = vt_block_hash v \<and> qc_vote_type qc = vt_type v \<and> qc_height qc = vt_height v \<and> qc_round qc = vt_round v
    \<and> distinct (map fst (qc_signatures qc))
    \<and> fst ` set (qc_signatures qc) =
        {i. \<exists>u. map_of (cs_votes s') i = Some u \<and> vt_type u = vt_type v \<and> vt_block_hash u = vt_block_hash v}
    \<and> ((\<forall>i u. map_of (cs_votes s') i = Some u \<longrightarrow> vt_type u = vt_type v \<longrightarrow> vt_block_hash u = vt_block_hash v)
        \<longrightarrow> en_threshold en \<le> length (qc_signatures qc))"
proof -
  let ?s1 = "s\<lparr>cs_votes := hm_insert (vt_validator_id v) v (cs_votes s)\<rparr>"
  have f: "fst (receive_vote hash en now v s) = Inr (Some qc)" using assms(2) by simp
  have chk: "vt_height v = cs_height s" "vt_round v = cs_round s" using f by (cases "vt_type v";
      auto simp: receive_vote_def receive_prevote_def receive_precommit_def vote_checks_def split: if_splits)+
  note qc = receive_vote_certificate [OF f]
  have votes: "cs_votes s' = cs_votes ?s1" using receive_vote_accepts(2) [OF chk, of hash en now] assms(2) by simp
  have wf: "hm_wf (cs_votes ?s1)" using assms(1) by (simp add: consensus_wf_def hm.wf_insert)
  have e: "(i, u) \<in> set (cs_votes ?s1) \<longleftrightarrow> map_of (cs_votes s') i = Some u" for i u
    using hm.entry_iff [OF wf] votes by simp
  have "set (map fst (qc_signatures qc)) =
      {i. \<exists>u. (i, u) \<in> set (cs_votes ?s1) \<and> vt_type u = vt_type v \<and> vt_block_hash u = vt_block_hash v}"
    unfolding qc(1) certificate_signers by force
  then have "fst ` set (qc_signatures qc) =
      {i. \<exists>u. map_of (cs_votes s') i = Some u \<and> vt_type u = vt_type v \<and> vt_block_hash u = vt_block_hash v}"
    unfolding e by simp
  moreover have "en_threshold en \<le> length (qc_signatures qc)"
    if "\<forall>i u. map_of (cs_votes s') i = Some u \<longrightarrow> vt_type u = vt_type v \<longrightarrow> vt_block_hash u = vt_block_hash v"
  proof -
    have "list_all (\<lambda>(i, u). vt_type u = vt_type v \<longrightarrow> vt_block_hash u = vt_block_hash v) (cs_votes ?s1)"
      using that e by (fastforce simp: list_all_iff)
    from unanimous_certificate [OF this, of hash en] qc(2) show ?thesis by (simp add: qc(1))
  qed
  ultimately show ?thesis using certificate_distinct [OF wf] chk by (simp add: qc(1))
qed

lemma quorum_certificates_overlap:
  assumes "engine_ok en" "is_quorum n (en_threshold en) qc1" "is_quorum n (en_threshold en) qc2"
    and "distinct (map fst (qc_signatures qc1))" "distinct (map fst (qc_signatures qc2))"
    and "fst ` set (qc_signatures qc1) \<subseteq> active_ids en" "fst ` set (qc_signatures qc2) \<subseteq> active_ids en"
  shows "card (active_ids en) < 3 * card (fst ` set (qc_signatures qc1) \<inter> fst ` set (qc_signatures qc2))"
proof -
  have pos: "0 < en_threshold en"
    using assms(1) unfolding engine_ok_def by (metis add_gr_0 engine.select_convs(2) engine_new_def zero_less_one)
  have c: "card (fst ` set (qc_signatures qc)) = length (qc_signatures qc)" if "distinct (map fst (qc_signatures qc))" for qc
    using distinct_card [OF that] by simp
  show ?thesis
    using vote_quorum.quorum_overlap [OF assms(1,6,7)] assms(2,3) pos c [OF assms(4)] c [OF assms(5)]
    by (simp add: is_quorum_def)
qed

section \<open>Properties\<close>

text \<open>C6. In every state the engine reaches from its initial one, also when other tasks run between the locks of a vote:
  the stored votes are one per validator, each under the key of its voter, and a finalized state holds a precommit
  certificate of its own height and round, with at least one signature and no signer twice. When the calls run one
  after the other, every stored vote is at the height and round of the state.\<close>

theorem consensus_invariant:
  assumes "(engine_step interleaved hash en)\<^sup>*\<^sup>* consensus_default s"
  shows "distinct (map fst (cs_votes s))
    \<and> (\<forall>(i, v) \<in> set (cs_votes s). vt_validator_id v = i \<and>
        (\<not> interleaved \<longrightarrow> vt_height v = cs_height s \<and> vt_round v = cs_round s))
    \<and> (cs_state s = Finalized \<longrightarrow> (\<exists>qc. cs_precommit_qc s = Some qc \<and> qc_of_view PreCommit s qc))"
proof -
  have "engine_wf s" by (rule engine_run.reachable_inv [OF assms refl])
  moreover have "list_all (vote_fits s) (cs_votes s)" if "\<not> interleaved"
    using consensus_reachable_wf [OF undisturbed_run, of hash en s] assms that by (simp add: consensus_wf_def)
  ultimately show ?thesis by (auto simp: engine_wf_def hm_wf_def list_all_iff vote_fits_def)
qed

definition example_engine :: engine where
  "example_engine = engine_new (map (\<lambda>i. validator_new (replicate 32 i) 1000 zero32) [1, 2, 3, 4]) 3000"

definition example_vote :: "u8 \<Rightarrow> vote_type \<Rightarrow> u8 \<Rightarrow> vote" where
  "example_vote i t h = vote_new (replicate 32 i) 0 0 t (replicate 32 h) [i]"

definition example_votes :: "vote_type \<Rightarrow> (u8 \<times> u8) list \<Rightarrow> consensus \<Rightarrow> consensus" where
  "example_votes t = fold (\<lambda>(i, h) s. snd (receive_vote (\<lambda>_. zero32) example_engine 7 (example_vote i t h) s))"

lemma example_votes_reachable:
  "(consensus_step (\<lambda>_. zero32) example_engine)\<^sup>*\<^sup>* s s' \<Longrightarrow>
    (consensus_step (\<lambda>_. zero32) example_engine)\<^sup>*\<^sup>* s (example_votes t ihs s')"
  unfolding example_votes_def
  by (induction ihs arbitrary: s') (auto intro: rtranclp.rtrancl_into_rtrancl step_vote)

lemma example_threshold: "en_threshold example_engine = 3"
  by code_simp

theorem consensus_invariant_witness:
  "cs_state (example_votes PreCommit [(1, 9), (2, 9), (3, 9)] consensus_default) = Finalized \<and>
   list_all (\<lambda>(i, v). vt_height v = 0) (cs_votes (example_votes PreCommit [(1, 9), (2, 9), (3, 9)] consensus_default))"
proof
  let ?s = "example_votes PreCommit [(1, 9), (2, 9), (3, 9)] consensus_default"
  show "cs_state ?s = Finalized" by code_simp
  have "cs_height ?s = 0" by code_simp
  moreover have "\<forall>(i, v) \<in> set (cs_votes ?s). vt_validator_id v = i \<and>
      (\<not> False \<longrightarrow> vt_height v = cs_height ?s \<and> vt_round v = cs_round ?s)"
    using consensus_invariant [OF run_undisturbed [OF example_votes_reachable [OF rtranclp.rtrancl_refl], where interleaved = False]] by blast
  ultimately show "list_all (\<lambda>(i, v). vt_height v = 0) (cs_votes ?s)" by (auto simp: list_all_iff)
qed

text \<open>C26. When a vote is answered with a certificate, the certificate is for the vote's block, type, height and
  round, its signers are distinct and exactly the validators with a stored vote of that type for that block;
  and if all stored votes of the type are for the block, it carries at least \<open>threshold\<close> signatures.\<close>

theorem certificate_sound:
  assumes "consensus_wf s" "receive_vote hash en now v s = (Inr (Some qc), s')"
  shows "qc_block_hash qc = vt_block_hash v \<and> qc_vote_type qc = vt_type v \<and> qc_height qc = vt_height v \<and> qc_round qc = vt_round v
    \<and> distinct (map fst (qc_signatures qc))
    \<and> fst ` set (qc_signatures qc) =
        {i. \<exists>u. map_of (cs_votes s') i = Some u \<and> vt_type u = vt_type v \<and> vt_block_hash u = vt_block_hash v}
    \<and> ((\<forall>i u. map_of (cs_votes s') i = Some u \<longrightarrow> vt_type u = vt_type v \<longrightarrow> vt_block_hash u = vt_block_hash v)
        \<longrightarrow> en_threshold en \<le> length (qc_signatures qc))"
  by (rule certificate_facts [OF assms])

theorem certificate_sound_witness:
  "\<exists>qc s'. receive_vote (\<lambda>_. zero32) example_engine 7 (example_vote 3 PreVote 9)
        (example_votes PreVote [(1, 9), (2, 9)] consensus_default) = (Inr (Some qc), s')
     \<and> fst ` set (qc_signatures qc) = {replicate 32 1, replicate 32 2, replicate 32 3} \<and> distinct (map fst (qc_signatures qc))"
proof -
  let ?s = "example_votes PreVote [(1, 9), (2, 9)] consensus_default"
  have w: "consensus_wf ?s"
    by (rule consensus_reachable_wf [OF example_votes_reachable]) simp
  obtain r s' where rs: "receive_vote (\<lambda>_. zero32) example_engine 7 (example_vote 3 PreVote 9) ?s = (r, s')" by fastforce
  have e: "map_sum id (map_option (\<lambda>qc. map fst (qc_signatures qc)))
      (fst (receive_vote (\<lambda>_. zero32) example_engine 7 (example_vote 3 PreVote 9) ?s)) =
      Inr (Some [replicate 32 1, replicate 32 2, replicate 32 3])"
    by code_simp
  then obtain qc where "r = Inr (Some qc)" and m: "map fst (qc_signatures qc) = [replicate 32 1, replicate 32 2, replicate 32 3]"
    unfolding rs by (cases r; cases "projr r"; auto)
  moreover have "fst ` set (qc_signatures qc) = set (map fst (qc_signatures qc))" by simp
  ultimately show ?thesis
    using rs certificate_sound [OF w, of "\<lambda>_. zero32" example_engine 7 "example_vote 3 PreVote 9" qc s'] by (simp add: m)
qed

text \<open>C9. Two certificates that \<open>is_quorum\<close> accepts at the engine's threshold, with distinct signers that are all
  active validators of the engine, share more than a third of the active validators among their signers.\<close>

theorem certificates_overlap:
  assumes "engine_ok en" "is_quorum n (en_threshold en) qc1" "is_quorum n (en_threshold en) qc2"
    and "distinct (map fst (qc_signatures qc1))" "distinct (map fst (qc_signatures qc2))"
    and "fst ` set (qc_signatures qc1) \<subseteq> active_ids en" "fst ` set (qc_signatures qc2) \<subseteq> active_ids en"
  shows "card (active_ids en) < 3 * card (fst ` set (qc_signatures qc1) \<inter> fst ` set (qc_signatures qc2))"
  by (rule quorum_certificates_overlap [OF assms])

definition example_qc :: "u8 list \<Rightarrow> quorum_certificate" where
  "example_qc is = fold (\<lambda>i. add_signature (replicate 32 i) [i]) is (qc_new (replicate 32 9) 0 0 PreCommit zero32)"

theorem certificates_overlap_witness:
  "card (active_ids example_engine) <
     3 * card (fst ` set (qc_signatures (example_qc [1, 2, 3])) \<inter> fst ` set (qc_signatures (example_qc [2, 3, 4])))"
proof (rule certificates_overlap [of _ 4])
  show "engine_ok example_engine" by (simp add: engine_ok_def example_engine_def engine_new_def)
  show "is_quorum 4 (en_threshold example_engine) (example_qc [1, 2, 3])"
    and "is_quorum 4 (en_threshold example_engine) (example_qc [2, 3, 4])" by code_simp+
  show "distinct (map fst (qc_signatures (example_qc [1, 2, 3])))"
    and "distinct (map fst (qc_signatures (example_qc [2, 3, 4])))" by code_simp+
  show "fst ` set (qc_signatures (example_qc [1, 2, 3])) \<subseteq> active_ids example_engine"
    and "fst ` set (qc_signatures (example_qc [2, 3, 4])) \<subseteq> active_ids example_engine" by code_simp+
qed

text \<open>Agreement within a view. When two engines with the same active validators each answer a precommit of the same
  height and round with a certificate that is a quorum of active validators, and every validator outside a set of at
  most a third of them stands in both stores with the same block, if it stands in both, then the two certificates, and
  the two precommits, are for the same block.\<close>

theorem agreement_in_view:
  assumes "engine_ok en" "consensus_wf s" "consensus_wf t"
    and "receive_vote hash en now v s = (Inr (Some qc1), s')" "receive_vote hash en now' w t = (Inr (Some qc2), t')"
    and "vt_type v = PreCommit" "vt_type w = PreCommit"
    and "is_quorum n (en_threshold en) qc1" "is_quorum n (en_threshold en) qc2"
    and "fst ` set (qc_signatures qc1) \<subseteq> active_ids en" "fst ` set (qc_signatures qc2) \<subseteq> active_ids en"
    and "finite byzantine" "3 * card byzantine \<le> card (active_ids en)"
    and "\<And>i x y. i \<notin> byzantine \<Longrightarrow> map_of (cs_votes s') i = Some x \<Longrightarrow> map_of (cs_votes t') i = Some y \<Longrightarrow>
      vt_type x = PreCommit \<Longrightarrow> vt_type y = PreCommit \<Longrightarrow> vt_block_hash x = vt_block_hash y"
  shows "vt_block_hash v = vt_block_hash w \<and> qc_block_hash qc1 = qc_block_hash qc2"
proof -
  note f1 = certificate_facts [OF assms(2,4)] and f2 = certificate_facts [OF assms(3,5)]
  let ?both = "fst ` set (qc_signatures qc1) \<inter> fst ` set (qc_signatures qc2)"
  have "card (active_ids en) < 3 * card ?both"
    by (rule quorum_certificates_overlap [OF assms(1,8,9) _ _ assms(10,11)]) (use f1 f2 in blast)+
  with assms(13) have "card byzantine < card ?both" by linarith
  then have "\<not> ?both \<subseteq> byzantine" using card_mono [OF assms(12)] by (meson not_le)
  then obtain i where i: "i \<notin> byzantine" "i \<in> fst ` set (qc_signatures qc1)" "i \<in> fst ` set (qc_signatures qc2)" by blast
  from i(2) f1 assms(6) obtain x where x: "map_of (cs_votes s') i = Some x" "vt_type x = PreCommit" "vt_block_hash x = vt_block_hash v"
    by auto
  from i(3) f2 assms(7) obtain y where y: "map_of (cs_votes t') i = Some y" "vt_type y = PreCommit" "vt_block_hash y = vt_block_hash w"
    by auto
  from assms(14) [OF i(1) x(1) y(1) x(2) y(2)] x(3) y(3) f1 f2 show ?thesis by simp
qed

theorem agreement_in_view_witness:
  "let s = example_votes PreCommit [(1, 8), (2, 9), (3, 9)] consensus_default; t = example_votes PreCommit [(1, 9), (2, 9)] consensus_default
   in \<exists>qc1 qc2 s' t'. receive_vote (\<lambda>_. zero32) example_engine 7 (example_vote 4 PreCommit 9) s = (Inr (Some qc1), s') \<and>
     receive_vote (\<lambda>_. zero32) example_engine 7 (example_vote 3 PreCommit 9) t = (Inr (Some qc2), t') \<and> qc_block_hash qc1 = qc_block_hash qc2"
proof -
  let ?h = "\<lambda>_ :: bytes. zero32"
  let ?s = "example_votes PreCommit [(1, 8), (2, 9), (3, 9)] consensus_default" and ?v = "example_vote 4 PreCommit 9"
  let ?t = "example_votes PreCommit [(1, 9), (2, 9)] consensus_default" and ?w = "example_vote 3 PreCommit 9"
  let ?id = "\<lambda>i :: u8. replicate 32 i"
  have wf: "consensus_wf ?s" "consensus_wf ?t" by (rule consensus_reachable_wf [OF example_votes_reachable], simp)+
  obtain r s' where s': "receive_vote ?h example_engine 7 ?v ?s = (r, s')" by fastforce
  obtain q t' where t': "receive_vote ?h example_engine 7 ?w ?t = (q, t')" by fastforce
  have "map_sum id (map_option (\<lambda>qc. map fst (qc_signatures qc))) (fst (receive_vote ?h example_engine 7 ?v ?s)) =
      Inr (Some [?id 2, ?id 3, ?id 4])" by code_simp
  then obtain qc1 where qc1: "r = Inr (Some qc1)" "map fst (qc_signatures qc1) = [?id 2, ?id 3, ?id 4]"
    unfolding s' by (cases r; cases "projr r"; auto)
  have "map_sum id (map_option (\<lambda>qc. map fst (qc_signatures qc))) (fst (receive_vote ?h example_engine 7 ?w ?t)) =
      Inr (Some [?id 1, ?id 2, ?id 3])" by code_simp
  then obtain qc2 where qc2: "q = Inr (Some qc2)" "map fst (qc_signatures qc2) = [?id 1, ?id 2, ?id 3]"
    unfolding t' by (cases q; cases "projr q"; auto)
  have ids: "active_ids example_engine = {?id 1, ?id 2, ?id 3, ?id 4}" by code_simp
  have "card {?id 1, ?id 2, ?id 3, ?id 4} = 4" by code_simp
  with ids have four: "card (active_ids example_engine) = 4" by simp
  have sizes: "length (qc_signatures qc1) = 3" "length (qc_signatures qc2) = 3"
    using arg_cong [OF qc1(2), of length] arg_cong [OF qc2(2), of length] by simp_all
  have "cs_votes s' = cs_votes (example_votes PreCommit [(1, 8), (2, 9), (3, 9), (4, 9)] consensus_default)"
    using s' by (simp add: example_votes_def)
  moreover have "list_all (\<lambda>(i, x). i \<noteq> ?id 1 \<longrightarrow> vt_block_hash x = ?id 9)
      (cs_votes (example_votes PreCommit [(1, 8), (2, 9), (3, 9), (4, 9)] consensus_default))" by code_simp
  ultimately have hs: "i \<noteq> ?id 1 \<Longrightarrow> map_of (cs_votes s') i = Some x \<Longrightarrow> vt_block_hash x = ?id 9" for i x
    by (auto simp: list_all_iff dest: map_of_SomeD)
  have "cs_votes t' = cs_votes (example_votes PreCommit [(1, 9), (2, 9), (3, 9)] consensus_default)"
    using t' by (simp add: example_votes_def)
  moreover have "list_all (\<lambda>(i, x). vt_block_hash x = ?id 9)
      (cs_votes (example_votes PreCommit [(1, 9), (2, 9), (3, 9)] consensus_default))" by code_simp
  ultimately have ht: "map_of (cs_votes t') i = Some x \<Longrightarrow> vt_block_hash x = ?id 9" for i x
    by (auto simp: list_all_iff dest: map_of_SomeD)
  have "vt_block_hash ?v = vt_block_hash ?w \<and> qc_block_hash qc1 = qc_block_hash qc2"
  proof (rule agreement_in_view [OF _ wf s' [unfolded qc1(1)] t' [unfolded qc2(1)]])
    show "engine_ok example_engine" by (simp add: engine_ok_def example_engine_def engine_new_def)
    show "is_quorum 4 (en_threshold example_engine) qc1" "is_quorum 4 (en_threshold example_engine) qc2"
      by (simp_all add: is_quorum_def example_threshold sizes)
    have "set (map fst (qc_signatures qc1)) \<subseteq> active_ids example_engine" "set (map fst (qc_signatures qc2)) \<subseteq> active_ids example_engine"
      unfolding qc1(2) qc2(2) ids by simp_all
    then show "fst ` set (qc_signatures qc1) \<subseteq> active_ids example_engine" "fst ` set (qc_signatures qc2) \<subseteq> active_ids example_engine"
      by simp_all
    show "3 * card {?id 1} \<le> card (active_ids example_engine)" by (simp add: four)
    show "vt_block_hash x = vt_block_hash y" if "i \<notin> {?id 1}" "map_of (cs_votes s') i = Some x" "map_of (cs_votes t') i = Some y" for i x y
      using hs [of i x] ht [of i y] that by simp
  qed (simp_all add: example_vote_def vote_new_def)
  with s' t' qc1(1) qc2(1) show ?thesis unfolding Let_def by blast
qed

definition receive_votes :: "(bytes \<Rightarrow> bytes32) \<Rightarrow> engine \<Rightarrow> u64 \<Rightarrow> vote list \<Rightarrow> consensus \<Rightarrow> consensus" where
  "receive_votes hash en now = fold (\<lambda>v s. snd (receive_vote hash en now v s))"

definition finalized_block :: "consensus \<Rightarrow> bytes32 option" where
  "finalized_block s = (if cs_state s = Finalized then map_option qc_block_hash (cs_precommit_qc s) else None)"

text \<open>The threshold counts precommits of any block and of any sender. When two more precommits are missing and
  two new senders vote, for any two blocks, each order of arrival finalizes the state for the block of the
  later vote: two engines that receive the same votes in different orders finalize different blocks.\<close>

theorem finalized_block_depends_on_order:
  assumes "consensus_wf s" "vote_count PreCommit (cs_votes s) + 2 = en_threshold en"
    and "vt_type a = PreCommit" "vt_height a = cs_height s" "vt_round a = cs_round s"
    and "vt_type b = PreCommit" "vt_height b = cs_height s" "vt_round b = cs_round s"
    and "vt_validator_id a \<noteq> vt_validator_id b"
    and "map_of (cs_votes s) (vt_validator_id a) = None" "map_of (cs_votes s) (vt_validator_id b) = None"
  shows "finalized_block (receive_votes hash en now [a, b] s) = Some (vt_block_hash b)
    \<and> finalized_block (receive_votes hash en now [b, a] s) = Some (vt_block_hash a)"
proof -
  have w: "hm_wf (cs_votes s)" using assms(1) by (simp add: consensus_wf_def)
  have last: "finalized_block (receive_votes hash en now [x, y] s) = Some (vt_block_hash y)"
    if "x = a \<and> y = b \<or> x = b \<and> y = a" for x y
    using that assms(2-11)
    by (auto simp: receive_votes_def finalized_block_def receive_vote_def receive_precommit_def vote_checks_def precommit_write_def Let_def
        vote_count_new hm.wf_insert w)
  show ?thesis using last by blast
qed

theorem finalized_block_depends_on_order_witness:
  "finalized_block (example_votes PreCommit [(1, 9), (2, 9), (7, 8)] consensus_default) = Some (replicate 32 8)
   \<and> finalized_block (example_votes PreCommit [(1, 9), (7, 8), (2, 9)] consensus_default) = Some (replicate 32 9)"
proof -
  let ?s = "example_votes PreCommit [(1, 9)] consensus_default"
  have "consensus_wf ?s" by (rule consensus_reachable_wf [OF example_votes_reachable]) simp
  moreover have "vote_count PreCommit (cs_votes ?s) + 2 = en_threshold example_engine"
    and "map_of (cs_votes ?s) (replicate 32 2) = None" and "map_of (cs_votes ?s) (replicate 32 7) = None"
    and "cs_height ?s = 0 \<and> cs_round ?s = 0"
    by code_simp+
  ultimately show ?thesis
    using finalized_block_depends_on_order [of ?s example_engine "example_vote 2 PreCommit 9" "example_vote 7 PreCommit 8" "\<lambda>_. zero32" 7]
    by (simp add: example_vote_def vote_new_def example_votes_def receive_votes_def)
qed

text \<open>The checks of \<open>receive_prevote\<close> and its insertion are under different locks. When the height advances
  between them, the call succeeds and stores a vote of the old height in the new one, which no sequence
  of undisturbed calls can produce.\<close>

theorem stale_vote_stored:
  assumes "vt_type v = PreVote" "vt_height v = cs_height s" "vt_round v = cs_round s" "1 < en_threshold en"
  shows "\<exists>s'. prevote_interleaved hash en v s s (advance_to_next_height s) = (Inr None, s')
    \<and> map_of (cs_votes s') (vt_validator_id v) = Some v \<and> vt_height v \<noteq> cs_height s' \<and> \<not> consensus_wf s'"
  using assms
  by (auto simp: prevote_interleaved_def vote_checks_def prevote_write_def advance_to_next_height_def Let_def
      vote_count_def consensus_wf_def vote_fits_def)

theorem stale_vote_stored_witness:
  "\<exists>s'. prevote_interleaved (\<lambda>_. zero32) example_engine (example_vote 1 PreVote 9) consensus_default consensus_default
        (advance_to_next_height consensus_default) = (Inr None, s') \<and> \<not> consensus_wf s'"
  using stale_vote_stored [of "example_vote 1 PreVote 9" consensus_default example_engine "\<lambda>_. zero32"]
  by (auto simp: example_vote_def vote_new_def consensus_default_def example_threshold)

text \<open>C39. The leader rotates over the active validators: with \<open>n\<close> of them, every active validator is the proposer
  of one of any \<open>n\<close> consecutive rounds of a height, as long as height and round do not overflow.\<close>

theorem every_validator_leads:
  assumes "v \<in> set (en_validators en)" "active_or_inactive v"
    and "n = length [v \<leftarrow> en_validators en. active_or_inactive v]"
    and "unat height + unat round + n < 2 ^ 64" "unat round + n < 2 ^ 32"
  shows "\<exists>k < n. is_leader en (v_id v) height (round + of_nat k)"
proof -
  let ?a = "[v \<leftarrow> en_validators en. active_or_inactive v]"
  obtain i where i: "i < n" "?a ! i = v" using assms(1-3) in_set_conv_nth [of v ?a] by auto
  let ?m = "unat height + unat round"
  define k where "k = (i + n - ?m mod n) mod n"
  have kn: "k < n" using i by (simp add: k_def)
  have "(?m + k) mod n = (?m mod n + (i + n - ?m mod n)) mod n"
    unfolding k_def by (metis mod_add_left_eq mod_add_right_eq)
  also have "?m mod n + (i + n - ?m mod n) = i + n" using i by (simp add: le_add_diff_inverse less_imp_le trans_le_add2)
  finally have mk: "(?m + k) mod n = i" using i by simp
  have r: "unat (round + of_nat k) = unat round + k"
    using assms(5) kn by (subst unat_add_no_wrap) (auto simp: unat_of_nat take_bit_nat_eq_self unsigned_of_nat)
  have "unat (height + ucast (round + of_nat k)) = ?m + k"
    using assms(4) kn r by (subst unat_add_no_wrap) auto
  then have "get_proposer en height (round + of_nat k) = v_id v"
    using i mk assms(3) by (auto simp: get_proposer_def Let_def)
  then show ?thesis using kn by (auto simp: is_leader_def)
qed

theorem every_validator_leads_witness:
  "\<exists>k < 4. is_leader example_engine (replicate 32 3) 5 (0 + of_nat k)"
proof -
  let ?v = "validator_new (replicate 32 3) 1000 zero32"
  have "?v \<in> set (en_validators example_engine)" "active_or_inactive ?v"
    "4 = length [v \<leftarrow> en_validators example_engine. active_or_inactive v]" "v_id ?v = replicate 32 3"
    by (simp_all add: example_engine_def engine_new_def validator_new_def active_or_inactive_def)
  then show ?thesis using every_validator_leads [of ?v example_engine 4 5 0] by simp
qed

text \<open>The transactions apply one after the other and take the ledger from one state to the other.\<close>

fun applies_all :: "crypto \<Rightarrow> transaction list \<Rightarrow> ledger \<Rightarrow> ledger \<Rightarrow> bool" where
  "applies_all c [] s s' \<longleftrightarrow> s' = s"
| "applies_all c (tx # txs) s s' \<longleftrightarrow>
     (case apply_transaction c tx s of (Inr _, s1) \<Rightarrow> applies_all c txs s1 s' | (Inl _, _) \<Rightarrow> False)"

lemma apply_txs_exact:
  assumes "apply_txs c txs acc s = (r, s')"
  shows "case r of
      Inr rs \<Rightarrow> rs = acc @ replicate (length txs) None \<and> applies_all c txs s s'
    | Inl e \<Rightarrow> \<exists>before tx after. txs = before @ tx # after \<and> applies_all c before s s' \<and> apply_transaction c tx s' = (Inl e, s')"
  using assms
proof (induction txs arbitrary: acc s)
  case Nil
  then show ?case by auto
next
  case (Cons tx txs)
  obtain q s1 where q: "apply_transaction c tx s = (q, s1)" by fastforce
  show ?case
  proof (cases q)
    case (Inl e)
    then have "s1 = s" using q failed_unchanged by blast
    with Inl q Cons.prems have "r = Inl e \<and> tx # txs = [] @ tx # txs \<and> applies_all c [] s s' \<and> apply_transaction c tx s' = (Inl e, s')"
      by simp
    then have "r = Inl e" "\<exists>before t after. tx # txs = before @ t # after \<and> applies_all c before s s' \<and> apply_transaction c t s' = (Inl e, s')"
      by blast+
    then show ?thesis by (simp only: sum.case)
  next
    case (Inr a)
    then have "a = None" using q apply_transaction_None by blast
    from Cons.prems q Inr have "apply_txs c txs (acc @ [a]) s1 = (r, s')" by simp
    from Cons.IH [OF this] show ?thesis
    proof (cases r)
      case (Inl e)
      with Cons.IH [OF \<open>apply_txs c txs (acc @ [a]) s1 = (r, s')\<close>] obtain before t after where
        "txs = before @ t # after" "applies_all c before s1 s'" "apply_transaction c t s' = (Inl e, s')" by auto
      with q Inr Inl show ?thesis by (auto intro: exI [of _ "tx # before"])
    qed (use q Inr \<open>a = None\<close> in simp)
  qed
qed

lemma dispatch_root: "dispatch c t tx s = (r, s') \<Longrightarrow> lg_state_root s' = lg_state_root s"
  by (cases t) (auto simp: handler_defs Let_def split: if_splits option.splits prod.splits sum.splits)

lemma applies_all_frame: "applies_all c txs s s' \<Longrightarrow> lg_height s' = lg_height s \<and> lg_state_root s' = lg_state_root s"
  by (induction txs arbitrary: s)
    (auto simp: apply_transaction_def dest: dispatch_height dispatch_root split: prod.splits sum.splits if_splits)

text \<open>C10. Finalizing a block. Either every transaction applies, in order, and then the height advances by one, the root is
  that of the new state and no receipt identifier is returned; or one transaction fails, and then its error is returned,
  the ledger keeps the effects of the transactions before it and has none of the later ones, and its height and its
  recorded root are those from before the block, so that the root does not commit to the effects kept.\<close>

theorem finalize_block_exact:
  assumes "finalize_block c blk s = (r, s')"
  shows "case r of
      Inr ids \<Rightarrow> ids = [] \<and> (\<exists>s1. applies_all c (b_transactions blk) s s1 \<and> lg_settlement s' = lg_settlement s1 \<and>
        lg_intelligence_receipts s' = lg_intelligence_receipts s1) \<and>
        lg_height s' = lg_height s + 1 \<and> lg_state_root s' = root_hash c s'
    | Inl e \<Rightarrow> (\<exists>before tx after. b_transactions blk = before @ tx # after \<and> applies_all c before s s' \<and>
        apply_transaction c tx s' = (Inl e, s')) \<and> lg_height s' = lg_height s \<and> lg_state_root s' = lg_state_root s"
proof -
  obtain r1 s1 where b: "apply_txs c (b_transactions blk) [] s = (r1, s1)" by fastforce
  show ?thesis
  proof (cases r1)
    case (Inl e)
    with apply_txs_exact [OF b] obtain before tx after where
      "b_transactions blk = before @ tx # after" "applies_all c before s s1" "apply_transaction c tx s1 = (Inl e, s1)" by auto
    moreover from Inl assms b have "r = Inl e" "s' = s1" by (auto simp: finalize_block_def apply_block_transactions_def)
    ultimately show ?thesis using applies_all_frame by auto
  next
    case (Inr rs)
    with apply_txs_exact [OF b] have "rs = replicate (length (b_transactions blk)) None" "applies_all c (b_transactions blk) s s1" by auto
    then show ?thesis using assms b Inr applies_all_frame
      by (auto simp: finalize_block_def apply_block_transactions_def compute_state_root_def increment_height_def
          root_hash_def Let_def)
  qed
qed

theorem finalize_block_exact_witness:
  "let d = new_escrow_deposit toy_crypto (replicate 32 1) 900; f = new_escrow_refund toy_crypto (replicate 32 2);
       b = block_new \<lparr>bh_height = 1, bh_timestamp = 0, bh_parent_hash = zero32, bh_state_root = zero32,
         bh_receipts_root = zero32, bh_validator_set_hash = zero32\<rparr> [d, f, d];
       s' = snd (finalize_block toy_crypto b ledger_new)
   in lg_height s' = 0 \<and> lg_state_root s' = zero32 \<and> get_escrow (lg_settlement s') (replicate 32 1) \<noteq> None"
proof -
  let ?d = "new_escrow_deposit toy_crypto (replicate 32 1) 900" and ?f = "new_escrow_refund toy_crypto (replicate 32 2)"
  let ?b = "block_new \<lparr>bh_height = 1, bh_timestamp = 0, bh_parent_hash = zero32, bh_state_root = zero32,
         bh_receipts_root = zero32, bh_validator_set_hash = zero32\<rparr> [?d, ?f, ?d]"
  let ?s = "ledger_new\<lparr>lg_settlement := create_escrow (replicate 32 1) zero32 900 0 500 settlement_new\<rparr>"
  have ne: "replicate 32 (2 :: u8) \<noteq> replicate 32 1" by (simp add: replicate_eq_replicate)
  have "apply_transaction toy_crypto ?d ledger_new = (Inr None, ?s)" by (simp add: deposit_applies ledger_new_def)
  moreover have "apply_transaction toy_crypto ?f ?s = (Inl EscrowNotFound, ?s)"
    using ne by (simp add: refund_applies refund_escrow_def create_escrow_def settlement_new_def)
  ultimately have f: "finalize_block toy_crypto ?b ledger_new = (Inl EscrowNotFound, ?s)"
    by (simp add: finalize_block_def block_new_def apply_block_transactions_def)
  have "lg_height ?s = lg_height ledger_new \<and> lg_state_root ?s = lg_state_root ledger_new"
    using finalize_block_exact [OF f] unfolding sum.case by blast
  then show ?thesis by (simp add: f get_escrow_def create_escrow_def Let_def) (simp add: ledger_new_def)
qed

end
