(* ===== verification/Staking.thy ===== *)
theory Staking
  imports Prelude
begin

text \<open>
  The stake-weighted validator set, \<open>crates/truth/src/validator_set.rs\<close>: validators and delegators in
  \<open>BTreeMap\<close>s, the life cycle of a validator, slashing, delegation and the stake quorum. Of the file
  only \<open>uptime_percentage\<close>, a read in \<open>f64\<close>, is left out.
\<close>

datatype vs_status = VsPending | VsActive | VsUnbonding | VsJailed | VsRemoved

record vs_metadata =
  vm_endpoint :: string
  vm_name :: string
  vm_commission_rate :: u32
  vm_uptime_blocks :: u64
  vm_missed_blocks :: u64

record vs_validator =
  vv_id :: bytes32
  vv_public_key :: bytes
  vv_stake :: u64
  vv_delegated_stake :: u64
  vv_total_stake :: u64
  vv_status :: vs_status
  vv_metadata :: vs_metadata
  vv_joined_at :: u64
  vv_unbonding_start :: "u64 option"

definition vs_validator_new :: "bytes32 \<Rightarrow> bytes \<Rightarrow> u64 \<Rightarrow> vs_validator" where
  "vs_validator_new i public_key stake =
     \<lparr>vv_id = i, vv_public_key = public_key, vv_stake = stake, vv_delegated_stake = 0,
      vv_total_stake = stake, vv_status = VsPending,
      vv_metadata = \<lparr>vm_endpoint = [], vm_name = [], vm_commission_rate = 500, vm_uptime_blocks = 0, vm_missed_blocks = 0\<rparr>,
      vv_joined_at = 0, vv_unbonding_start = None\<rparr>"

definition vs_activate :: "u64 \<Rightarrow> vs_validator \<Rightarrow> vs_validator" where
  "vs_activate timestamp v = v\<lparr>vv_status := VsActive, vv_joined_at := timestamp\<rparr>"

definition vs_add_delegation :: "u64 \<Rightarrow> vs_validator \<Rightarrow> vs_validator" where
  "vs_add_delegation amount v =
     (let d = vv_delegated_stake v + amount in v\<lparr>vv_delegated_stake := d, vv_total_stake := vv_stake v + d\<rparr>)"

definition vs_remove_delegation :: "u64 \<Rightarrow> vs_validator \<Rightarrow> vs_validator" where
  "vs_remove_delegation amount v =
     (let d = saturating_sub (vv_delegated_stake v) amount
      in v\<lparr>vv_delegated_stake := d, vv_total_stake := vv_stake v + d\<rparr>)"

definition voting_power :: "u64 \<Rightarrow> vs_validator \<Rightarrow> u64" where
  "voting_power total_stake v = (if total_stake = 0 then 0 else (vv_total_stake v * 10000) div total_stake)"

record vs_delegator =
  vd_id :: bytes32
  vd_validator_id :: bytes32
  vd_staked_amount :: u64
  vd_rewards_accumulated :: u64

definition vs_delegator_new :: "bytes32 \<Rightarrow> bytes32 \<Rightarrow> u64 \<Rightarrow> vs_delegator" where
  "vs_delegator_new i validator_id amount =
     \<lparr>vd_id = i, vd_validator_id = validator_id, vd_staked_amount = amount, vd_rewards_accumulated = 0\<rparr>"

definition vs_add_rewards :: "u64 \<Rightarrow> vs_delegator \<Rightarrow> vs_delegator" where
  "vs_add_rewards amount d = d\<lparr>vd_rewards_accumulated := vd_rewards_accumulated d + amount\<rparr>"

datatype vs_slash_type = SlDoubleSign | SlDoublePropose | SlSurroundVote | SlUnavailable | SlInvalidVote

record vs_slash_event =
  se_validator_id :: bytes32
  se_slash_type :: vs_slash_type
  se_evidence :: bytes
  se_block_height :: u64
  se_slash_percentage :: u32
  se_timestamp :: u64

definition vs_slash_amount :: "vs_slash_event \<Rightarrow> u64 \<Rightarrow> u64" where
  "vs_slash_amount ev stake = (stake * ucast (se_slash_percentage ev)) div 100"

datatype staking_error =
    ValidatorExists | ValidatorNotFound | DelegatorNotFound | InsufficientValidatorStake
  | InvalidStateTransition | SlashAmountTooLarge

record validator_set =
  vs_validators :: "(bytes32 \<times> vs_validator) list"
  vs_delegators :: "(bytes32 \<times> vs_delegator) list"
  vs_total_stake :: u64
  vs_active_count :: u32
  vs_current_epoch :: u64

definition validator_set_new :: validator_set where
  "validator_set_new =
     \<lparr>vs_validators = [], vs_delegators = [], vs_total_stake = 0, vs_active_count = 0, vs_current_epoch = 0\<rparr>"

definition add_validator :: "vs_validator \<Rightarrow> u64 \<Rightarrow> (staking_error, unit, validator_set) op" where
  "add_validator v min_stake s =
     (if vv_stake v < min_stake then (Inl InsufficientValidatorStake, s)
      else if map_of (vs_validators s) (vv_id v) \<noteq> None then (Inl ValidatorExists, s)
      else (Inr (), s\<lparr>vs_validators := bt_insert (vv_id v) (v\<lparr>vv_status := VsPending\<rparr>) (vs_validators s),
                      vs_total_stake := vs_total_stake s + vv_total_stake v\<rparr>))"

text \<open>\<open>validators.get_mut(id)\<close> and a write back.\<close>

definition set_validator :: "bytes32 \<Rightarrow> vs_validator \<Rightarrow> validator_set \<Rightarrow> validator_set" where
  "set_validator i v s = s\<lparr>vs_validators := bt_insert i v (vs_validators s)\<rparr>"

definition activate_validator :: "bytes32 \<Rightarrow> u64 \<Rightarrow> (staking_error, unit, validator_set) op" where
  "activate_validator i timestamp s =
     (case map_of (vs_validators s) i of
        None \<Rightarrow> (Inl ValidatorNotFound, s)
      | Some v \<Rightarrow>
          if vv_status v \<noteq> VsPending then (Inl InvalidStateTransition, s)
          else (Inr (), (set_validator i (vs_activate timestamp v) s)\<lparr>vs_active_count := vs_active_count s + 1\<rparr>))"

definition remove_validator :: "bytes32 \<Rightarrow> (staking_error, vs_validator, validator_set) op" where
  "remove_validator i s =
     (case map_of (vs_validators s) i of
        None \<Rightarrow> (Inl ValidatorNotFound, s)
      | Some v \<Rightarrow>
          (Inr v, s\<lparr>vs_validators := bt_remove i (vs_validators s),
                    vs_total_stake := saturating_sub (vs_total_stake s) (vv_total_stake v),
                    vs_active_count := (if vv_status v = VsActive then saturating_sub (vs_active_count s) 1
                                        else vs_active_count s)\<rparr>))"

definition start_unbonding :: "bytes32 \<Rightarrow> u64 \<Rightarrow> (staking_error, unit, validator_set) op" where
  "start_unbonding i timestamp s =
     (case map_of (vs_validators s) i of
        None \<Rightarrow> (Inl ValidatorNotFound, s)
      | Some v \<Rightarrow>
          if vv_status v \<noteq> VsActive then (Inl InvalidStateTransition, s)
          else (Inr (), (set_validator i (v\<lparr>vv_status := VsUnbonding, vv_unbonding_start := Some timestamp\<rparr>) s)
                  \<lparr>vs_active_count := saturating_sub (vs_active_count s) 1\<rparr>))"

definition complete_unbonding :: "bytes32 \<Rightarrow> (staking_error, u64, validator_set) op" where
  "complete_unbonding i s =
     (case map_of (vs_validators s) i of
        None \<Rightarrow> (Inl ValidatorNotFound, s)
      | Some v \<Rightarrow>
          if vv_status v \<noteq> VsUnbonding then (Inl InvalidStateTransition, s)
          else (Inr (vv_stake v), (set_validator i (v\<lparr>vv_status := VsRemoved, vv_unbonding_start := None\<rparr>) s)
                  \<lparr>vs_total_stake := saturating_sub (vs_total_stake s) (vv_total_stake v)\<rparr>))"

text \<open>The status is overwritten before it is compared, so the second branch is never taken.\<close>

definition jail_validator :: "bytes32 \<Rightarrow> (staking_error, unit, validator_set) op" where
  "jail_validator i s =
     (case map_of (vs_validators s) i of
        None \<Rightarrow> (Inl ValidatorNotFound, s)
      | Some v \<Rightarrow>
          let v' = v\<lparr>vv_status := VsJailed\<rparr>; s' = set_validator i v' s
          in (Inr (), if vv_status v' = VsActive
                      then s'\<lparr>vs_active_count := saturating_sub (vs_active_count s) 1\<rparr> else s'))"

definition unjail_validator :: "bytes32 \<Rightarrow> (staking_error, unit, validator_set) op" where
  "unjail_validator i s =
     (case map_of (vs_validators s) i of
        None \<Rightarrow> (Inl ValidatorNotFound, s)
      | Some v \<Rightarrow>
          if vv_status v \<noteq> VsJailed then (Inl InvalidStateTransition, s)
          else (Inr (), (set_validator i (v\<lparr>vv_status := VsActive\<rparr>) s)\<lparr>vs_active_count := vs_active_count s + 1\<rparr>))"

definition slash_validator :: "vs_slash_event \<Rightarrow> (staking_error, u64, validator_set) op" where
  "slash_validator ev s =
     (case map_of (vs_validators s) (se_validator_id ev) of
        None \<Rightarrow> (Inl ValidatorNotFound, s)
      | Some v \<Rightarrow>
          let amount = vs_slash_amount ev (vv_stake v);
              stake' = saturating_sub (vv_stake v) amount;
              v' = v\<lparr>vv_stake := stake', vv_total_stake := stake' + vv_delegated_stake v\<rparr>;
              total' = saturating_sub (vs_total_stake s) amount
          in if se_slash_type ev \<in> {SlDoubleSign, SlDoublePropose}
             then (Inr amount, (set_validator (se_validator_id ev) (v'\<lparr>vv_status := VsJailed\<rparr>) s)
                    \<lparr>vs_total_stake := total', vs_active_count := saturating_sub (vs_active_count s) 1\<rparr>)
             else (Inr amount, (set_validator (se_validator_id ev) v' s)\<lparr>vs_total_stake := total'\<rparr>))"

text \<open>A new delegator is entered with the amount, and the amount is then added to its entry.\<close>

definition delegate :: "bytes32 \<Rightarrow> bytes32 \<Rightarrow> u64 \<Rightarrow> (staking_error, unit, validator_set) op" where
  "delegate delegator_id validator_id amount s =
     (case map_of (vs_validators s) validator_id of
        None \<Rightarrow> (Inl ValidatorNotFound, s)
      | Some v \<Rightarrow>
          if vv_status v \<noteq> VsActive then (Inl InvalidStateTransition, s)
          else
            let d = (case map_of (vs_delegators s) delegator_id of
                       Some d \<Rightarrow> d | None \<Rightarrow> vs_delegator_new delegator_id validator_id amount)
            in (Inr (), (set_validator validator_id (vs_add_delegation amount v) s)
                  \<lparr>vs_delegators := bt_insert delegator_id (d\<lparr>vd_staked_amount := vd_staked_amount d + amount\<rparr>) (vs_delegators s),
                   vs_total_stake := vs_total_stake s + amount\<rparr>))"

definition undelegate :: "bytes32 \<Rightarrow> u64 \<Rightarrow> (staking_error, u64, validator_set) op" where
  "undelegate delegator_id amount s =
     (case map_of (vs_delegators s) delegator_id of
        None \<Rightarrow> (Inl DelegatorNotFound, s)
      | Some d \<Rightarrow>
          (case map_of (vs_validators s) (vd_validator_id d) of
             None \<Rightarrow> (Inl ValidatorNotFound, s)
           | Some v \<Rightarrow>
               let actual = min amount (vd_staked_amount d)
               in (Inr actual, (set_validator (vd_validator_id d) (vs_remove_delegation actual v) s)
                    \<lparr>vs_delegators := bt_insert delegator_id
                        (d\<lparr>vd_staked_amount := saturating_sub (vd_staked_amount d) actual\<rparr>) (vs_delegators s),
                     vs_total_stake := saturating_sub (vs_total_stake s) actual\<rparr>)))"

definition get_validator :: "validator_set \<Rightarrow> bytes32 \<Rightarrow> vs_validator option" where
  "get_validator s i = map_of (vs_validators s) i"

definition get_active_validators :: "validator_set \<Rightarrow> vs_validator list" where
  "get_active_validators s = [v \<leftarrow> map snd (vs_validators s). vv_status v = VsActive]"

text \<open>\<open>sort_by(|a, b| b.total_stake.cmp(&a.total_stake))\<close> is a stable sort by descending stake.\<close>

definition get_top_validators :: "nat \<Rightarrow> validator_set \<Rightarrow> vs_validator list" where
  "get_top_validators n s = take n (sort_key (\<lambda>v. - int (unat (vv_total_stake v))) (get_active_validators s))"

definition quorum_threshold :: "validator_set \<Rightarrow> u64" where
  "quorum_threshold s = (vs_total_stake s * 2) div 3 + 1"

definition has_stake_quorum :: "u64 \<Rightarrow> validator_set \<Rightarrow> bool" where
  "has_stake_quorum pw s \<longleftrightarrow> quorum_threshold s \<le> pw"

definition vs_advance_epoch :: "u64 \<Rightarrow> validator_set \<Rightarrow> validator_set" where
  "vs_advance_epoch new_epoch s = s\<lparr>vs_current_epoch := new_epoch\<rparr>"

section \<open>The stake total\<close>

text \<open>The stake a validator contributes to the total: all of it until it is removed.\<close>

definition live_stake :: "vs_validator \<Rightarrow> nat" where
  "live_stake v = (if vv_status v = VsRemoved then 0 else unat (vv_total_stake v))"

text \<open>The recorded total of a validator is its own stake plus its delegations.\<close>

definition stake_adds_up :: "vs_validator \<Rightarrow> bool" where
  "stake_adds_up v \<longleftrightarrow> unat (vv_total_stake v) = unat (vv_stake v) + unat (vv_delegated_stake v)"

definition staking_wf :: "validator_set \<Rightarrow> bool" where
  "staking_wf s \<longleftrightarrow> bt_wf (vs_validators s) \<and> bt_wf (vs_delegators s) \<and>
     (\<forall>i v. map_of (vs_validators s) i = Some v \<longrightarrow> vv_id v = i \<and> stake_adds_up v) \<and>
     unat (vs_total_stake s) = total live_stake (vs_validators s)"

text \<open>The calls of \<open>ValidatorSet\<close> that change it, with any arguments.\<close>

datatype staking_call = CallAdd vs_validator u64 | CallActivate bytes32 u64 | CallRemove bytes32
  | CallStartUnbonding bytes32 u64 | CallCompleteUnbonding bytes32 | CallJail bytes32 | CallUnjail bytes32
  | CallSlash vs_slash_event | CallDelegate bytes32 bytes32 u64 | CallUndelegate bytes32 u64 | CallEpoch u64

fun staking_after :: "staking_call \<Rightarrow> validator_set \<Rightarrow> validator_set" where
  "staking_after (CallAdd v min_stake) s = snd (add_validator v min_stake s)"
| "staking_after (CallActivate i t) s = snd (activate_validator i t s)"
| "staking_after (CallRemove i) s = snd (remove_validator i s)"
| "staking_after (CallStartUnbonding i t) s = snd (start_unbonding i t s)"
| "staking_after (CallCompleteUnbonding i) s = snd (complete_unbonding i s)"
| "staking_after (CallJail i) s = snd (jail_validator i s)"
| "staking_after (CallUnjail i) s = snd (unjail_validator i s)"
| "staking_after (CallSlash ev) s = snd (slash_validator ev s)"
| "staking_after (CallDelegate d i amount) s = snd (delegate d i amount s)"
| "staking_after (CallUndelegate d amount) s = snd (undelegate d amount s)"
| "staking_after (CallEpoch e) s = vs_advance_epoch e s"

text \<open>
  The total does not overflow by the call, as a build with overflow checks demands of an addition.
\<close>

fun stake_fits :: "staking_call \<Rightarrow> validator_set \<Rightarrow> bool" where
  "stake_fits (CallAdd v min_stake) s \<longleftrightarrow> unat (vs_total_stake s) + unat (vv_total_stake v) < 2 ^ 64"
| "stake_fits (CallDelegate d i amount) s \<longleftrightarrow> unat (vs_total_stake s) + unat amount < 2 ^ 64"
| "stake_fits call s \<longleftrightarrow> True"

text \<open>
  The total follows a call. It does not where a validator is added whose total is not its stake plus its
  delegations; where a removed validator, whose stake has left the total, is taken out, jailed, slashed or
  undelegated from; where a slash is above the stake; and where more is taken back than the validator
  holds in delegations. The comparisons with the total are the cases in which the saturating subtraction
  from it takes nothing or everything.
\<close>

fun accounted :: "staking_call \<Rightarrow> validator_set \<Rightarrow> bool" where
  "accounted (CallAdd v min_stake) s \<longleftrightarrow>
     vv_stake v < min_stake \<or> get_validator s (vv_id v) \<noteq> None \<or> stake_adds_up v"
| "accounted (CallRemove i) s \<longleftrightarrow>
     (case get_validator s i of None \<Rightarrow> True
      | Some v \<Rightarrow> vv_status v = VsRemoved \<longrightarrow> vv_total_stake v = 0 \<or> vs_total_stake s = 0)"
| "accounted (CallJail i) s \<longleftrightarrow>
     (case get_validator s i of None \<Rightarrow> True | Some v \<Rightarrow> vv_status v = VsRemoved \<longrightarrow> vv_total_stake v = 0)"
| "accounted (CallSlash ev) s \<longleftrightarrow>
     (case get_validator s (se_validator_id ev) of None \<Rightarrow> True
      | Some v \<Rightarrow>
          let amount = vs_slash_amount ev (vv_stake v)
          in if vv_status v = VsRemoved
             then (amount = 0 \<or> vs_total_stake s = 0) \<and>
               (se_slash_type ev \<in> {SlDoubleSign, SlDoublePropose} \<longrightarrow>
                  vv_stake v \<le> amount \<and> vv_delegated_stake v = 0)
             else amount \<le> vv_stake v \<or> vs_total_stake s \<le> vv_stake v)"
| "accounted (CallUndelegate d amount) s \<longleftrightarrow>
     (case map_of (vs_delegators s) d of None \<Rightarrow> True
      | Some dl \<Rightarrow>
          (case get_validator s (vd_validator_id dl) of None \<Rightarrow> True
           | Some v \<Rightarrow>
               let actual = min amount (vd_staked_amount dl)
               in if vv_status v = VsRemoved then actual = 0 \<or> vs_total_stake s = 0
                  else actual \<le> vv_delegated_stake v \<or> vs_total_stake s \<le> vv_delegated_stake v))"
| "accounted call s \<longleftrightarrow> True"

inductive staking_step :: "validator_set \<Rightarrow> validator_set \<Rightarrow> bool" where
  "stake_fits call s \<Longrightarrow> accounted call s \<Longrightarrow> staking_step s (staking_after call s)"

subsection \<open>One validator rewritten\<close>

lemma staking_wfD:
  assumes "staking_wf s" and "map_of (vs_validators s) i = Some v"
  shows "vv_id v = i" and "unat (vv_total_stake v) = unat (vv_stake v) + unat (vv_delegated_stake v)"
  using assms by (auto simp: staking_wf_def stake_adds_up_def)

lemma live_split:
  assumes "staking_wf s" and "map_of (vs_validators s) i = Some v"
  shows "unat (vs_total_stake s) = live_stake v + total live_stake (bt_remove i (vs_validators s))"
  using assms bt.total_split [of "vs_validators s" i v live_stake] by (simp add: staking_wf_def)

lemma live_le: "staking_wf s \<Longrightarrow> map_of (vs_validators s) i = Some v \<Longrightarrow> live_stake v \<le> unat (vs_total_stake s)"
  by (simp add: live_split)

lemma staking_wf_set:
  assumes w: "staking_wf s" and g: "map_of (vs_validators s) i = Some v" and v': "vv_id v' = vv_id v"
    and s': "vs_validators s' = bt_insert i v' (vs_validators s)" "bt_wf (vs_delegators s')"
  shows "staking_wf s' \<longleftrightarrow> stake_adds_up v' \<and>
    unat (vs_total_stake s') + live_stake v = unat (vs_total_stake s) + live_stake v'"
proof -
  have bw: "bt_wf (vs_validators s)" using w by (simp add: staking_wf_def)
  have "total live_stake (vs_validators s') = live_stake v' + total live_stake (bt_remove i (vs_validators s))"
    by (simp add: s' bt.total_insert [OF bw])
  with live_split [OF w g] have "unat (vs_total_stake s') = total live_stake (vs_validators s') \<longleftrightarrow>
      unat (vs_total_stake s') + live_stake v = unat (vs_total_stake s) + live_stake v'" by linarith
  moreover have "(\<forall>j u. map_of (vs_validators s') j = Some u \<longrightarrow> vv_id u = j \<and> stake_adds_up u) \<longleftrightarrow> stake_adds_up v'"
    using w g v' by (auto simp: s' bt.get_insert [OF bw] staking_wf_def)
  ultimately show ?thesis using s'(2) bt.wf_insert [OF bw] by (simp add: staking_wf_def s'(1))
qed

lemma staking_wf_delegators: "staking_wf s \<Longrightarrow> bt_wf (vs_delegators s)"
  by (simp add: staking_wf_def)

text \<open>A saturating subtraction that leaves a number as it was, or above.\<close>

lemma diff_cancels [simp]:
  "a - b = a \<longleftrightarrow> b = 0 \<or> a = (0 :: nat)" "a - b = a + c \<longleftrightarrow> c = 0 \<and> (b = 0 \<or> a = (0 :: nat))"
  by auto

lemmas set_defs = set_validator_def vs_activate_def live_stake_def

lemma staking_wf_add:
  assumes w: "staking_wf s" and fits: "unat (vs_total_stake s) + unat (vv_total_stake v) < 2 ^ 64"
  shows "staking_wf (snd (add_validator v min_stake s)) \<longleftrightarrow>
    vv_stake v < min_stake \<or> get_validator s (vv_id v) \<noteq> None \<or> stake_adds_up v"
proof (cases "vv_stake v < min_stake \<or> get_validator s (vv_id v) \<noteq> None")
  case True
  with w show ?thesis by (auto simp: add_validator_def get_validator_def)
next
  case False
  let ?v = "v\<lparr>vv_status := VsPending\<rparr>" and ?s' = "snd (add_validator v min_stake s)"
  have new: "map_of (vs_validators s) (vv_id v) = None" using False by (simp add: get_validator_def)
  have bw: "bt_wf (vs_validators s)" using w by (simp add: staking_wf_def)
  have s': "?s' = s\<lparr>vs_validators := bt_insert (vv_id v) ?v (vs_validators s), vs_total_stake := vs_total_stake s + vv_total_stake v\<rparr>"
    using False new by (simp add: add_validator_def)
  have "total live_stake (vs_validators ?s') = unat (vv_total_stake v) + total live_stake (vs_validators s)"
    unfolding s' using bt.total_insert_new [OF bw new, of live_stake ?v] by (simp add: live_stake_def)
  moreover have "unat (vs_total_stake ?s') = unat (vs_total_stake s) + unat (vv_total_stake v)"
    using fits by (simp add: s' unat_add_no_wrap)
  moreover have "(\<forall>j u. map_of (vs_validators ?s') j = Some u \<longrightarrow> vv_id u = j \<and> stake_adds_up u) \<longleftrightarrow> stake_adds_up v"
    using w new by (auto simp: s' bt.get_insert [OF bw] staking_wf_def stake_adds_up_def)
  ultimately show ?thesis using False w bt.wf_insert [OF bw] by (auto simp: staking_wf_def s')
qed

text \<open>Operations that change the status of a validator that is not removed, and no stake.\<close>

lemma staking_wf_status:
  assumes "staking_wf s" "map_of (vs_validators s) i = Some v" "vv_status v \<noteq> VsRemoved"
    and "vs_validators s' = bt_insert i v' (vs_validators s)" "vs_delegators s' = vs_delegators s"
    and "vs_total_stake s' = vs_total_stake s"
    and "vv_id v' = vv_id v" "vv_total_stake v' = vv_total_stake v" "vv_stake v' = vv_stake v"
      "vv_delegated_stake v' = vv_delegated_stake v" "vv_status v' \<noteq> VsRemoved"
  shows "staking_wf s'"
  using staking_wf_set [OF assms(1,2) assms(7) assms(4)] assms staking_wfD [OF assms(1,2)] staking_wf_delegators
  by (auto simp: live_stake_def stake_adds_up_def)

lemma staking_wf_activate: "staking_wf s \<Longrightarrow> staking_wf (snd (activate_validator i t s))"
  by (auto simp: activate_validator_def set_defs split: option.splits if_splits intro: staking_wf_status)

lemma staking_wf_start_unbonding: "staking_wf s \<Longrightarrow> staking_wf (snd (start_unbonding i t s))"
  by (auto simp: start_unbonding_def set_defs split: option.splits if_splits intro: staking_wf_status)

lemma staking_wf_unjail: "staking_wf s \<Longrightarrow> staking_wf (snd (unjail_validator i s))"
  by (auto simp: unjail_validator_def set_defs split: option.splits if_splits intro: staking_wf_status)

lemma staking_wf_jail: "staking_wf s \<Longrightarrow> staking_wf (snd (jail_validator i s)) \<longleftrightarrow> accounted (CallJail i) s"
proof -
  assume w: "staking_wf s"
  have "staking_wf (snd (jail_validator i s)) \<longleftrightarrow> accounted (CallJail i) s" if g: "map_of (vs_validators s) i = Some v" for v
    using staking_wf_set [OF w g, of "v\<lparr>vv_status := VsJailed\<rparr>" "snd (jail_validator i s)"] g w staking_wfD(2) [OF w g]
    by (auto simp: jail_validator_def set_defs get_validator_def Let_def staking_wf_delegators stake_adds_up_def unat_eq_0)
  with w show ?thesis by (cases "map_of (vs_validators s) i") (auto simp: jail_validator_def get_validator_def)
qed

lemma staking_wf_complete_unbonding:
  assumes w: "staking_wf s"
  shows "staking_wf (snd (complete_unbonding i s))"
proof -
  have "staking_wf (snd (complete_unbonding i s))" if g: "map_of (vs_validators s) i = Some v" "vv_status v = VsUnbonding" for v
    using staking_wf_set [OF w g(1), of "v\<lparr>vv_status := VsRemoved, vv_unbonding_start := None\<rparr>" "snd (complete_unbonding i s)"]
      g staking_wfD [OF w g(1)] live_le [OF w g(1)] w
    by (auto simp: complete_unbonding_def set_defs unat_saturating_sub staking_wf_delegators stake_adds_up_def)
  with w show ?thesis by (auto simp: complete_unbonding_def split: option.splits if_splits)
qed

lemma staking_wf_remove:
  assumes w: "staking_wf s"
  shows "staking_wf (snd (remove_validator i s)) \<longleftrightarrow> accounted (CallRemove i) s"
proof (cases "map_of (vs_validators s) i")
  case None
  with w show ?thesis by (simp add: remove_validator_def get_validator_def)
next
  case (Some v)
  let ?s' = "snd (remove_validator i s)"
  have bw: "bt_wf (vs_validators s)" using w by (simp add: staking_wf_def)
  have f: "vs_validators ?s' = bt_remove i (vs_validators s)" "vs_delegators ?s' = vs_delegators s"
      "unat (vs_total_stake ?s') = unat (vs_total_stake s) - unat (vv_total_stake v)"
    using Some by (simp_all add: remove_validator_def unat_saturating_sub)
  have "staking_wf ?s' \<longleftrightarrow> unat (vs_total_stake ?s') = total live_stake (bt_remove i (vs_validators s))"
    using w Some bw bt.wf_remove [OF bw] by (auto simp: staking_wf_def f bt.get_remove)
  also have "\<dots> \<longleftrightarrow> unat (vs_total_stake s) - unat (vv_total_stake v) + live_stake v = unat (vs_total_stake s)"
    using live_split [OF w Some] f(3) by linarith
  also have "\<dots> \<longleftrightarrow> accounted (CallRemove i) s"
    using live_le [OF w Some] Some by (auto simp: live_stake_def get_validator_def unat_eq_0)
  finally show ?thesis .
qed

lemma percent_of_stake: "unat (se_slash_percentage ev) \<le> 100 \<Longrightarrow> unat (vs_slash_amount ev stake) \<le> unat stake"
proof -
  assume p: "unat (se_slash_percentage ev) \<le> 100"
  have "unat (stake * ucast (se_slash_percentage ev) :: u64) \<le> unat stake * unat (ucast (se_slash_percentage ev) :: u64)"
    by (simp add: unat_word_ariths)
  also have "\<dots> \<le> unat stake * 100"
    using p by simp
  finally have "unat (stake * ucast (se_slash_percentage ev) :: u64) div 100 \<le> unat stake * 100 div 100"
    by (rule div_le_mono)
  then show ?thesis by (simp add: vs_slash_amount_def unat_div)
qed

lemma staking_wf_slash:
  assumes w: "staking_wf s"
  shows "staking_wf (snd (slash_validator ev s)) \<longleftrightarrow> accounted (CallSlash ev) s"
proof (cases "map_of (vs_validators s) (se_validator_id ev)")
  case None
  with w show ?thesis by (simp add: slash_validator_def get_validator_def)
next
  case (Some v)
  let ?a = "vs_slash_amount ev (vv_stake v)" and ?s' = "snd (slash_validator ev s)"
  let ?jail = "se_slash_type ev \<in> {SlDoubleSign, SlDoublePropose}"
  define st where "st = saturating_sub (vv_stake v) ?a"
  define v' where "v' = v\<lparr>vv_stake := st, vv_total_stake := st + vv_delegated_stake v,
    vv_status := (if ?jail then VsJailed else vv_status v)\<rparr>"
  have tot: "unat (vv_total_stake v) = unat (vv_stake v) + unat (vv_delegated_stake v)"
    by (rule staking_wfD(2) [OF w Some])
  have st: "unat st = unat (vv_stake v) - unat ?a" by (simp add: st_def unat_saturating_sub)
  with tot have new: "unat (st + vv_delegated_stake v) = unat st + unat (vv_delegated_stake v)"
    using unat_lt_u64 [of "vv_total_stake v"] by (intro unat_add_no_wrap) simp
  have s': "vs_validators ?s' = bt_insert (se_validator_id ev) v' (vs_validators s)"
      "vs_delegators ?s' = vs_delegators s" "vs_total_stake ?s' = saturating_sub (vs_total_stake s) ?a"
    using Some by (auto simp: slash_validator_def Let_def set_validator_def v'_def st_def)
  have "staking_wf ?s' \<longleftrightarrow>
      unat (vs_total_stake s) - unat ?a + live_stake v = unat (vs_total_stake s) + live_stake v'"
    using staking_wf_set [OF w Some, of v' ?s'] staking_wf_delegators [OF w] new
    by (simp add: s' stake_adds_up_def unat_saturating_sub) (simp add: v'_def)
  also have "\<dots> \<longleftrightarrow> accounted (CallSlash ev) s"
  proof (cases "vv_status v = VsRemoved")
    case True
    then show ?thesis using new st Some
      by (auto simp: v'_def live_stake_def get_validator_def Let_def word_le_nat_alt unat_eq_0)
  next
    case False
    then have "live_stake v = unat (vv_total_stake v)" "live_stake v' = unat st + unat (vv_delegated_stake v)"
      using new by (simp_all add: v'_def live_stake_def)
    then show ?thesis using False Some tot st live_le [OF w Some]
      by (auto simp: get_validator_def Let_def word_le_nat_alt)
  qed
  finally show ?thesis .
qed

lemma staking_wf_delegate:
  assumes w: "staking_wf s" and fits: "unat (vs_total_stake s) + unat amount < 2 ^ 64"
  shows "staking_wf (snd (delegate d i amount s))"
proof -
  have "staking_wf (snd (delegate d i amount s))" if g: "map_of (vs_validators s) i = Some v" and act: "vv_status v = VsActive" for v
  proof -
    have tot: "unat (vv_total_stake v) = unat (vv_stake v) + unat (vv_delegated_stake v)"
      by (rule staking_wfD(2) [OF w g])
    have "unat (vv_total_stake v) \<le> unat (vs_total_stake s)" using live_le [OF w g] act by (simp add: live_stake_def)
    then have d: "unat (vv_delegated_stake v + amount) = unat (vv_delegated_stake v) + unat amount"
        and t: "unat (vv_stake v + (vv_delegated_stake v + amount)) = unat (vv_stake v) + unat (vv_delegated_stake v + amount)"
      using fits tot by (auto simp: unat_add_no_wrap)
    show ?thesis
      using staking_wf_set [OF w g, of "vs_add_delegation amount v" "snd (delegate d i amount s)"] g act tot d t fits staking_wf_delegators [OF w]
      by (simp add: delegate_def Let_def set_validator_def vs_add_delegation_def live_stake_def unat_add_no_wrap stake_adds_up_def
          bt.wf_insert)
  qed
  with w show ?thesis by (auto simp: delegate_def split: option.splits if_splits)
qed

lemma staking_wf_undelegate:
  assumes w: "staking_wf s"
  shows "staking_wf (snd (undelegate d amount s)) \<longleftrightarrow> accounted (CallUndelegate d amount) s"
proof -
  have "staking_wf (snd (undelegate d amount s)) \<longleftrightarrow> accounted (CallUndelegate d amount) s"
    if dl: "map_of (vs_delegators s) d = Some dl" and g: "map_of (vs_validators s) (vd_validator_id dl) = Some v" for dl v
  proof -
    let ?m = "min amount (vd_staked_amount dl)" and ?s' = "snd (undelegate d amount s)"
    let ?v = "vs_remove_delegation ?m v"
    have tot: "unat (vv_total_stake v) = unat (vv_stake v) + unat (vv_delegated_stake v)"
      by (rule staking_wfD(2) [OF w g])
    then have new: "unat (vv_stake v + saturating_sub (vv_delegated_stake v) ?m) =
        unat (vv_stake v) + (unat (vv_delegated_stake v) - unat ?m)"
      using unat_lt_u64 [of "vv_total_stake v"] by (subst unat_add_no_wrap) (auto simp: unat_saturating_sub)
    have s': "vs_validators ?s' = bt_insert (vd_validator_id dl) ?v (vs_validators s)" "bt_wf (vs_delegators ?s')"
        "vs_total_stake ?s' = saturating_sub (vs_total_stake s) ?m"
      using dl g staking_wf_delegators [OF w] by (simp_all add: undelegate_def Let_def set_validator_def bt.wf_insert)
    have "staking_wf ?s' \<longleftrightarrow>
        unat (vs_total_stake s) - unat ?m + live_stake v = unat (vs_total_stake s) + live_stake ?v"
      using staking_wf_set [OF w g, of ?v ?s'] new s'
      by (simp add: stake_adds_up_def unat_saturating_sub) (simp add: vs_remove_delegation_def Let_def unat_saturating_sub)
    also have "\<dots> \<longleftrightarrow> accounted (CallUndelegate d amount) s"
    proof (cases "vv_status v = VsRemoved")
      case True
      then show ?thesis using dl g
        by (auto simp: live_stake_def vs_remove_delegation_def get_validator_def Let_def unat_eq_0)
    next
      case False
      then have "live_stake v = unat (vv_total_stake v)"
          "live_stake ?v = unat (vv_stake v) + (unat (vv_delegated_stake v) - unat ?m)"
        using new by (simp_all add: live_stake_def vs_remove_delegation_def Let_def)
      then show ?thesis using False dl g tot live_le [OF w g] by (auto simp: get_validator_def Let_def word_le_nat_alt)
    qed
    finally show ?thesis .
  qed
  with w show ?thesis by (auto simp: undelegate_def get_validator_def split: option.splits)
qed

text \<open>A call that fits keeps the total exact if and only if it is accounted.\<close>

lemma staking_after_wf:
  assumes "staking_wf s" "stake_fits call s"
  shows "staking_wf (staking_after call s) \<longleftrightarrow> accounted call s"
proof (cases call)
  case (CallEpoch e)
  with assms show ?thesis by (simp add: vs_advance_epoch_def staking_wf_def)
qed (use assms in \<open>simp_all del: accounted.simps(2,3,4,5) add: staking_wf_add staking_wf_activate staking_wf_start_unbonding
    staking_wf_complete_unbonding staking_wf_remove staking_wf_jail staking_wf_unjail staking_wf_slash staking_wf_delegate
    staking_wf_undelegate\<close>)

lemma staking_step_wf: "staking_step s s' \<Longrightarrow> staking_wf s \<Longrightarrow> staking_wf s'"
  by (induction rule: staking_step.induct) (simp add: staking_after_wf)

lemma staking_wf_new: "staking_wf validator_set_new"
  by (simp add: staking_wf_def validator_set_new_def bt.wf_empty)

interpretation staking_run: transition_system staking_step staking_wf "\<lambda>s. s = validator_set_new"
  by unfold_locales (auto intro: staking_step_wf staking_wf_new)

lemmas staking_reachable_wf = staking_run.reachable_inv [OF _ refl]

section \<open>The stake quorum\<close>

text \<open>The stake a member id stands for.\<close>

definition stake_of :: "validator_set \<Rightarrow> bytes32 \<Rightarrow> nat" where
  "stake_of s i = (case get_validator s i of None \<Rightarrow> 0 | Some v \<Rightarrow> live_stake v)"

lemma sum_stake_of: "staking_wf s \<Longrightarrow> sum (stake_of s) (dom (get_validator s)) = unat (vs_total_stake s)"
  using sum_map_of [of "vs_validators s" live_stake] bt.wf_distinct [of "vs_validators s"]
  by (simp add: staking_wf_def stake_of_def [abs_def] get_validator_def [abs_def])

text \<open>The shape of the maps, which every call keeps; with it, an exact total is all there is to well-formedness.\<close>

lemma staking_after_shape:
  assumes "staking_wf s"
  shows "bt_wf (vs_validators (staking_after call s)) \<and> bt_wf (vs_delegators (staking_after call s)) \<and>
    (\<forall>i v. get_validator (staking_after call s) i = Some v \<longrightarrow> vv_id v = i)"
proof -
  have s: "bt_wf (vs_validators s)" "bt_wf (vs_delegators s)" "\<And>i v. map_of (vs_validators s) i = Some v \<Longrightarrow> vv_id v = i"
    using assms by (auto simp: staking_wf_def)
  show ?thesis
    by (cases call)
      (use s in \<open>auto simp: get_validator_def add_validator_def activate_validator_def remove_validator_def start_unbonding_def
        complete_unbonding_def jail_validator_def unjail_validator_def slash_validator_def delegate_def undelegate_def
        vs_advance_epoch_def set_validator_def vs_activate_def vs_add_delegation_def vs_remove_delegation_def Let_def
        bt.wf_insert bt.wf_remove bt.get_insert bt.get_remove split: option.splits if_splits\<close>)
qed

text \<open>The total is exact: it is the sum of the stakes, and each validator's total is its stake plus its delegations.\<close>

definition total_exact :: "validator_set \<Rightarrow> bool" where
  "total_exact s \<longleftrightarrow> unat (vs_total_stake s) = (\<Sum>i \<in> dom (get_validator s). stake_of s i) \<and>
     (\<forall>i v. get_validator s i = Some v \<longrightarrow> unat (vv_total_stake v) = unat (vv_stake v) + unat (vv_delegated_stake v))"

lemma staking_wf_exact:
  assumes "bt_wf (vs_validators s) \<and> bt_wf (vs_delegators s) \<and> (\<forall>i v. get_validator s i = Some v \<longrightarrow> vv_id v = i)"
  shows "staking_wf s \<longleftrightarrow> total_exact s"
  using assms sum_map_of [of "vs_validators s" live_stake] bt.wf_distinct [of "vs_validators s"]
  by (auto simp: staking_wf_def total_exact_def stake_adds_up_def stake_of_def [abs_def] get_validator_def [abs_def])

interpretation stake_quorum: weighted_quorum
  "\<lambda>s. dom (get_validator s)" stake_of "\<lambda>s. unat (quorum_threshold s)"
  "\<lambda>s. staking_wf s \<and> 2 * unat (vs_total_stake s) < 2 ^ 64"
proof (unfold_locales, goal_cases)
  case (1 s)
  show ?case by (simp add: get_validator_def [abs_def] finite_dom_map_of)
next
  case (2 s)
  let ?t = "vs_total_stake s"
  have m: "unat (?t * 2) = unat ?t * 2" using 2 by (subst unat_mult_no_wrap) auto
  then have "unat (?t * 2 div 3) = unat ?t * 2 div 3" by (simp add: unat_div)
  moreover have "unat (?t * 2 div 3 + 1) = unat (?t * 2 div 3) + 1"
    using 2 m by (subst unat_add_no_wrap) (auto simp: unat_div)
  ultimately show ?case using 2 two_thirds_plus_one [of "unat ?t"]
    by (simp add: quorum_threshold_def sum_stake_of)
qed

section \<open>The top validators\<close>

section \<open>Properties\<close>

text \<open>C5. The calls of a validator set with any arguments: over every run in which the total does not overflow and each
  call is accounted, the recorded total stake is the sum of the stakes of the validators that are not removed, each of
  which is its own stake plus its delegations. In such a set a further call that does not overflow keeps this exactly
  when it is accounted.\<close>

theorem total_stake_is_sum:
  assumes "staking_step\<^sup>*\<^sup>* validator_set_new s"
  shows "total_exact s \<and>
    (\<forall>call. stake_fits call s \<longrightarrow> (total_exact (staking_after call s) \<longleftrightarrow> accounted call s))"
proof -
  have w: "staking_wf s" by (rule staking_reachable_wf [OF assms])
  then have "total_exact s" using staking_after_shape [OF w, of "CallEpoch 0"] staking_wf_exact [of s]
    by (simp add: vs_advance_epoch_def get_validator_def)
  with staking_after_wf [OF w] staking_wf_exact [OF staking_after_shape [OF w]] show ?thesis by simp
qed

definition example_set :: validator_set where
  "example_set = snd (delegate [9] [1] 50 (snd (activate_validator [1] 7 (snd (add_validator (vs_validator_new [1] [] 1000) 500 validator_set_new)))))"

lemma example_set_reachable: "staking_step\<^sup>*\<^sup>* validator_set_new example_set"
proof -
  let ?a = "snd (add_validator (vs_validator_new [1] [] 1000) 500 validator_set_new)"
  let ?b = "snd (activate_validator [1] 7 ?a)"
  have t: "vs_total_stake ?b = 1000"
    by (simp add: add_validator_def vs_validator_new_def validator_set_new_def activate_validator_def set_validator_def)
  have "staking_step validator_set_new ?a"
    using staking_step.intros [of "CallAdd (vs_validator_new [1] [] 1000) 500" validator_set_new]
    by (simp add: validator_set_new_def vs_validator_new_def stake_adds_up_def)
  moreover have "staking_step ?a ?b" using staking_step.intros [of "CallActivate [1] 7" ?a] by simp
  moreover have "staking_step ?b example_set"
    using staking_step.intros [of "CallDelegate [9] [1] 50" ?b] by (simp add: t example_set_def)
  ultimately show ?thesis by (meson rtranclp.rtrancl_into_rtrancl rtranclp.rtrancl_refl)
qed

lemma example_set_values:
  "vs_total_stake example_set = 1050" "get_validator example_set = [[1] \<mapsto> (vs_add_delegation 50 (vs_activate 7 (vs_validator_new [1] [] 1000)))]"
  "map_of (vs_delegators example_set) [9] = Some ((vs_delegator_new [9] [1] 50)\<lparr>vd_staked_amount := 100\<rparr>)"
  by (simp_all add: example_set_def add_validator_def vs_validator_new_def validator_set_new_def activate_validator_def
      set_validator_def vs_activate_def delegate_def Let_def vs_add_delegation_def get_validator_def [abs_def] vs_delegator_new_def fun_eq_iff)

text \<open>In the example, taking back the double of the first delegation breaks the total.\<close>

theorem total_stake_is_sum_witness:
  "total_exact example_set \<and> \<not> total_exact (staking_after (CallUndelegate [9] 100) example_set)"
proof -
  have "\<not> accounted (CallUndelegate [9] 100) example_set"
    by (simp add: example_set_values vs_delegator_new_def vs_add_delegation_def vs_activate_def vs_validator_new_def Let_def)
  moreover have "stake_fits (CallUndelegate [9] 100) example_set" by simp
  moreover note total_stake_is_sum [OF example_set_reachable]
  ultimately show ?thesis by blast
qed

text \<open>C8. In every set reached by calls that are accounted and do not overflow, while twice the total stake fits into 64 bits:
  two groups of validators whose stakes both reach the stake quorum share more than a third of the total stake, so in
  particular a validator.\<close>

theorem stake_quorums_overlap:
  assumes "staking_step\<^sup>*\<^sup>* validator_set_new s" and "2 * unat (vs_total_stake s) < 2 ^ 64"
    and "A \<subseteq> dom (get_validator s)" "B \<subseteq> dom (get_validator s)"
    and "has_stake_quorum (of_nat (sum (stake_of s) A)) s" "has_stake_quorum (of_nat (sum (stake_of s) B)) s"
  shows "unat (vs_total_stake s) < 3 * sum (stake_of s) (A \<inter> B)"
proof -
  have w: "staking_wf s" by (rule staking_reachable_wf [OF assms(1)])
  have le: "unat (quorum_threshold s) \<le> sum (stake_of s) X"
    if "X \<subseteq> dom (get_validator s)" "has_stake_quorum (of_nat (sum (stake_of s) X)) s" for X
  proof -
    have "unat (quorum_threshold s) \<le> sum (stake_of s) X mod 2 ^ LENGTH(64)"
      using that(2) unfolding has_stake_quorum_def word_le_nat_alt unat_of_nat .
    also have "\<dots> \<le> sum (stake_of s) X" by (rule mod_less_eq_dividend)
    finally show ?thesis .
  qed
  from stake_quorum.quorum_overlap [of s A B] le assms w sum_stake_of [OF w] show ?thesis by simp
qed

theorem stake_quorums_overlap_witness:
  "unat (vs_total_stake example_set) < 3 * sum (stake_of example_set) ({[1]} \<inter> {[1]})"
proof -
  have d: "{[1]} \<subseteq> dom (get_validator example_set)" by (simp add: example_set_values)
  have q: "has_stake_quorum (of_nat (sum (stake_of example_set) {[1]})) example_set"
    by (simp add: has_stake_quorum_def quorum_threshold_def stake_of_def live_stake_def example_set_values
        vs_add_delegation_def vs_activate_def vs_validator_new_def Let_def)
  show ?thesis
    by (rule stake_quorums_overlap [OF example_set_reachable _ d d q q]) (simp add: example_set_values)
qed

text \<open>The first delegation of a delegator is recorded twice in its own entry: after delegating an
  amount the total grows by it once, and the delegator can take back the double of it.\<close>

theorem first_delegation_counts_twice:
  assumes "delegate d i amount s = (Inr (), s')" and "map_of (vs_delegators s) d = None"
    and "bt_wf (vs_delegators s)" and "bt_wf (vs_validators s)"
  shows "vs_total_stake s' = vs_total_stake s + amount \<and>
    map_option vd_staked_amount (map_of (vs_delegators s') d) = Some (amount + amount) \<and>
    fst (undelegate d (amount + amount) s') = Inr (amount + amount)"
  using assms
  by (auto simp: delegate_def undelegate_def Let_def set_validator_def vs_delegator_new_def bt.get_insert
      split: option.splits if_splits)

theorem first_delegation_counts_twice_witness:
  "let s = snd (activate_validator [1] 7 (snd (add_validator (vs_validator_new [1] [] 1000) 500 validator_set_new)));
       s' = snd (delegate [9] [1] 50 s)
   in vs_total_stake s' = vs_total_stake s + 50 \<and> fst (undelegate [9] 100 s') = Inr 100"
proof -
  let ?s = "snd (activate_validator [1] 7 (snd (add_validator (vs_validator_new [1] [] 1000) 500 validator_set_new)))"
  have "delegate [9] [1] 50 ?s = (Inr (), snd (delegate [9] [1] 50 ?s))" "map_of (vs_delegators ?s) [9] = None"
    "bt_wf (vs_delegators ?s)" "bt_wf (vs_validators ?s)"
    by (simp_all add: add_validator_def vs_validator_new_def validator_set_new_def activate_validator_def
        set_validator_def vs_activate_def delegate_def Let_def bt_wf_def)
  from first_delegation_counts_twice [OF this] show ?thesis by (simp add: Let_def)
qed

text \<open>Jailing an active validator shrinks the set of active validators and leaves the recorded
  count of active validators as it was.\<close>

theorem jail_keeps_active_count:
  assumes "bt_wf (vs_validators s)" and "get_validator s i = Some v" "vv_status v = VsActive"
  shows "\<exists>s'. jail_validator i s = (Inr (), s') \<and> vs_active_count s' = vs_active_count s \<and>
    length (get_active_validators s') + 1 = length (get_active_validators s)"
proof -
  have len: "length (get_active_validators t) = total (\<lambda>v. if vv_status v = VsActive then 1 else 0) (vs_validators t)" for t
    by (simp only: get_active_validators_def count_values)
  show ?thesis using assms
    by (simp add: jail_validator_def get_validator_def Let_def set_validator_def len bt.total_insert bt.total_split)
qed

theorem jail_keeps_active_count_witness:
  "let s = snd (activate_validator [1] 7 (snd (add_validator (vs_validator_new [1] [] 1000) 500 validator_set_new)))
   in \<exists>s'. jail_validator [1] s = (Inr (), s') \<and> vs_active_count s' = vs_active_count s \<and>
      length (get_active_validators s') + 1 = length (get_active_validators s)"
proof -
  let ?s = "snd (activate_validator [1] 7 (snd (add_validator (vs_validator_new [1] [] 1000) 500 validator_set_new)))"
  have "bt_wf (vs_validators ?s)"
    "get_validator ?s [1] = Some (vs_activate 7 (vs_validator_new [1] [] 1000))"
    "vv_status (vs_activate 7 (vs_validator_new [1] [] 1000)) = VsActive"
    by (simp_all add: add_validator_def vs_validator_new_def validator_set_new_def activate_validator_def
        set_validator_def vs_activate_def bt_wf_def get_validator_def)
  from jail_keeps_active_count [OF this] show ?thesis by (simp add: Let_def)
qed

text \<open>A validator whose unbonding is complete, so that its stake has left the total, can still be
  jailed and then unjailed: it is active again with its whole stake, which the total does not count.\<close>

theorem removed_validator_returns:
  assumes "bt_wf (vs_validators s)" and "complete_unbonding i s = (Inr stake, s1)"
    and "jail_validator i s1 = (r2, s2)" and "unjail_validator i s2 = (r3, s3)"
  shows "r2 = Inr () \<and> r3 = Inr () \<and> vs_total_stake s3 = vs_total_stake s1 \<and>
    (\<exists>v. get_validator s3 i = Some v \<and> vv_status v = VsActive \<and> vv_stake v = stake)"
  using assms
  by (auto simp: complete_unbonding_def jail_validator_def unjail_validator_def get_validator_def
      set_validator_def Let_def bt.get_insert bt.wf_insert split: option.splits if_splits)

theorem removed_validator_returns_witness:
  "let s = snd (start_unbonding [1] 8 (snd (activate_validator [1] 7
             (snd (add_validator (vs_validator_new [1] [] 1000) 500 validator_set_new)))));
       s1 = snd (complete_unbonding [1] s); s2 = snd (jail_validator [1] s1); s3 = snd (unjail_validator [1] s2)
   in vs_total_stake s3 = vs_total_stake s1 \<and>
      (\<exists>v. get_validator s3 [1] = Some v \<and> vv_status v = VsActive \<and> vv_stake v = 1000)"
proof -
  let ?s = "snd (start_unbonding [1] 8 (snd (activate_validator [1] 7
             (snd (add_validator (vs_validator_new [1] [] 1000) 500 validator_set_new)))))"
  have "bt_wf (vs_validators ?s)" "complete_unbonding [1] ?s = (Inr 1000, snd (complete_unbonding [1] ?s))"
    by (simp_all add: add_validator_def vs_validator_new_def validator_set_new_def activate_validator_def
        start_unbonding_def complete_unbonding_def set_validator_def vs_activate_def bt_wf_def)
  from removed_validator_returns [OF this prod.collapse [symmetric] prod.collapse [symmetric]]
  show ?thesis by (simp add: Let_def)
qed

text \<open>The top validators are active, at most as many as asked for and exactly that many where there
  are enough, in descending order of stake, and no active validator left out has more stake than one
  that was taken.\<close>

theorem top_validators_maximal:
  shows "set (get_top_validators n s) \<subseteq> set (get_active_validators s) \<and>
    length (get_top_validators n s) = min n (length (get_active_validators s)) \<and>
    sorted_wrt (\<lambda>u v. vv_total_stake v \<le> vv_total_stake u) (get_top_validators n s) \<and>
    (\<exists>left_out. mset (get_active_validators s) = mset (get_top_validators n s) + mset left_out \<and>
       (\<forall>u \<in> set (get_top_validators n s). \<forall>v \<in> set left_out. vv_total_stake v \<le> vv_total_stake u))"
  unfolding get_top_validators_def by (rule descending_take)

theorem top_validators_maximal_witness:
  "let s = snd (activate_validator [1] 7 (snd (add_validator (vs_validator_new [1] [] 1000) 500 validator_set_new)))
   in length (get_top_validators 3 s) = min 3 (length (get_active_validators s))"
  using top_validators_maximal by (simp add: Let_def)

text \<open>Slashing by at most 100 percent takes from the validator's own stake exactly the amount it
  reports and never more than that stake, touches no other validator, and jails exactly for double
  signing and double proposing.\<close>

theorem slash_takes_reported_amount:
  assumes "bt_wf (vs_validators s)" and "unat (se_slash_percentage ev) \<le> 100"
    and "slash_validator ev s = (Inr amount, s')" and "get_validator s (se_validator_id ev) = Some v"
  shows "amount \<le> vv_stake v \<and>
    (\<exists>v'. get_validator s' (se_validator_id ev) = Some v' \<and> vv_stake v' = vv_stake v - amount \<and>
       vv_total_stake v' = vv_stake v' + vv_delegated_stake v \<and>
       vv_status v' = (if se_slash_type ev \<in> {SlDoubleSign, SlDoublePropose} then VsJailed else vv_status v)) \<and>
    (\<forall>j. j \<noteq> se_validator_id ev \<longrightarrow> get_validator s' j = get_validator s j)"
proof -
  have a: "amount = vs_slash_amount ev (vv_stake v)"
    using assms(3,4) by (auto simp: slash_validator_def get_validator_def Let_def split: if_splits)
  then have "amount \<le> vv_stake v" using percent_of_stake [OF assms(2)] by (simp add: word_le_nat_alt)
  with a assms show ?thesis
    by (auto simp: slash_validator_def get_validator_def Let_def set_validator_def bt.get_insert saturating_sub_le
        split: if_splits)
qed

theorem slash_takes_reported_amount_witness:
  "let s = snd (add_validator (vs_validator_new [1] [] 1000) 500 validator_set_new);
       ev = \<lparr>se_validator_id = [1], se_slash_type = SlDoubleSign, se_evidence = [], se_block_height = 0,
             se_slash_percentage = 5, se_timestamp = 0\<rparr>;
       s' = snd (slash_validator ev s)
   in \<exists>v'. get_validator s' [1] = Some v' \<and> vv_stake v' = 950 \<and> vv_status v' = VsJailed"
proof -
  let ?s = "snd (add_validator (vs_validator_new [1] [] 1000) 500 validator_set_new)"
  let ?ev = "\<lparr>se_validator_id = [1], se_slash_type = SlDoubleSign, se_evidence = [], se_block_height = 0,
             se_slash_percentage = 5, se_timestamp = 0\<rparr>"
  have "bt_wf (vs_validators ?s)" "unat (se_slash_percentage ?ev) \<le> 100"
    "slash_validator ?ev ?s = (Inr 50, snd (slash_validator ?ev ?s))"
    "get_validator ?s (se_validator_id ?ev) = Some (vs_validator_new [1] [] 1000)"
    by (simp_all add: add_validator_def vs_validator_new_def validator_set_new_def slash_validator_def
        vs_slash_amount_def Let_def bt_wf_def get_validator_def)
  from slash_takes_reported_amount [OF this] show ?thesis
    by (auto simp: Let_def vs_validator_new_def)
qed

end
