(* ===== verification/Crdt.thy ===== *)
theory Crdt
  imports Prelude "HOL-Library.Product_Lexorder"
begin

text \<open>
  The replicated data types of \<open>crates/storage/src/crdt.rs\<close>: version vectors, counters, the
  observed-remove set, the last-writer register, the graph built from them, and anti-entropy. A
  \<open>BTreeMap\<close> is a sorted association list, a \<open>BTreeSet\<close> of operation ids a set. The locale
  \<open>replicated\<close> states what a state-based type needs to converge and proves convergence once.
\<close>

section \<open>Operation ids\<close>

datatype operation_id = OperationId (op_replica: u64) (op_clock: u64)

text \<open>The derived order compares the replica first.\<close>

instantiation operation_id :: linorder
begin

definition less_eq_operation_id :: "operation_id \<Rightarrow> operation_id \<Rightarrow> bool" where
  "less_eq_operation_id a b \<longleftrightarrow>
     op_replica a < op_replica b \<or> op_replica a = op_replica b \<and> op_clock a \<le> op_clock b"

definition less_operation_id :: "operation_id \<Rightarrow> operation_id \<Rightarrow> bool" where
  "less_operation_id a b \<longleftrightarrow>
     op_replica a < op_replica b \<or> op_replica a = op_replica b \<and> op_clock a < op_clock b"

instance
  by intro_classes (auto simp: less_eq_operation_id_def less_operation_id_def operation_id.expand)

end

definition op_max :: "operation_id \<Rightarrow> operation_id \<Rightarrow> operation_id" where
  "op_max a b =
     (if op_clock b < op_clock a then a
      else if op_clock a < op_clock b then b
      else if op_replica b < op_replica a then a
      else b)"

text \<open>
  \<open>for (k, v) in other { let e = self.entry(k).or_insert(d); *e = f(*e, v) }\<close>, the loop of every merge.
\<close>

definition entry_or :: "'v \<Rightarrow> ('k \<times> 'v) list \<Rightarrow> 'k \<Rightarrow> 'v" where
  "entry_or d m k = (case map_of m k of None \<Rightarrow> d | Some v \<Rightarrow> v)"

definition bt_merge :: "'v \<Rightarrow> ('v \<Rightarrow> 'u \<Rightarrow> 'v) \<Rightarrow> ('k::linorder \<times> 'u) list \<Rightarrow> ('k \<times> 'v) list \<Rightarrow> ('k \<times> 'v) list" where
  "bt_merge d f other self = fold (\<lambda>(k, u) m. bt_insert k (f (entry_or d m k) u) m) other self"

section \<open>Version vectors\<close>

type_synonym version_vector = "(u64 \<times> u64) list"

definition vv_new :: version_vector where
  "vv_new = []"

definition vv_increment :: "u64 \<Rightarrow> version_vector \<Rightarrow> version_vector" where
  "vv_increment r vv = bt_insert r (entry_or 0 vv r + 1) vv"

definition vv_get :: "version_vector \<Rightarrow> u64 \<Rightarrow> u64" where
  "vv_get vv r = entry_or 0 vv r"

definition vv_merge :: "version_vector \<Rightarrow> version_vector \<Rightarrow> version_vector" where
  "vv_merge other self = bt_merge 0 max other self"

fun dominates_entries :: "version_vector \<Rightarrow> (u64 \<times> u64) list \<Rightarrow> bool" where
  "dominates_entries self [] = True"
| "dominates_entries self ((r, clock) # rest) = (if vv_get self r < clock then False else dominates_entries self rest)"

definition dominates :: "version_vector \<Rightarrow> version_vector \<Rightarrow> bool" where
  "dominates self other = dominates_entries self other"

section \<open>Counters\<close>

record g_counter =
  gc_counts :: "(u64 \<times> u64) list"
  gc_replica_id :: u64

definition gc_new :: "u64 \<Rightarrow> g_counter" where
  "gc_new r = \<lparr>gc_counts = [], gc_replica_id = r\<rparr>"

definition gc_increment :: "g_counter \<Rightarrow> g_counter" where
  "gc_increment c =
     c\<lparr>gc_counts := bt_insert (gc_replica_id c) (entry_or 0 (gc_counts c) (gc_replica_id c) + 1) (gc_counts c)\<rparr>"

definition gc_get :: "g_counter \<Rightarrow> u64" where
  "gc_get c = sum_list (map snd (gc_counts c))"

definition gc_merge :: "g_counter \<Rightarrow> g_counter \<Rightarrow> g_counter" where
  "gc_merge other self = self\<lparr>gc_counts := bt_merge 0 max (gc_counts other) (gc_counts self)\<rparr>"

record pn_counter =
  pn_positive :: g_counter
  pn_negative :: g_counter

definition pn_new :: "u64 \<Rightarrow> pn_counter" where
  "pn_new r = \<lparr>pn_positive = gc_new r, pn_negative = gc_new r\<rparr>"

definition pn_increment :: "pn_counter \<Rightarrow> pn_counter" where
  "pn_increment c = c\<lparr>pn_positive := gc_increment (pn_positive c)\<rparr>"

definition pn_decrement :: "pn_counter \<Rightarrow> pn_counter" where
  "pn_decrement c = c\<lparr>pn_negative := gc_increment (pn_negative c)\<rparr>"

text \<open>The \<open>i64\<close> difference wraps: its bits are those of the \<open>u64\<close> difference.\<close>

definition pn_get :: "pn_counter \<Rightarrow> int" where
  "pn_get c = sint (gc_get (pn_positive c) - gc_get (pn_negative c))"

definition pn_merge :: "pn_counter \<Rightarrow> pn_counter \<Rightarrow> pn_counter" where
  "pn_merge other self =
     self\<lparr>pn_positive := gc_merge (pn_positive other) (pn_positive self),
          pn_negative := gc_merge (pn_negative other) (pn_negative self)\<rparr>"

section \<open>The observed-remove set\<close>

record 'a or_set =
  os_elements :: "('a \<times> operation_id set) list"
  os_tombstones :: "('a \<times> operation_id set) list"
  os_clock :: u64
  os_replica_id :: u64

definition orset_new :: "u64 \<Rightarrow> 'a or_set" where
  "orset_new r = \<lparr>os_elements = [], os_tombstones = [], os_clock = 0, os_replica_id = r\<rparr>"

definition next_op_id :: "'a or_set \<Rightarrow> operation_id \<times> 'a or_set" where
  "next_op_id s = (let s' = s\<lparr>os_clock := os_clock s + 1\<rparr> in (OperationId (os_replica_id s') (os_clock s'), s'))"

definition orset_add :: "'a::linorder \<Rightarrow> 'a or_set \<Rightarrow> 'a or_set" where
  "orset_add e s =
     (let (op_id, s') = next_op_id s
      in s'\<lparr>os_elements := bt_insert e (insert op_id (entry_or {} (os_elements s') e)) (os_elements s')\<rparr>)"

definition orset_remove :: "'a::linorder \<Rightarrow> 'a or_set \<Rightarrow> bool \<times> 'a or_set" where
  "orset_remove e s =
     (case map_of (os_elements s) e of
        None \<Rightarrow> (False, s)
      | Some ids \<Rightarrow>
          if ids = {} then (False, s)
          else (True, s\<lparr>os_tombstones := bt_insert e (insert (Max ids) (entry_or {} (os_tombstones s) e)) (os_tombstones s)\<rparr>))"

definition live_ids :: "operation_id set \<Rightarrow> operation_id set option \<Rightarrow> bool" where
  "live_ids ids removed = (case removed of Some ts \<Rightarrow> (\<exists>i \<in> ids. i \<notin> ts) | None \<Rightarrow> ids \<noteq> {})"

definition orset_contains :: "'a or_set \<Rightarrow> 'a \<Rightarrow> bool" where
  "orset_contains s e =
     (case map_of (os_elements s) e of
        Some ids \<Rightarrow> live_ids ids (map_of (os_tombstones s) e)
      | None \<Rightarrow> False)"

definition orset_get :: "'a or_set \<Rightarrow> 'a list" where
  "orset_get s = map fst [(e, ids) \<leftarrow> os_elements s. live_ids ids (map_of (os_tombstones s) e)]"

text \<open>Elements the receiver has a tombstone for are skipped; the receiver's tombstones do not change in
  the first loop.\<close>

definition merge_element :: "('a \<times> operation_id set) list \<Rightarrow> 'a::linorder \<times> operation_id set \<Rightarrow>
    ('a \<times> operation_id set) list \<Rightarrow> ('a \<times> operation_id set) list" where
  "merge_element tombs p els =
     (case p of (e, other_ids) \<Rightarrow>
        if entry_or {} tombs e \<noteq> {} then els
        else bt_insert e (entry_or {} els e \<union> {i \<in> other_ids. i \<notin> entry_or {} tombs e}) els)"

definition orset_merge :: "'a::linorder or_set \<Rightarrow> 'a or_set \<Rightarrow> 'a or_set" where
  "orset_merge other s =
     s\<lparr>os_elements := fold (merge_element (os_tombstones s)) (os_elements other) (os_elements s),
       os_tombstones := bt_merge {} (\<union>) (os_tombstones other) (os_tombstones s),
       os_clock := max (os_clock s) (os_clock other)\<rparr>"

section \<open>The last-writer register\<close>

record 'a lww_register =
  lww_value :: "'a option"
  lww_timestamp :: u64
  lww_replica_id :: u64

definition lww_new :: "u64 \<Rightarrow> 'a lww_register" where
  "lww_new r = \<lparr>lww_value = None, lww_timestamp = 0, lww_replica_id = r\<rparr>"

definition lww_set :: "'a \<Rightarrow> u64 \<Rightarrow> 'a lww_register \<Rightarrow> 'a lww_register" where
  "lww_set v timestamp s =
     (if lww_timestamp s < timestamp \<or> timestamp = lww_timestamp s \<and> lww_replica_id s > lww_replica_id s
      then s\<lparr>lww_value := Some v, lww_timestamp := timestamp\<rparr> else s)"

definition lww_merge :: "'a lww_register \<Rightarrow> 'a lww_register \<Rightarrow> 'a lww_register" where
  "lww_merge other s =
     (if lww_timestamp s < lww_timestamp other
        \<or> lww_timestamp other = lww_timestamp s \<and> lww_replica_id s < lww_replica_id other
      then s\<lparr>lww_value := lww_value other, lww_timestamp := lww_timestamp other, lww_replica_id := lww_replica_id other\<rparr>
      else s)"

text \<open>\<open>merge_or_map\<close> calls the merge function on a key both sides have and drops its result.\<close>

definition merge_or_map :: "('v \<Rightarrow> 'v \<Rightarrow> 'v) \<Rightarrow> ('k::linorder \<times> 'v) list \<Rightarrow> ('k \<times> 'v) list \<Rightarrow> ('k \<times> 'v) list" where
  "merge_or_map merge_value right left =
     fold (\<lambda>(k, v) m. case map_of m k of
             Some existing \<Rightarrow> (let _ = merge_value existing v in m)
           | None \<Rightarrow> bt_insert k v m) right left"

section \<open>The graph\<close>

record crdt_graph =
  cg_nodes :: "u64 or_set"
  cg_edges :: "(u64 \<times> u64 or_set) list"
  cg_edge_tombstones :: "((u64 \<times> u64) \<times> operation_id set) list"
  cg_clock :: u64
  cg_replica_id :: u64

definition graph_new :: "u64 \<Rightarrow> crdt_graph" where
  "graph_new r = \<lparr>cg_nodes = orset_new r, cg_edges = [], cg_edge_tombstones = [], cg_clock = 0, cg_replica_id = r\<rparr>"

definition add_node :: "u64 \<Rightarrow> crdt_graph \<Rightarrow> crdt_graph" where
  "add_node n g = g\<lparr>cg_nodes := orset_add n (cg_nodes g)\<rparr>"

definition add_edge :: "u64 \<Rightarrow> u64 \<Rightarrow> crdt_graph \<Rightarrow> crdt_graph" where
  "add_edge from to g =
     g\<lparr>cg_clock := cg_clock g + 1,
       cg_edges := bt_insert from (orset_add to (entry_or (orset_new (cg_replica_id g)) (cg_edges g) from)) (cg_edges g)\<rparr>"

definition remove_edge :: "u64 \<Rightarrow> u64 \<Rightarrow> crdt_graph \<Rightarrow> crdt_graph" where
  "remove_edge from to g =
     (let g' = g\<lparr>cg_clock := cg_clock g + 1\<rparr>; op_id = OperationId (cg_replica_id g') (cg_clock g')
      in g'\<lparr>cg_edge_tombstones :=
             bt_insert (from, to) (insert op_id (entry_or {} (cg_edge_tombstones g') (from, to))) (cg_edge_tombstones g')\<rparr>)"

definition get_neighbors :: "crdt_graph \<Rightarrow> u64 \<Rightarrow> u64 list" where
  "get_neighbors g n =
     (case map_of (cg_edges g) n of
        None \<Rightarrow> []
      | Some s \<Rightarrow> [m \<leftarrow> orset_get s. map_of (cg_edge_tombstones g) (n, m) = None])"

definition graph_merge :: "crdt_graph \<Rightarrow> crdt_graph \<Rightarrow> crdt_graph" where
  "graph_merge other g =
     g\<lparr>cg_nodes := orset_merge (cg_nodes other) (cg_nodes g),
       cg_edges := bt_merge (orset_new (cg_replica_id g)) (\<lambda>s o'. orset_merge o' s) (cg_edges other) (cg_edges g),
       cg_edge_tombstones := bt_merge {} (\<union>) (cg_edge_tombstones other) (cg_edge_tombstones g),
       cg_clock := max (cg_clock g) (cg_clock other)\<rparr>"

section \<open>Anti-entropy\<close>

record 's anti_entropy =
  ae_state :: 's
  ae_version_vector :: version_vector

definition ae_new :: "'s \<Rightarrow> 's anti_entropy" where
  "ae_new s = \<lparr>ae_state = s, ae_version_vector = vv_new\<rparr>"

text \<open>The agent's two functions are arguments.\<close>

definition ae_sync :: "('s \<Rightarrow> 's \<Rightarrow> 'd) \<Rightarrow> ('d \<Rightarrow> 's \<Rightarrow> 's) \<Rightarrow> 's anti_entropy \<Rightarrow> 's anti_entropy \<Rightarrow> 's anti_entropy" where
  "ae_sync compute_delta apply_delta other self =
     (if dominates (ae_version_vector self) (ae_version_vector other) then self
      else self\<lparr>ae_state := apply_delta (compute_delta (ae_state self) (ae_state other)) (ae_state self),
                ae_version_vector := vv_merge (ae_version_vector other) (ae_version_vector self)\<rparr>)"

section \<open>Convergence\<close>

text \<open>
  A state-based replicated type: merging joins the views of the two states, and the join is a
  semilattice. Replicas that start from the same view and receive the same set of states, in any order
  and any number of times, then have the same view.
\<close>

locale replicated = semilattice join for join :: "'v \<Rightarrow> 'v \<Rightarrow> 'v" +
  fixes merge :: "'s \<Rightarrow> 's \<Rightarrow> 's" and wf :: "'s \<Rightarrow> bool" and view :: "'s \<Rightarrow> 'v"
  assumes wf_merge: "wf a \<Longrightarrow> wf s \<Longrightarrow> wf (merge a s)"
    and view_merge: "wf a \<Longrightarrow> wf s \<Longrightarrow> view (merge a s) = join (view a) (view s)"
begin

lemma wf_merges: "list_all wf ms \<Longrightarrow> wf s \<Longrightarrow> wf (fold merge ms s)"
  by (induction ms arbitrary: s) (auto intro: wf_merge)

lemma view_merges: "list_all wf ms \<Longrightarrow> wf s \<Longrightarrow> view (fold merge ms s) = fold join (map view ms) (view s)"
  by (induction ms arbitrary: s) (auto simp: view_merge wf_merge)

lemma fold_join_commute: "fold join xs (join a b) = join a (fold join xs b)"
  by (induction xs arbitrary: b) (simp_all, metis left_commute)

lemma fold_join_swap: "fold join xs (fold join ys a) = fold join ys (fold join xs a)"
  by (induction xs arbitrary: a) (auto simp: fold_join_commute)

lemma fold_join_absorb: "x \<in> set xs \<Longrightarrow> join x (fold join xs a) = fold join xs a"
  by (induction xs arbitrary: a) (auto simp: fold_join_commute, metis left_commute)

lemma fold_join_absorb_set: "set xs \<subseteq> set ys \<Longrightarrow> fold join xs (fold join ys a) = fold join ys a"
  by (induction xs) (auto simp: fold_join_absorb)

lemma convergence:
  assumes "list_all wf ms" "list_all wf ns" "set ms = set ns" "wf s" "wf t" "view s = view t"
  shows "view (fold merge ms s) = view (fold merge ns t)"
proof -
  have sets: "set (map view ms) = set (map view ns)" using assms(3) by simp
  have "fold join (map view ms) (view s) = fold join (map view ns) (view s)"
    using fold_join_absorb_set [of "map view ms" "map view ns" "view s"]
      fold_join_absorb_set [of "map view ns" "map view ms" "view s"] fold_join_swap sets by (metis subset_refl)
  then show ?thesis using assms by (simp add: view_merges)
qed

lemma merge_idem: "wf s \<Longrightarrow> view (merge s s) = view s"
  by (simp add: view_merge)

end

lemma entry_or_insert: "bt_wf m \<Longrightarrow> entry_or d (bt_insert k v m) j = (if j = k then v else entry_or d m j)"
  by (simp add: entry_or_def bt.get_insert)

lemma bt_merge_wf: "bt_wf s \<Longrightarrow> bt_wf (bt_merge d f other s)"
  unfolding bt_merge_def by (induction other arbitrary: s) (auto simp: bt.wf_insert)

lemma bt_merge_get:
  assumes "bt_wf s" "distinct (map fst other)"
  shows "map_of (bt_merge d f other s) k =
    (case map_of other k of None \<Rightarrow> map_of s k | Some u \<Rightarrow> Some (f (entry_or d s k) u))"
  using assms
proof (induction other arbitrary: s)
  case Nil
  then show ?case by (simp add: bt_merge_def)
next
  case (Cons p other)
  obtain j u where p: "p = (j, u)" by fastforce
  have "map_of (bt_merge d f other (bt_insert j (f (entry_or d s j) u) s)) k =
      (case map_of other k of None \<Rightarrow> map_of (bt_insert j (f (entry_or d s j) u) s) k
       | Some u' \<Rightarrow> Some (f (entry_or d (bt_insert j (f (entry_or d s j) u) s) k) u'))"
    using Cons by (simp add: bt.wf_insert)
  moreover have "map_of other j = None" using Cons.prems p by (simp add: map_of_eq_None_iff)
  ultimately show ?case using Cons.prems p
    by (auto simp: bt_merge_def bt.get_insert entry_or_insert split: option.splits)
qed

lemma entry_or_merge:
  assumes "bt_wf s" "distinct (map fst other)" "\<And>x. f x d = x"
  shows "entry_or d (bt_merge d f other s) k = f (entry_or d s k) (entry_or d other k)"
  using bt_merge_get [OF assms(1,2), of d f k] assms(3) by (auto simp: entry_or_def split: option.splits)

lemma max_zero_word: "max x 0 = (x :: 'a::len word)"
  by (simp add: max_def)

subsection \<open>Version vectors and counters\<close>

definition max_clocks :: "(u64 \<Rightarrow> u64) \<Rightarrow> (u64 \<Rightarrow> u64) \<Rightarrow> u64 \<Rightarrow> u64" where
  "max_clocks a b = (\<lambda>k. max (a k) (b k))"

lemma max_clocks_laws:
  "max_clocks (max_clocks a b) c = max_clocks a (max_clocks b c)" "max_clocks a b = max_clocks b a" "max_clocks a a = a"
proof -
  show "max_clocks (max_clocks a b) c = max_clocks a (max_clocks b c)" by (simp add: max_clocks_def max.assoc)
  show "max_clocks a b = max_clocks b a" unfolding max_clocks_def by (subst max.commute) (rule refl)
  show "max_clocks a a = a" by (simp add: max_clocks_def)
qed

lemma vv_get_merge: "bt_wf a \<Longrightarrow> bt_wf s \<Longrightarrow> vv_get (vv_merge a s) = max_clocks (vv_get a) (vv_get s)"
  by (auto simp: fun_eq_iff vv_get_def vv_merge_def max_clocks_def entry_or_merge bt.wf_distinct max_zero_word max.commute)

interpretation vv: replicated max_clocks vv_merge bt_wf vv_get
proof (unfold_locales, goal_cases)
  case (4 a s)
  then show ?case by (simp add: vv_merge_def bt_merge_wf)
next
  case (5 a s)
  then show ?case by (rule vv_get_merge)
qed (rule max_clocks_laws)+

lemma dominates_entries_iff: "dominates_entries s es \<longleftrightarrow> (\<forall>(r, c) \<in> set es. c \<le> vv_get s r)"
  by (induction s es rule: dominates_entries.induct) auto

lemma dominates_iff: "bt_wf other \<Longrightarrow> dominates s other \<longleftrightarrow> (\<forall>r. vv_get other r \<le> vv_get s r)"
  unfolding dominates_def dominates_entries_iff
  by (fastforce simp: bt.entry_iff vv_get_def [of other] entry_or_def split: option.splits)

definition gc_wf :: "g_counter \<Rightarrow> bool" where
  "gc_wf c \<longleftrightarrow> bt_wf (gc_counts c)"

definition gc_view :: "g_counter \<Rightarrow> u64 \<Rightarrow> u64" where
  "gc_view c = entry_or 0 (gc_counts c)"

interpretation gc: replicated max_clocks gc_merge gc_wf gc_view
proof (unfold_locales, goal_cases)
  case (1 a s)
  then show ?case by (simp add: gc_wf_def gc_merge_def bt_merge_wf)
next
  case (2 a s)
  then show ?case using vv_get_merge [of "gc_counts a" "gc_counts s"]
    by (simp add: gc_wf_def gc_merge_def gc_view_def vv_merge_def vv_get_def [abs_def])
qed

text \<open>The value of a counter is a function of its view.\<close>

lemma gc_get_view: "gc_wf c \<Longrightarrow> gc_get c = (\<Sum>k \<in> UNIV. gc_view c k)"
proof -
  assume w: "gc_wf c"
  let ?m = "gc_counts c"
  have "gc_get c = total (\<lambda>x. x) ?m" by (simp add: gc_get_def total_def o_def)
  also have "\<dots> = (\<Sum>k \<in> dom (map_of ?m). gc_view c k)"
    using sum_map_of [of ?m "\<lambda>x. x"] w by (simp add: gc_wf_def bt.wf_distinct gc_view_def entry_or_def id_def)
  also have "\<dots> = (\<Sum>k \<in> UNIV. gc_view c k)"
    by (rule sum.mono_neutral_left) (auto simp: gc_view_def entry_or_def split: option.splits)
  finally show ?thesis .
qed

definition pn_wf :: "pn_counter \<Rightarrow> bool" where
  "pn_wf c \<longleftrightarrow> gc_wf (pn_positive c) \<and> gc_wf (pn_negative c)"

definition pn_view :: "pn_counter \<Rightarrow> (u64 \<Rightarrow> u64) \<times> (u64 \<Rightarrow> u64)" where
  "pn_view c = (gc_view (pn_positive c), gc_view (pn_negative c))"

definition max_clocks2 :: "(u64 \<Rightarrow> u64) \<times> (u64 \<Rightarrow> u64) \<Rightarrow> (u64 \<Rightarrow> u64) \<times> (u64 \<Rightarrow> u64) \<Rightarrow> (u64 \<Rightarrow> u64) \<times> (u64 \<Rightarrow> u64)" where
  "max_clocks2 a b = (max_clocks (fst a) (fst b), max_clocks (snd a) (snd b))"

interpretation pn: replicated max_clocks2 pn_merge pn_wf pn_view
proof (unfold_locales, goal_cases)
  case (1 a b c)
  show ?case by (simp add: max_clocks2_def max_clocks_laws(1))
next
  case (2 a b)
  show ?case unfolding max_clocks2_def by (metis max_clocks_laws(2))
next
  case (3 a)
  show ?case by (simp add: max_clocks2_def max_clocks_laws(3))
next
  case (4 a s)
  then show ?case by (simp add: pn_merge_def pn_wf_def gc.wf_merge)
next
  case (5 a s)
  then show ?case by (simp add: pn_merge_def pn_wf_def pn_view_def max_clocks2_def gc.view_merge)
qed

text \<open>The states a counter replica can be in.\<close>

inductive pn_replica :: "pn_counter \<Rightarrow> bool" where
  pn_start: "pn_replica (pn_new r)"
| pn_inc: "pn_replica c \<Longrightarrow> pn_replica (pn_increment c)"
| pn_dec: "pn_replica c \<Longrightarrow> pn_replica (pn_decrement c)"
| pn_join: "pn_replica c \<Longrightarrow> pn_replica d \<Longrightarrow> pn_replica (pn_merge d c)"

lemma gc_wf_increment: "gc_wf c \<Longrightarrow> gc_wf (gc_increment c)"
  by (simp add: gc_wf_def gc_increment_def bt.wf_insert)

lemma pn_replica_wf: "pn_replica c \<Longrightarrow> pn_wf c"
proof (induction rule: pn_replica.induct)
  case (pn_start r)
  show ?case by (simp add: pn_wf_def pn_new_def gc_wf_def gc_new_def bt.wf_empty)
next
  case (pn_join c d)
  then show ?case by (simp add: pn.wf_merge)
qed (simp_all add: pn_wf_def pn_increment_def pn_decrement_def gc_wf_increment)

lemma pn_get_view: "pn_wf c \<Longrightarrow> pn_wf d \<Longrightarrow> pn_view c = pn_view d \<Longrightarrow> pn_get c = pn_get d"
  by (simp add: pn_get_def pn_view_def pn_wf_def gc_get_view)

lemma gc_get_increment: "gc_wf c \<Longrightarrow> gc_get (gc_increment c) = gc_get c + 1"
proof -
  assume w: "gc_wf c"
  let ?m = "gc_counts c" and ?r = "gc_replica_id c"
  have t: "gc_get d = total (\<lambda>x. x) (gc_counts d)" for d by (simp add: gc_get_def total_def o_def)
  show ?thesis
  proof (cases "map_of ?m ?r")
    case None
    then show ?thesis using w
      by (simp add: t gc_increment_def gc_wf_def bt.total_insert_new entry_or_def add.commute)
  next
    case (Some v)
    then show ?thesis using w
      by (simp add: t gc_increment_def gc_wf_def bt.total_update entry_or_def)
  qed
qed

subsection \<open>Sets and graphs\<close>

lemma merge_element_removed:
  "entry_or {} tombs e \<noteq> {} \<Longrightarrow> bt_wf els \<Longrightarrow> map_of (fold (merge_element tombs) ps els) e = map_of els e"
  by (induction ps arbitrary: els) (auto simp: merge_element_def bt.get_insert bt.wf_insert split: prod.splits)

definition orset_wf :: "'a::linorder or_set \<Rightarrow> bool" where
  "orset_wf s \<longleftrightarrow> bt_wf (os_elements s) \<and> bt_wf (os_tombstones s)"

lemma tombstones_merge:
  "orset_wf s \<Longrightarrow> orset_wf other \<Longrightarrow>
    entry_or {} (os_tombstones (orset_merge other s)) e = entry_or {} (os_tombstones s) e \<union> entry_or {} (os_tombstones other) e"
  by (simp add: orset_merge_def orset_wf_def entry_or_merge bt.wf_distinct)

lemma contains_iff:
  "orset_contains s e \<longleftrightarrow> (\<exists>ids i. map_of (os_elements s) e = Some ids \<and> i \<in> ids \<and> i \<notin> entry_or {} (os_tombstones s) e)"
  by (auto simp: orset_contains_def live_ids_def entry_or_def split: option.splits)

lemma remove_state:
  assumes "orset_wf s" "map_of (os_elements s) e = Some ids" "ids \<noteq> {}"
  defines "s' \<equiv> snd (orset_remove e s)"
  shows "os_elements s' = os_elements s" "orset_wf s'"
    "entry_or {} (os_tombstones s') e = insert (Max ids) (entry_or {} (os_tombstones s) e)"
  using assms by (simp_all add: orset_remove_def orset_wf_def bt.wf_insert entry_or_insert)

lemma removes_state:
  fixes n :: nat
  assumes "orset_wf s" "map_of (os_elements s) e = Some ids" "ids \<noteq> {}"
  defines "s' \<equiv> ((\<lambda>s. snd (orset_remove e s)) ^^ Suc n) s"
  shows "os_elements s' = os_elements s \<and> orset_wf s' \<and>
    entry_or {} (os_tombstones s') e = insert (Max ids) (entry_or {} (os_tombstones s) e)"
  unfolding s'_def
proof (induction n)
  case 0
  then show ?case using remove_state [OF assms(1-3)] by simp
next
  case (Suc n)
  let ?t = "((\<lambda>s. snd (orset_remove e s)) ^^ Suc n) s"
  have "map_of (os_elements ?t) e = Some ids" using Suc.IH assms(2) by simp
  with remove_state [of ?t e ids] Suc.IH assms(3) show ?case by simp
qed

text \<open>Calls on a graph and merges with other replicas.\<close>

inductive graph_step :: "crdt_graph \<Rightarrow> crdt_graph \<Rightarrow> bool" where
  "graph_step g (add_node n g)"
| "graph_step g (add_edge a b g)"
| "graph_step g (remove_edge a b g)"
| "distinct (map fst (cg_edge_tombstones other)) \<Longrightarrow> graph_step g (graph_merge other g)"

definition edge_removed :: "u64 \<Rightarrow> u64 \<Rightarrow> crdt_graph \<Rightarrow> bool" where
  "edge_removed a b g \<longleftrightarrow> bt_wf (cg_edge_tombstones g) \<and> map_of (cg_edge_tombstones g) (a, b) \<noteq> None"

lemma edge_removed_step: "graph_step g g' \<Longrightarrow> edge_removed a b g \<Longrightarrow> edge_removed a b g'"
  by (induction rule: graph_step.induct)
    (auto simp: edge_removed_def add_node_def add_edge_def remove_edge_def graph_merge_def Let_def bt.get_insert
      bt.wf_insert bt_merge_wf bt_merge_get split: option.splits)

interpretation removed_edge: step_closed graph_step "edge_removed a b" for a b
  by unfold_locales (rule edge_removed_step)

section \<open>Properties\<close>

text \<open>C19. Replicas of the up/down counter converge: a replica that merges the same states of other replicas in
  another order, with repetitions or not, reads the same value.\<close>

theorem pn_counter_converges:
  assumes "pn_replica s" "\<forall>m \<in> set ms. pn_replica m" "set ms = set ns"
  shows "pn_get (fold pn_merge ms s) = pn_get (fold pn_merge ns s)"
proof -
  have w: "list_all pn_wf ms" "list_all pn_wf ns" "pn_wf s"
    using assms pn_replica_wf by (auto simp: list_all_iff)
  show ?thesis
    by (rule pn_get_view) (use w assms(3) in \<open>auto intro: pn.wf_merges pn.convergence\<close>)
qed

theorem pn_counter_converges_witness:
  "let a = pn_increment (pn_increment (pn_new 1)); b = pn_decrement (pn_new 2)
   in pn_get (fold pn_merge [a, b] (pn_new 3)) = pn_get (fold pn_merge [b, a, b] (pn_new 3))"
proof -
  let ?a = "pn_increment (pn_increment (pn_new 1))" and ?b = "pn_decrement (pn_new 2)"
  have "pn_replica ?a" "pn_replica ?b" "pn_replica (pn_new 3)" by (intro pn_start pn_inc pn_dec)+
  then show ?thesis
    using pn_counter_converges [of "pn_new 3" "[?a, ?b]" "[?b, ?a, ?b]"] by (auto simp: Let_def)
qed

text \<open>After a synchronization the receiver's version vector dominates the sender's, is the least that
  dominates both, and a second synchronization changes nothing.\<close>

theorem sync_catches_up:
  assumes "bt_wf (ae_version_vector self)" "bt_wf (ae_version_vector other)"
  shows "dominates (ae_version_vector (ae_sync cd ad other self)) (ae_version_vector other)
    \<and> dominates (ae_version_vector (ae_sync cd ad other self)) (ae_version_vector self)
    \<and> (\<forall>v. dominates v (ae_version_vector self) \<longrightarrow> dominates v (ae_version_vector other)
         \<longrightarrow> dominates v (ae_version_vector (ae_sync cd ad other self)))
    \<and> ae_sync cd ad other (ae_sync cd ad other self) = ae_sync cd ad other self"
proof -
  have w: "bt_wf (vv_merge (ae_version_vector other) (ae_version_vector self))" using assms by (rule vv.wf_merge [rotated])
  show ?thesis using assms w
    by (auto simp: ae_sync_def dominates_iff vv_get_merge max_clocks_def)
qed

theorem sync_catches_up_witness:
  "dominates (ae_version_vector (ae_sync (\<lambda>l r. r) max \<lparr>ae_state = 4 :: nat, ae_version_vector = [(1, 2), (3, 1)]\<rparr>
       \<lparr>ae_state = 5, ae_version_vector = [(1, 1), (2, 7)]\<rparr>)) [(1, 2), (3, 1)]"
  using sync_catches_up [of "\<lparr>ae_state = 5 :: nat, ae_version_vector = [(1, 1), (2, 7)]\<rparr>"
      "\<lparr>ae_state = 4 :: nat, ae_version_vector = [(1, 2), (3, 1)]\<rparr>" "\<lambda>l r. r" max]
  by (simp add: bt_wf_def)

text \<open>Removing an element of the observed-remove set, once or any number of times, tombstones only the
  largest of its operation ids: the element stays in the set exactly when another of its ids is live.\<close>

theorem orset_remove_effect:
  assumes "orset_wf s" "map_of (os_elements s) e = Some ids" "ids \<noteq> {}"
  shows "orset_contains (((\<lambda>s. snd (orset_remove e s)) ^^ Suc n) s) e \<longleftrightarrow>
    (\<exists>i \<in> ids - {Max ids}. i \<notin> entry_or {} (os_tombstones s) e)"
  using removes_state [OF assms, of n] assms(2) by (auto simp: contains_iff)

theorem orset_remove_effect_witness:
  "orset_contains (((\<lambda>s. snd (orset_remove (7 :: nat) s)) ^^ Suc 4) (orset_add 7 (orset_add 7 (orset_new 1)))) 7"
proof -
  let ?s = "orset_add (7 :: nat) (orset_add 7 (orset_new 1))"
  have g: "map_of (os_elements ?s) 7 = Some {OperationId 1 2, OperationId 1 1}" and w: "orset_wf ?s"
    by (simp_all add: orset_add_def next_op_id_def orset_new_def Let_def entry_or_def orset_wf_def bt_wf_def)
  have m: "Max {OperationId 1 2, OperationId 1 1} = OperationId 1 2"
    by (simp add: max_def less_eq_operation_id_def word_le_nat_alt)
  have t: "os_tombstones ?s = []"
    by (simp add: orset_add_def next_op_id_def orset_new_def Let_def)
  from orset_remove_effect [OF w g, of 4] show ?thesis by (simp only: m t) (simp add: entry_or_def)
qed

text \<open>A replica that ever removed an element ignores every later addition of it by others: merging any
  state can only keep or take away the element. The merge is therefore not commutative, and the witness
  shows two replicas that still differ after exchanging states.\<close>

theorem removed_element_ignores_adds:
  assumes "orset_wf s" "orset_wf other" "entry_or {} (os_tombstones s) e \<noteq> {}"
    and "orset_contains (orset_merge other s) e"
  shows "orset_contains s e"
proof -
  have "map_of (os_elements (orset_merge other s)) e = map_of (os_elements s) e"
    using assms(1,3) by (simp add: orset_merge_def orset_wf_def merge_element_removed)
  with assms(4) tombstones_merge [OF assms(1,2)] show ?thesis by (auto simp: contains_iff)
qed

theorem removed_element_ignores_adds_witness:
  "let a = orset_add (7 :: nat) (orset_new 1); b = orset_add 7 (orset_merge a (orset_new 2)); a' = snd (orset_remove 7 a)
   in \<not> orset_contains (orset_merge b a') 7 \<and> orset_contains (orset_merge a' b) 7"
proof -
  let ?a = "orset_add (7 :: nat) (orset_new 1)"
  let ?b = "orset_add 7 (orset_merge ?a (orset_new 2))"
  let ?a' = "snd (orset_remove 7 ?a)"
  note d = orset_add_def next_op_id_def orset_new_def Let_def entry_or_def orset_wf_def bt_wf_def orset_merge_def
    merge_element_def orset_remove_def bt_merge_def orset_contains_def live_ids_def
  have "orset_wf ?a'" "orset_wf ?b" "entry_or {} (os_tombstones ?a') 7 \<noteq> {}" "\<not> orset_contains ?a' 7"
    by (simp_all add: d)
  with removed_element_ignores_adds [of ?a' ?b 7] have "\<not> orset_contains (orset_merge ?b ?a') 7" by blast
  moreover have "orset_contains (orset_merge ?a' ?b) 7" by (simp add: d)
  ultimately show ?thesis by (simp add: Let_def)
qed

text \<open>A removed edge never comes back: after a removal, whatever calls and merges follow, the target is not
  among the neighbours of the source, also when the edge is added again.\<close>

theorem removed_edge_never_returns:
  assumes "bt_wf (cg_edge_tombstones g)" "graph_step\<^sup>*\<^sup>* (remove_edge a b g) g'"
  shows "b \<notin> set (get_neighbors g' a)"
proof -
  have "edge_removed a b (remove_edge a b g)"
    using assms(1) by (simp add: edge_removed_def remove_edge_def Let_def bt.wf_insert bt.get_insert)
  from removed_edge.steps_inv [OF assms(2) this] show ?thesis
    by (auto simp: edge_removed_def get_neighbors_def split: option.splits)
qed

theorem removed_edge_never_returns_witness:
  "2 \<notin> set (get_neighbors (add_edge 1 2 (remove_edge 1 2 (add_edge 1 2 (graph_new 5)))) 1)"
proof (rule removed_edge_never_returns [OF _ r_into_rtranclp])
  show "bt_wf (cg_edge_tombstones (add_edge 1 2 (graph_new 5)))"
    by (simp add: add_edge_def graph_new_def bt_wf_def)
  show "graph_step (remove_edge 1 2 (add_edge 1 2 (graph_new 5))) (add_edge 1 2 (remove_edge 1 2 (add_edge 1 2 (graph_new 5))))"
    by (rule graph_step.intros(2))
qed

text \<open>Merging a register adopts the other replica's id, so two replicas can write different values under the
  same timestamp and id; exchanging states then changes neither, and they differ for good.\<close>

theorem lww_replicas_diverge:
  "let b1 = lww_set (10 :: nat) 1 (lww_new 2); a1 = lww_merge b1 (lww_new 1);
       a2 = lww_set 20 2 a1; b2 = lww_set 30 2 b1
   in lww_merge b2 a2 = a2 \<and> lww_merge a2 b2 = b2 \<and> lww_value a2 \<noteq> lww_value b2"
  by (simp add: Let_def lww_set_def lww_merge_def lww_new_def)

end
