(* ===== verification/Encoding.thy ===== *)
theory Encoding
  imports Prelude
begin

text \<open>
  The canonical byte writer and reader of \<open>crates/core/src/canonical.rs\<close>, and the deterministic random
  generator and logical time of \<open>crates/core/src/deterministic.rs\<close>. \<open>usize\<close> is 64 bits; a reader
  position is a natural number and the end of a read is computed modulo \<open>2 ^ 64\<close>. Signed integers are
  integers, written and read through the bits of their width. An error carries the values its message prints.
\<close>

section \<open>Errors\<close>

datatype core_error =
    Serialization string | Deserialization string
  | OutOfBounds nat nat nat | VarintOverflow
  | HashMismatch bytes32 bytes32

definition canonical_encode :: "('a \<Rightarrow> string + bytes) \<Rightarrow> 'a \<Rightarrow> core_error + bytes" where
  "canonical_encode serialize x = (case serialize x of Inl e \<Rightarrow> Inl (Serialization e) | Inr b \<Rightarrow> Inr b)"

definition canonical_decode :: "(bytes \<Rightarrow> string + 'a) \<Rightarrow> bytes \<Rightarrow> core_error + 'a" where
  "canonical_decode deserialize b = (case deserialize b of Inl e \<Rightarrow> Inl (Deserialization e) | Inr x \<Rightarrow> Inr x)"

definition hash_serializable :: "(bytes \<Rightarrow> bytes32) \<Rightarrow> ('a \<Rightarrow> string + bytes) \<Rightarrow> 'a \<Rightarrow> core_error + bytes32" where
  "hash_serializable hash serialize x =
     (case canonical_encode serialize x of Inl e \<Rightarrow> Inl e | Inr b \<Rightarrow> Inr (hash b))"

record versioned =
  vd_version :: u32
  vd_data :: bytes

definition versioned_encode :: "('a \<Rightarrow> string + bytes) \<Rightarrow> u32 \<Rightarrow> 'a \<Rightarrow> core_error + versioned" where
  "versioned_encode serialize version x =
     (case canonical_encode serialize x of Inl e \<Rightarrow> Inl e | Inr b \<Rightarrow> Inr \<lparr>vd_version = version, vd_data = b\<rparr>)"

definition versioned_decode :: "(bytes \<Rightarrow> string + 'a) \<Rightarrow> versioned \<Rightarrow> core_error + 'a" where
  "versioned_decode deserialize v = canonical_decode deserialize (vd_data v)"

definition verify_canonical_encoding :: "(bytes \<Rightarrow> bytes32) \<Rightarrow> bytes \<Rightarrow> bytes32 \<Rightarrow> core_error + unit" where
  "verify_canonical_encoding hash b expected =
     (let computed = hash b in if computed \<noteq> expected then Inl (HashMismatch expected computed) else Inr ())"

section \<open>Writing\<close>

type_synonym byte_writer = bytes

definition write_u8 :: "u8 \<Rightarrow> byte_writer \<Rightarrow> byte_writer" where
  "write_u8 v w = w @ [v]"

definition write_u16 :: "u16 \<Rightarrow> byte_writer \<Rightarrow> byte_writer" where
  "write_u16 v w = w @ to_le_bytes 2 v"

definition write_u32 :: "u32 \<Rightarrow> byte_writer \<Rightarrow> byte_writer" where
  "write_u32 v w = w @ to_le_bytes 4 v"

definition write_u64 :: "u64 \<Rightarrow> byte_writer \<Rightarrow> byte_writer" where
  "write_u64 v w = w @ to_le_bytes 8 v"

definition write_u128 :: "128 word \<Rightarrow> byte_writer \<Rightarrow> byte_writer" where
  "write_u128 v w = w @ to_le_bytes 16 v"

definition write_i8 :: "int \<Rightarrow> byte_writer \<Rightarrow> byte_writer" where
  "write_i8 v w = w @ [word_of_int v]"

definition write_i16 :: "int \<Rightarrow> byte_writer \<Rightarrow> byte_writer" where
  "write_i16 v w = w @ to_le_bytes 2 (word_of_int v :: u16)"

definition write_i32 :: "int \<Rightarrow> byte_writer \<Rightarrow> byte_writer" where
  "write_i32 v w = w @ to_le_bytes 4 (word_of_int v :: u32)"

definition write_i64 :: "int \<Rightarrow> byte_writer \<Rightarrow> byte_writer" where
  "write_i64 v w = w @ to_le_bytes 8 (word_of_int v :: u64)"

definition write_i128 :: "int \<Rightarrow> byte_writer \<Rightarrow> byte_writer" where
  "write_i128 v w = w @ to_le_bytes 16 (word_of_int v :: 128 word)"

definition write_bytes :: "bytes \<Rightarrow> byte_writer \<Rightarrow> byte_writer" where
  "write_bytes b w = w @ b"

text \<open>Seven bits a byte, the high bit set on all but the last.\<close>

lemma drop_bit_decreases: "drop_bit 7 v \<noteq> 0 \<Longrightarrow> unat (drop_bit 7 (v :: u64)) < unat v"
proof -
  assume "drop_bit 7 v \<noteq> 0"
  then have "v \<noteq> 0" by auto
  then have "0 < unat v" by (simp add: unat_gt_0)
  then show ?thesis by (simp add: drop_bit_eq_div unat_div)
qed

function write_varint :: "u64 \<Rightarrow> byte_writer \<Rightarrow> byte_writer" where
  "write_varint v w =
     (let byte = ucast (v AND 0x7F) :: u8; v' = drop_bit 7 v;
          byte' = (if v' \<noteq> 0 then byte OR 0x80 else byte)
      in if v' = 0 then w @ [byte'] else write_varint v' (w @ [byte']))"
  by pat_completeness auto

termination write_varint
  by (relation "measure (\<lambda>(v, w). unat v)") (auto intro: drop_bit_decreases)

declare write_varint.simps [simp del]

section \<open>Reading\<close>

record byte_reader =
  br_data :: bytes
  br_position :: nat

type_synonym 'a reader = "byte_reader \<Rightarrow> ((core_error + 'a) \<times> byte_reader) rust"

definition reader_new :: "bytes \<Rightarrow> byte_reader" where
  "reader_new b = \<lparr>br_data = b, br_position = 0\<rparr>"

text \<open>The \<open>?\<close> operator and \<open>map\<close> on results.\<close>

definition read_then :: "'a reader \<Rightarrow> ('a \<Rightarrow> 'b) \<Rightarrow> 'b reader" where
  "read_then m f r =
     (case m r of
        Panic \<Rightarrow> Panic
      | Return (Inl e, r') \<Rightarrow> Return (Inl e, r')
      | Return (Inr x, r') \<Rightarrow> Return (Inr (f x), r'))"

definition read_bytes :: "nat \<Rightarrow> bytes reader" where
  "read_bytes n r =
     (let e = (br_position r + n) mod 2 ^ 64
      in if length (br_data r) < e then Return (Inl (OutOfBounds (br_position r) n (length (br_data r))), r)
         else if e < br_position r then Panic
         else Return (Inr (sub_slice (br_data r) (br_position r) e), r\<lparr>br_position := e\<rparr>))"

definition read_u8 :: "u8 reader" where
  "read_u8 = read_then (read_bytes 1) (\<lambda>b. b ! 0)"

definition read_u16 :: "u16 reader" where
  "read_u16 = read_then (read_bytes 2) from_le_bytes"

definition read_u32 :: "u32 reader" where
  "read_u32 = read_then (read_bytes 4) from_le_bytes"

definition read_u64 :: "u64 reader" where
  "read_u64 = read_then (read_bytes 8) from_le_bytes"

definition read_u128 :: "128 word reader" where
  "read_u128 = read_then (read_bytes 16) from_le_bytes"

definition read_i8 :: "int reader" where
  "read_i8 = read_then read_u8 sint"

definition read_i16 :: "int reader" where
  "read_i16 = read_then read_u16 sint"

definition read_i32 :: "int reader" where
  "read_i32 = read_then read_u32 sint"

definition read_i64 :: "int reader" where
  "read_i64 = read_then read_u64 sint"

definition read_i128 :: "int reader" where
  "read_i128 = read_then read_u128 sint"

function varint_loop :: "u64 \<Rightarrow> nat \<Rightarrow> u64 reader" where
  "varint_loop acc shift r =
     (case read_u8 r of
        Panic \<Rightarrow> Panic
      | Return (Inl e, r') \<Rightarrow> Return (Inl e, r')
      | Return (Inr byte, r') \<Rightarrow>
          (let acc' = acc OR push_bit shift (ucast (byte AND 0x7F))
           in if byte AND 0x80 = 0 then Return (Inr acc', r')
              else if 64 \<le> shift + 7 then Return (Inl VarintOverflow, r')
              else varint_loop acc' (shift + 7) r'))"
  by pat_completeness auto

termination varint_loop
  by (relation "measure (\<lambda>(acc, shift, r). 64 - shift)") auto

declare varint_loop.simps [simp del]

definition read_varint :: "u64 reader" where
  "read_varint = varint_loop 0 0"

definition remaining :: "byte_reader \<Rightarrow> nat" where
  "remaining r = length (br_data r) - br_position r"

definition reader_is_empty :: "byte_reader \<Rightarrow> bool" where
  "reader_is_empty r \<longleftrightarrow> length (br_data r) \<le> br_position r"

section \<open>The random generator\<close>

type_synonym rng = u64

definition rng_new :: "bytes32 \<Rightarrow> rng" where
  "rng_new seed =
     (let s = fold (\<lambda>(i, b) s. if i < 8 then s + ucast b * push_bit (i * 8) 1 else s) (enumerate 0 seed) 0
      in if s = 0 then 0x853aa1f0a8b4c2d else s)"

definition DOMAIN_SEPARATOR :: bytes where
  "DOMAIN_SEPARATOR = map (\<lambda>c. of_nat (of_char c)) ''LITE-VISION''"

definition derive_seed :: "(bytes \<Rightarrow> bytes32) \<Rightarrow> bytes \<Rightarrow> bytes32 \<Rightarrow> u64 \<Rightarrow> bytes32" where
  "derive_seed hash domain prev_hash height = hash (DOMAIN_SEPARATOR @ domain @ prev_hash @ to_le_bytes 8 height)"

definition from_block_seed :: "(bytes \<Rightarrow> bytes32) \<Rightarrow> bytes \<Rightarrow> bytes32 \<Rightarrow> u64 \<Rightarrow> rng" where
  "from_block_seed hash domain prev_hash height = rng_new (derive_seed hash domain prev_hash height)"

definition rand_u32 :: "rng \<Rightarrow> u32 \<times> rng" where
  "rand_u32 s = (let s' = s * 0x5851f42d4c957f63 + 0x14057b921f4e31be in (ucast (drop_bit 32 s'), s'))"

definition rand_u64 :: "rng \<Rightarrow> u64 \<times> rng" where
  "rand_u64 s =
     (let (lo, s1) = rand_u32 s; (hi, s2) = rand_u32 s1 in (ucast lo OR push_bit 32 (ucast hi), s2))"

definition rand_u128 :: "rng \<Rightarrow> 128 word \<times> rng" where
  "rand_u128 s =
     (let (lo, s1) = rand_u64 s; (hi, s2) = rand_u64 s1 in (ucast lo OR push_bit 64 (ucast hi), s2))"

text \<open>\<open>max - min + 1\<close> wraps to zero for the full range, and the remainder by zero panics.\<close>

definition rand_range :: "u32 \<Rightarrow> u32 \<Rightarrow> rng \<Rightarrow> (u32 \<times> rng) rust" where
  "rand_range lo hi s =
     (if hi \<le> lo then Return (lo, s)
      else
        let range = hi - lo + 1; (x, s') = rand_u32 s
        in if range = 0 then Panic else Return (lo + x mod range, s'))"

fun fill_chunks :: "nat \<Rightarrow> rng \<Rightarrow> bytes \<times> rng" where
  "fill_chunks n s =
     (if n = 0 then ([], s)
      else
        let (x, s1) = rand_u32 s;
            chunk = map (\<lambda>i. ucast (drop_bit (i * 8) x)) [0..<min 4 n];
            (rest, s2) = fill_chunks (n - 4) s1
        in (chunk @ rest, s2))"

declare fill_chunks.simps [simp del]

text \<open>\<open>fill_bytes\<close> on a buffer of \<open>n\<close> bytes: its new contents.\<close>

definition fill_bytes :: "bytes \<Rightarrow> rng \<Rightarrow> bytes \<times> rng" where
  "fill_bytes buffer s = fill_chunks (length buffer) s"

definition rng_choose :: "'a list \<Rightarrow> rng \<Rightarrow> ('a option \<times> rng) rust" where
  "rng_choose xs s =
     (if xs = [] then Return (None, s)
      else case rand_range 0 (of_nat (length xs) - 1) s of
             Panic \<Rightarrow> Panic
           | Return (i, s') \<Rightarrow> if unat i < length xs then Return (Some (xs ! unat i), s') else Panic)"

definition swap :: "nat \<Rightarrow> nat \<Rightarrow> 'a list \<Rightarrow> 'a list" where
  "swap i j xs = xs[i := xs ! j, j := xs ! i]"

text \<open>The loop runs \<open>i\<close> down from \<open>len - 1\<close> to 1; \<open>swap\<close> panics on an index out of range.\<close>

fun shuffle_from :: "nat \<Rightarrow> 'a list \<Rightarrow> rng \<Rightarrow> ('a list \<times> rng) rust" where
  "shuffle_from 0 xs s = Return (xs, s)"
| "shuffle_from (Suc i) xs s =
     (case rand_range 0 (of_nat (Suc i)) s of
        Panic \<Rightarrow> Panic
      | Return (j, s') \<Rightarrow>
          if unat j < length xs then shuffle_from i (swap (Suc i) (unat j) xs) s' else Panic)"

definition shuffle :: "'a list \<Rightarrow> rng \<Rightarrow> ('a list \<times> rng) rust" where
  "shuffle xs s = shuffle_from (length xs - 1) xs s"

section \<open>Logical time\<close>

record logical_time =
  lt_height :: u64
  lt_view :: u32

definition next_view :: "logical_time \<Rightarrow> logical_time" where
  "next_view t = t\<lparr>lt_view := lt_view t + 1\<rparr>"

definition next_height :: "logical_time \<Rightarrow> logical_time" where
  "next_height t = \<lparr>lt_height = lt_height t + 1, lt_view = 0\<rparr>"

definition is_after :: "logical_time \<Rightarrow> logical_time \<Rightarrow> bool" where
  "is_after a b \<longleftrightarrow>
     (if lt_height a \<noteq> lt_height b then lt_height b < lt_height a else lt_view b < lt_view a)"

section \<open>Reading back what was written\<close>

lemma read_bytes_at:
  assumes "length pre + length b < 2 ^ 64" "n = length b"
  shows "read_bytes n \<lparr>br_data = pre @ b @ post, br_position = length pre\<rparr> =
    Return (Inr b, \<lparr>br_data = pre @ b @ post, br_position = length pre + length b\<rparr>)"
  using assms by (simp add: read_bytes_def Let_def slice_whole)

lemma read_u8_at:
  "length pre + 1 < 2 ^ 64 \<Longrightarrow> read_u8 \<lparr>br_data = pre @ [b] @ post, br_position = length pre\<rparr> =
    Return (Inr b, \<lparr>br_data = pre @ [b] @ post, br_position = length pre + 1\<rparr>)"
  using read_bytes_at [of pre "[b]" 1 post] by (simp add: read_u8_def read_then_def)

lemma and_7F: "(v :: 'a::len word) AND 0x7F = take_bit 7 v"
  by (simp add: take_bit_eq_mask mask_eq_exp_minus_1)

lemma and_80: "(b :: u8) AND 0x80 = 0 \<longleftrightarrow> \<not> bit b 7"
proof -
  have "(b AND 0x80 = 0) = (b AND push_bit 7 1 = 0)" by (simp add: push_bit_eq_mult)
  also have "\<dots> \<longleftrightarrow> \<not> bit b 7" by (simp add: bit_iff_and_push_bit_not_eq_0)
  finally show ?thesis .
qed

text \<open>One byte of a varint: the low bits and the continuation bit.\<close>

lemma varint_byte:
  fixes v :: u64
  shows "ucast ((ucast (v AND 0x7F) :: u8) AND 0x7F) = take_bit 7 v" "ucast ((ucast (v AND 0x7F) OR 0x80 :: u8) AND 0x7F) = take_bit 7 v"
    "(ucast (v AND 0x7F) :: u8) AND 0x80 = 0" "(ucast (v AND 0x7F) OR 0x80 :: u8) AND 0x80 \<noteq> 0"
proof -
  have e: "(0x80 :: u8) = push_bit 7 1" by (simp add: push_bit_eq_mult)
  show "ucast ((ucast (v AND 0x7F) :: u8) AND 0x7F) = take_bit 7 v"
    unfolding and_7F by (rule bit_word_eqI) (auto simp: bit_simps)
  show "ucast ((ucast (v AND 0x7F) OR 0x80 :: u8) AND 0x7F) = take_bit 7 v"
    unfolding and_7F e by (rule bit_word_eqI) (auto simp: bit_simps)
  show "(ucast (v AND 0x7F) :: u8) AND 0x80 = 0" unfolding and_80 and_7F by (simp add: bit_simps)
  show "(ucast (v AND 0x7F) OR 0x80 :: u8) AND 0x80 \<noteq> 0" unfolding and_80 e by (simp add: bit_simps)
qed

lemma varint_split: "push_bit n (take_bit 7 v) OR push_bit (n + 7) (drop_bit 7 v) = push_bit n (v :: u64)"
proof (rule bit_word_eqI)
  fix m
  assume "m < LENGTH(64)"
  show "bit (push_bit n (take_bit 7 v) OR push_bit (n + 7) (drop_bit 7 v)) m \<longleftrightarrow> bit (push_bit n v) m"
    by (cases "n + 7 \<le> m") (auto simp: bit_simps)
qed

lemma take_bit_small: "drop_bit 7 (v :: u64) = 0 \<Longrightarrow> take_bit 7 v = v"
  using bits_ident [of 7 v] by simp

lemma write_varint_step:
  "write_varint v w = (if drop_bit 7 v = 0 then w @ [ucast (v AND 0x7F)]
     else write_varint (drop_bit 7 v) (w @ [ucast (v AND 0x7F) OR 0x80]))"
  by (subst write_varint.simps) (simp add: Let_def)

lemma write_varint_append: "write_varint v w = w @ write_varint v []"
proof (induction "unat v" arbitrary: v w rule: less_induct)
  case less
  show ?case
  proof (cases "drop_bit 7 v = 0")
    case False
    then show ?thesis using less [OF drop_bit_decreases [OF False]]
      by (metis append.assoc append_Nil write_varint_step)
  qed (simp add: write_varint_step [of v])
qed

lemma write_varint_Nil:
  "write_varint v [] = (if drop_bit 7 v = 0 then [ucast (v AND 0x7F)]
     else (ucast (v AND 0x7F) OR 0x80) # write_varint (drop_bit 7 v) [])"
  by (subst write_varint_step) (simp add: write_varint_append [of _ "[x]" for x])

lemma drop_bit_fits: "unat (v :: u64) < 2 ^ n \<Longrightarrow> drop_bit 7 v \<noteq> 0 \<Longrightarrow> 7 < n \<and> unat (drop_bit 7 v) < 2 ^ (n - 7)"
proof -
  assume v: "unat v < 2 ^ n" and d: "drop_bit 7 v \<noteq> 0"
  have u: "unat (drop_bit 7 v) = unat v div 128" by (simp add: drop_bit_eq_div unat_div)
  have big: "128 \<le> unat v"
  proof (rule ccontr)
    assume "\<not> 128 \<le> unat v"
    then have "unat (drop_bit 7 v) = 0" by (simp add: u)
    with d show False by (simp add: unat_eq_0)
  qed
  have n: "7 < n"
  proof (rule ccontr)
    assume "\<not> 7 < n"
    then have "(2 :: nat) ^ n \<le> 2 ^ 7" by (intro power_increasing) auto
    with big v show False by simp
  qed
  then have "(2 :: nat) ^ n = 2 ^ 7 * 2 ^ (n - 7)" unfolding power_add [symmetric] by simp
  then show ?thesis using v u n by (simp add: div_less_iff_less_mult mult.commute)
qed

lemma varint_loop_at:
  assumes "unat v < 2 ^ (64 - shift)" "shift < 64" "length pre + length (write_varint v []) < 2 ^ 64"
  shows "varint_loop acc shift \<lparr>br_data = pre @ write_varint v [] @ post, br_position = length pre\<rparr> =
    Return (Inr (acc OR push_bit shift v),
      \<lparr>br_data = pre @ write_varint v [] @ post, br_position = length pre + length (write_varint v [])\<rparr>)"
  using assms
proof (induction "unat v" arbitrary: v shift pre acc rule: less_induct)
  case less
  show ?case
  proof (cases "drop_bit 7 v = 0")
    case True
    then have w: "write_varint v [] = [ucast (v AND 0x7F)]" by (simp add: write_varint_Nil)
    have "length pre + 1 < 2 ^ 64" using less.prems(3) w by simp
    from read_u8_at [OF this, of "ucast (v AND 0x7F)" post] show ?thesis
      by (subst varint_loop.simps) (simp add: w Let_def varint_byte take_bit_small [OF True] del: append.simps)
  next
    case False
    let ?b = "ucast (v AND 0x7F) OR 0x80 :: u8" and ?v = "drop_bit 7 v"
    have w: "write_varint v [] = ?b # write_varint ?v []" using False by (simp add: write_varint_Nil [of v])
    have fit: "7 < 64 - shift" "unat ?v < 2 ^ (64 - (shift + 7))"
      using drop_bit_fits [OF less.prems(1) False] by simp_all
    have len: "length pre + 1 < 2 ^ 64" and "length (pre @ [?b]) + length (write_varint ?v []) < 2 ^ 64"
      using less.prems(3) w by auto
    from less.hyps [OF drop_bit_decreases [OF False] fit(2) _ this(2)] fit(1)
    have "varint_loop (acc OR push_bit shift (take_bit 7 v)) (shift + 7)
        \<lparr>br_data = (pre @ [?b]) @ write_varint ?v [] @ post, br_position = length (pre @ [?b])\<rparr> =
      Return (Inr ((acc OR push_bit shift (take_bit 7 v)) OR push_bit (shift + 7) ?v),
        \<lparr>br_data = (pre @ [?b]) @ write_varint ?v [] @ post, br_position = length (pre @ [?b]) + length (write_varint ?v [])\<rparr>)"
      by simp
    moreover have "(acc OR push_bit shift (take_bit 7 v)) OR push_bit (shift + 7) ?v = acc OR push_bit shift v"
      by (simp only: or.assoc varint_split)
    ultimately show ?thesis using read_u8_at [OF len, of ?b "write_varint ?v [] @ post"] fit(1)
      by (subst varint_loop.simps) (simp add: w Let_def varint_byte)
  qed
qed

lemma length_write_varint: "unat v < 2 ^ (7 * n) \<Longrightarrow> 0 < n \<Longrightarrow> length (write_varint v []) \<le> n"
proof (induction n arbitrary: v)
  case 0
  then show ?case by simp
next
  case (Suc n)
  show ?case
  proof (cases "drop_bit 7 v = 0")
    case True
    then show ?thesis by (simp add: write_varint_Nil)
  next
    case False
    with drop_bit_fits [OF Suc.prems(1)] have "7 < 7 * Suc n" "unat (drop_bit 7 v) < 2 ^ (7 * n)" by auto
    with Suc.IH [of "drop_bit 7 v"] False show ?thesis by (simp add: write_varint_Nil [of v])
  qed
qed

text \<open>A value together with the call that writes it, and the call that reads a value of the same kind.\<close>

datatype field =
    FU8 u8 | FU16 u16 | FU32 u32 | FU64 u64 | FU128 "128 word"
  | FI8 int | FI16 int | FI32 int | FI64 int | FI128 int
  | FBytes bytes | FVarint u64

fun write_field :: "field \<Rightarrow> byte_writer \<Rightarrow> byte_writer" where
  "write_field (FU8 v) = write_u8 v" | "write_field (FU16 v) = write_u16 v" | "write_field (FU32 v) = write_u32 v"
| "write_field (FU64 v) = write_u64 v" | "write_field (FU128 v) = write_u128 v" | "write_field (FI8 v) = write_i8 v"
| "write_field (FI16 v) = write_i16 v" | "write_field (FI32 v) = write_i32 v" | "write_field (FI64 v) = write_i64 v"
| "write_field (FI128 v) = write_i128 v" | "write_field (FBytes b) = write_bytes b"
| "write_field (FVarint v) = write_varint v"

fun read_field :: "field \<Rightarrow> field reader" where
  "read_field (FU8 _) = read_then read_u8 FU8" | "read_field (FU16 _) = read_then read_u16 FU16"
| "read_field (FU32 _) = read_then read_u32 FU32" | "read_field (FU64 _) = read_then read_u64 FU64"
| "read_field (FU128 _) = read_then read_u128 FU128" | "read_field (FI8 _) = read_then read_i8 FI8"
| "read_field (FI16 _) = read_then read_i16 FI16" | "read_field (FI32 _) = read_then read_i32 FI32"
| "read_field (FI64 _) = read_then read_i64 FI64" | "read_field (FI128 _) = read_then read_i128 FI128"
| "read_field (FBytes b) = read_then (read_bytes (length b)) FBytes"
| "read_field (FVarint _) = read_then read_varint FVarint"

fun field_ok :: "field \<Rightarrow> bool" where
  "field_ok (FI8 v) = (- (2 ^ 7) \<le> v \<and> v < 2 ^ 7)" | "field_ok (FI16 v) = (- (2 ^ 15) \<le> v \<and> v < 2 ^ 15)"
| "field_ok (FI32 v) = (- (2 ^ 31) \<le> v \<and> v < 2 ^ 31)" | "field_ok (FI64 v) = (- (2 ^ 63) \<le> v \<and> v < 2 ^ 63)"
| "field_ok (FI128 v) = (- (2 ^ 127) \<le> v \<and> v < 2 ^ 127)" | "field_ok _ = True"

definition write_fields :: "field list \<Rightarrow> bytes" where
  "write_fields fs = fold write_field fs []"

fun read_fields :: "field list \<Rightarrow> field list reader" where
  "read_fields [] r = Return (Inr [], r)"
| "read_fields (f # fs) r =
     (case read_field f r of
        Panic \<Rightarrow> Panic
      | Return (Inl e, r') \<Rightarrow> Return (Inl e, r')
      | Return (Inr x, r') \<Rightarrow> read_then (read_fields fs) (\<lambda>xs. x # xs) r')"

lemmas write_defs = write_u8_def write_u16_def write_u32_def write_u64_def write_u128_def write_i8_def write_i16_def
  write_i32_def write_i64_def write_i128_def write_bytes_def

lemmas read_defs = read_u8_def read_u16_def read_u32_def read_u64_def read_u128_def read_i8_def read_i16_def
  read_i32_def read_i64_def read_i128_def read_varint_def

lemma write_field_append: "write_field f w = w @ write_field f []"
  by (cases f) (auto simp: write_defs write_varint_append [of _ w])

lemma sint_word_of_int: "- (2 ^ (LENGTH('a) - 1)) \<le> v \<Longrightarrow> v < 2 ^ (LENGTH('a) - 1) \<Longrightarrow> sint (word_of_int v :: 'a::len word) = v"
  by (simp add: sint_word_ariths signed_of_int signed_take_bit_int_eq_self)

lemma from_to_le_others [simp]:
  "from_le_bytes (to_le_bytes 2 a) = (a :: u16)" "from_le_bytes (to_le_bytes 4 b) = (b :: u32)"
  "from_le_bytes (to_le_bytes 16 c) = (c :: 128 word)"
  by (rule from_to_le_bytes, simp)+

lemma read_field_at:
  assumes "field_ok f" "length pre + length (write_field f []) < 2 ^ 64"
  shows "read_field f \<lparr>br_data = pre @ write_field f [] @ post, br_position = length pre\<rparr> =
    Return (Inr f, \<lparr>br_data = pre @ write_field f [] @ post, br_position = length pre + length (write_field f [])\<rparr>)"
proof (cases f)
  case (FVarint v)
  then show ?thesis using varint_loop_at [of v 0 pre 0 post] assms by (simp add: read_defs read_then_def)
qed (use assms read_bytes_at [of pre "write_field f []" "length (write_field f [])" post] in
      \<open>simp_all add: write_defs read_defs read_then_def sint_word_of_int\<close>)

lemma write_fields_Cons: "write_fields (f # fs) = write_field f [] @ write_fields fs"
proof -
  have "fold write_field fs w = w @ fold write_field fs []" for w
  proof (induction fs arbitrary: w)
    case (Cons g fs)
    show ?case
      using write_field_append [of g w] Cons.IH [of "write_field g w"] Cons.IH [of "write_field g []"] by simp
  qed simp
  from this [of "write_field f []"] show ?thesis by (simp add: write_fields_def)
qed

lemma read_fields_at:
  assumes "list_all field_ok fs" "length pre + length (write_fields fs) < 2 ^ 64"
  shows "read_fields fs \<lparr>br_data = pre @ write_fields fs, br_position = length pre\<rparr> =
    Return (Inr fs, \<lparr>br_data = pre @ write_fields fs, br_position = length (pre @ write_fields fs)\<rparr>)"
  using assms
proof (induction fs arbitrary: pre)
  case Nil
  then show ?case by (simp add: write_fields_def)
next
  case (Cons f fs)
  have "length pre + length (write_field f []) < 2 ^ 64" using Cons.prems(2) by (simp add: write_fields_Cons)
  from read_field_at [OF _ this, of "write_fields fs"] Cons.prems Cons.IH [of "pre @ write_field f []"]
  show ?case by (simp add: write_fields_Cons read_then_def)
qed

section \<open>The generator\<close>

lemma range_wraps: "lo < hi \<Longrightarrow> hi - lo + 1 = 0 \<longleftrightarrow> lo = 0 \<and> hi = - 1" for lo hi :: u32
proof
  assume lt: "lo < hi" and "hi - lo + 1 = 0"
  moreover have "hi = (hi - lo + 1) + lo - 1" by simp
  ultimately have h: "hi = lo - 1" by (metis add_0)
  have "lo = 0"
  proof (rule ccontr)
    assume "lo \<noteq> 0"
    then have "unat (lo - 1) = unat lo - 1" by (subst unat_sub) (auto simp: word_le_nat_alt unat_gt_0 Suc_le_eq)
    with h lt show False by (simp add: word_less_nat_alt)
  qed
  with h show "lo = 0 \<and> hi = - 1" by simp
qed auto

lemma rand_range_cases:
  assumes "lo < hi"
  shows "rand_range lo hi s = (if lo = 0 \<and> hi = - 1 then Panic
    else Return (lo + fst (rand_u32 s) mod (hi - lo + 1), snd (rand_u32 s)))"
  using assms range_wraps [OF assms] by (auto simp: rand_range_def Let_def not_le split: prod.splits)

lemma unat_succ: "(a :: 'a::len word) + 1 \<noteq> 0 \<Longrightarrow> unat (a + 1) = unat a + 1"
proof -
  assume ne: "a + 1 \<noteq> 0"
  have "unat a + 1 \<noteq> 2 ^ LENGTH('a)"
  proof
    assume "unat a + 1 = 2 ^ LENGTH('a)"
    then have "unat (a + 1) = 0" by (simp add: unat_word_ariths)
    with ne show False by (simp add: unat_eq_0)
  qed
  moreover have "unat a < 2 ^ LENGTH('a)" by (rule unsigned_less)
  ultimately have "unat a + unat (1 :: 'a word) < 2 ^ LENGTH('a)" unfolding unsigned_1 by linarith
  from unat_add_no_wrap [OF this] show ?thesis by simp
qed

lemma rand_range_offset:
  fixes lo hi x :: u32
  assumes "lo \<le> hi" "hi - lo + 1 \<noteq> 0"
  shows "lo \<le> lo + x mod (hi - lo + 1) \<and> lo + x mod (hi - lo + 1) \<le> hi"
proof -
  let ?r = "hi - lo + 1"
  have d: "unat (hi - lo) = unat hi - unat lo" using assms(1) by (simp add: unat_sub word_le_nat_alt)
  have "unat ?r = unat (hi - lo) + 1" by (rule unat_succ [OF assms(2)])
  moreover have "unat (x mod ?r) < unat ?r" using assms(2) by (simp add: unat_mod unat_gt_0)
  ultimately have "unat (x mod ?r) \<le> unat hi - unat lo" using d by simp
  moreover have le: "unat lo \<le> unat hi" using assms(1) by (simp add: word_le_nat_alt)
  ultimately have "unat lo + unat (x mod ?r) \<le> unat hi" by simp
  moreover from this have "unat (lo + x mod ?r) = unat lo + unat (x mod ?r)"
    using unsigned_less [of hi, where ?'a = nat] by (subst unat_add_no_wrap) auto
  ultimately show ?thesis by (simp add: word_le_nat_alt)
qed

lemma rand_range_result:
  assumes "lo \<le> hi" "\<not> (lo = 0 \<and> hi = - 1)"
  shows "\<exists>x s'. rand_range lo hi s = Return (x, s') \<and> lo \<le> x \<and> x \<le> hi"
proof (cases "lo = hi")
  case True
  then show ?thesis by (auto simp: rand_range_def)
next
  case False
  with assms(1) have lt: "lo < hi" by simp
  from rand_range_cases [OF lt, of s] assms(2)
  have r: "rand_range lo hi s = Return (lo + fst (rand_u32 s) mod (hi - lo + 1), snd (rand_u32 s))" by auto
  have "hi - lo + 1 \<noteq> 0" using range_wraps [OF lt] assms(2) by simp
  from rand_range_offset [OF assms(1) this] r show ?thesis by blast
qed

lemma mset_swap_list: "i < length xs \<Longrightarrow> j < length xs \<Longrightarrow> mset (swap i j xs) = mset xs"
  unfolding swap_def by (rule mset_swap)

lemma shuffle_from_permutes:
  assumes "n < length xs \<or> n = 0" "n < 2 ^ 32 - 1"
  shows "\<exists>ys s'. shuffle_from n xs s = Return (ys, s') \<and> mset ys = mset xs"
  using assms
proof (induction n arbitrary: xs s)
  case 0
  then show ?case by simp
next
  case (Suc i)
  let ?n = "of_nat (Suc i) :: u32"
  have u: "unat ?n = Suc i" using Suc.prems(2) by (simp add: unsigned_of_nat take_bit_nat_eq_self del: of_nat_Suc)
  have "?n \<noteq> - 1"
  proof
    assume "?n = - 1"
    then have "unat ?n = 2 ^ 32 - 1" by (simp only: unat_minus_one_word) simp
    with u Suc.prems(2) show False by simp
  qed
  then obtain j s' where r: "rand_range 0 ?n s = Return (j, s')" and "j \<le> ?n"
    using rand_range_result [of 0 ?n s] by auto
  then have j: "unat j < length xs" using u Suc.prems(1) by (simp add: word_le_nat_alt)
  let ?xs = "swap (Suc i) (unat j) xs"
  have m: "mset ?xs = mset xs" using j Suc.prems(1) by (simp add: mset_swap_list)
  have "length ?xs = length xs" by (simp add: swap_def)
  with Suc.IH [of ?xs s'] Suc.prems obtain ys s'' where "shuffle_from i ?xs s' = Return (ys, s'')" "mset ys = mset ?xs"
    by auto
  with r j m show ?case by (auto simp del: of_nat_Suc)
qed

section \<open>Properties\<close>

text \<open>C12. Whatever sequence of integers, signed integers, byte strings and varints is written, reading the same
  kinds back gives the values written, without error or panic, and leaves the reader at the end.\<close>

theorem fields_roundtrip:
  assumes "list_all field_ok fs" "length (write_fields fs) < 2 ^ 64"
  shows "\<exists>r. read_fields fs (reader_new (write_fields fs)) = Return (Inr fs, r) \<and> reader_is_empty r \<and> remaining r = 0"
  using read_fields_at [OF assms(1), of "[]"] assms(2) by (simp add: reader_new_def reader_is_empty_def remaining_def)

theorem fields_roundtrip_witness:
  "\<exists>r. read_fields [FI16 (- 5), FVarint 300, FBytes [1, 2], FU32 7] (reader_new (write_fields [FI16 (- 5), FVarint 300, FBytes [1, 2], FU32 7]))
     = Return (Inr [FI16 (- 5), FVarint 300, FBytes [1, 2], FU32 7], r)"
proof -
  have "length (write_fields [FI16 (- 5), FVarint 300, FBytes [1, 2], FU32 7]) = 10" by code_simp
  then show ?thesis using fields_roundtrip [of "[FI16 (- 5), FVarint 300, FBytes [1, 2], FU32 7]"] by auto
qed

text \<open>A varint takes between one and ten bytes.\<close>

theorem varint_length: "1 \<le> length (write_varint v []) \<and> length (write_varint v []) \<le> 10"
proof
  show "1 \<le> length (write_varint v [])" by (simp add: write_varint_Nil)
  have "unat v < 2 ^ 64" by simp
  also have "\<dots> \<le> (2 :: nat) ^ (7 * 10)" by (rule power_increasing) auto
  finally show "length (write_varint v []) \<le> 10" by (rule length_write_varint) simp
qed

text \<open>Shuffling a slice of fewer than \<open>2 ^ 32\<close> elements never panics and only permutes it, whatever the state
  of the generator.\<close>

theorem shuffle_permutes:
  assumes "length xs < 2 ^ 32"
  shows "\<exists>ys s'. shuffle xs s = Return (ys, s') \<and> mset ys = mset xs"
  unfolding shuffle_def by (rule shuffle_from_permutes) (use assms in auto)

theorem shuffle_permutes_witness:
  "\<exists>ys s'. shuffle [1 :: nat, 2, 3, 4] (rng_new zero32) = Return (ys, s') \<and> mset ys = mset [1, 2, 3, 4]"
  by (rule shuffle_permutes) simp

text \<open>\<open>rand_range\<close> returns a number between its bounds, both included, and panics exactly when the bounds
  are the whole range of \<open>u32\<close>, whose length wraps to zero.\<close>

theorem rand_range_bounds:
  assumes "lo \<le> hi"
  shows "(rand_range lo hi s = Panic \<longleftrightarrow> lo = 0 \<and> hi = - 1) \<and>
    (\<forall>x s'. rand_range lo hi s = Return (x, s') \<longrightarrow> lo \<le> x \<and> x \<le> hi)"
proof (cases "lo = 0 \<and> hi = - 1")
  case True
  then show ?thesis using rand_range_cases [of lo hi s] by (simp add: word_less_nat_alt unat_minus_one_word)
next
  case False
  from rand_range_result [OF assms False, of s] False show ?thesis by auto
qed

theorem rand_range_bounds_witness:
  "rand_range 0 (- 1) 5 = Panic \<and> rand_range 3 9 5 \<noteq> Panic"
  using rand_range_bounds [of 0 "- 1" 5] rand_range_bounds [of 3 9 5] by simp

end
