(* ===== verification/CrossPartition.thy ===== *)
theory CrossPartition
  imports Prelude
begin

text \<open>
  Messages between partitions, \<open>crates/truth/src/cross_partition.rs\<close>: the global state root, inclusion
  proofs, the registry of consumed messages and the registry of execution receipts. A partition id is a
  32-bit number. The hash is an argument.
\<close>

type_synonym partition_id = u32

section \<open>Global state root\<close>

record global_state_root =
  gs_partition_roots :: "(partition_id \<times> bytes32) list"
  gs_version :: u32

definition global_root_new :: global_state_root where
  "global_root_new = \<lparr>gs_partition_roots = [], gs_version = 0\<rparr>"

definition update_partition :: "partition_id \<Rightarrow> bytes32 \<Rightarrow> global_state_root \<Rightarrow> global_state_root" where
  "update_partition p root g = g\<lparr>gs_partition_roots := hm_insert p root (gs_partition_roots g)\<rparr>"

definition get_partition_root :: "global_state_root \<Rightarrow> partition_id \<Rightarrow> bytes32 option" where
  "get_partition_root g p = map_of (gs_partition_roots g) p"

definition global_root_hash :: "(bytes \<Rightarrow> bytes32) \<Rightarrow> global_state_root \<Rightarrow> bytes32" where
  "global_root_hash hash g =
     hash (to_le_bytes 4 (gs_version g)
       @ concat (map (\<lambda>k. to_le_bytes 4 k @ the (map_of (gs_partition_roots g) k)) (sort (map fst (gs_partition_roots g)))))"

section \<open>Messages and proofs\<close>

record cp_message =
  cm_message_id :: bytes32
  cm_source :: partition_id
  cm_target :: partition_id
  cm_source_block_height :: u64
  cm_payload_hash :: bytes32
  cm_nonce :: u64

definition message_new :: "(bytes \<Rightarrow> bytes32) \<Rightarrow> partition_id \<Rightarrow> partition_id \<Rightarrow> u64 \<Rightarrow> bytes32 \<Rightarrow> u64 \<Rightarrow> cp_message" where
  "message_new hash source target height payload_hash nonce =
     \<lparr>cm_message_id = hash (to_le_bytes 4 source @ to_le_bytes 4 target @ to_le_bytes 8 height @ payload_hash @ to_le_bytes 8 nonce),
      cm_source = source, cm_target = target, cm_source_block_height = height, cm_payload_hash = payload_hash,
      cm_nonce = nonce\<rparr>"

record cp_proof =
  cp_source_block_hash :: bytes32
  cp_source_partition_root :: bytes32
  cp_merkle_proof :: "bytes32 list"
  cp_partition_inclusion_proof :: "bytes32 list"
  cp_qc_validator_count :: u32
  cp_qc_signatures :: "(bytes32 \<times> bytes) list"

datatype cp_error =
    InvalidQC | QCVerificationFailed | PartitionRootMismatch | PartitionNotFound | MerkleProofInvalid
  | MessageAlreadyConsumed | SourceHeightTooOld

text \<open>The smaller of the two hashes comes first.\<close>

definition merkle_parent :: "(bytes \<Rightarrow> bytes32) \<Rightarrow> bytes32 \<Rightarrow> bytes32 \<Rightarrow> bytes32" where
  "merkle_parent hash current sibling =
     (if current < sibling then hash (current @ sibling) else hash (sibling @ current))"

definition verify_merkle_proof :: "(bytes \<Rightarrow> bytes32) \<Rightarrow> bytes32 \<Rightarrow> cp_proof \<Rightarrow> bool" where
  "verify_merkle_proof hash leaf p \<longleftrightarrow>
     fold (\<lambda>e current. merkle_parent hash current e) (cp_merkle_proof p) leaf = cp_source_partition_root p"

definition verify_proof :: "(bytes \<Rightarrow> bytes32) \<Rightarrow> global_state_root \<Rightarrow> cp_message \<Rightarrow> cp_proof \<Rightarrow> cp_error + unit" where
  "verify_proof hash g m p =
     (case get_partition_root g (cm_source m) of
        None \<Rightarrow> Inl PartitionNotFound
      | Some expected \<Rightarrow>
          if cp_source_partition_root p \<noteq> expected then Inl PartitionRootMismatch
          else if \<not> verify_merkle_proof hash (cm_payload_hash m) p then Inl MerkleProofInvalid
          else if cp_qc_validator_count p < 2 then Inl InvalidQC
          else Inr ())"

section \<open>Consumed messages\<close>

record consumed_registry =
  cr_consumed :: "bytes32 set"
  cr_min_valid_height :: u64

definition consumed_new :: consumed_registry where
  "consumed_new = \<lparr>cr_consumed = {}, cr_min_valid_height = 0\<rparr>"

definition mark_consumed :: "bytes32 \<Rightarrow> consumed_registry \<Rightarrow> consumed_registry" where
  "mark_consumed i r = r\<lparr>cr_consumed := insert i (cr_consumed r)\<rparr>"

definition is_consumed :: "consumed_registry \<Rightarrow> bytes32 \<Rightarrow> bool" where
  "is_consumed r i \<longleftrightarrow> i \<in> cr_consumed r"

definition registry_prune :: "u64 \<Rightarrow> u64 \<Rightarrow> consumed_registry \<Rightarrow> consumed_registry" where
  "registry_prune current_height window r = r\<lparr>cr_min_valid_height := saturating_sub current_height window\<rparr>"

section \<open>Receipts\<close>

record artifact_commit =
  ac_operator_id :: bytes32
  ac_job_id :: bytes32
  ac_input_hash :: bytes32
  ac_output_hash :: bytes32
  ac_resource_hash :: bytes32
  ac_receipt_signature :: bytes
  ac_execution_nonce :: u64
  ac_block_height :: u64

definition artifact_commit_new :: "bytes32 \<Rightarrow> bytes32 \<Rightarrow> bytes32 \<Rightarrow> bytes32 \<Rightarrow> bytes32 \<Rightarrow> u64 \<Rightarrow> artifact_commit" where
  "artifact_commit_new operator_id job_id input_hash output_hash resource_hash nonce =
     \<lparr>ac_operator_id = operator_id, ac_job_id = job_id, ac_input_hash = input_hash, ac_output_hash = output_hash,
      ac_resource_hash = resource_hash, ac_receipt_signature = [], ac_execution_nonce = nonce, ac_block_height = 0\<rparr>"

record receipt_entry =
  re_output_hash :: bytes32
  re_operator_id :: bytes32
  re_block_height :: u64

record receipt_registry =
  rr_receipts :: "((bytes32 \<times> bytes32) \<times> receipt_entry) list"
  rr_execution_nonces :: "((bytes32 \<times> bytes32) \<times> u64 set) list"

datatype receipt_error = DuplicateReceipt | NonceReused | JobClosed

definition receipts_new :: receipt_registry where
  "receipts_new = \<lparr>rr_receipts = [], rr_execution_nonces = []\<rparr>"

text \<open>The entry for the nonces is created before they are looked at, also on the error path.\<close>

definition register_receipt :: "artifact_commit \<Rightarrow> (receipt_error, unit, receipt_registry) op" where
  "register_receipt c r =
     (let key = (ac_job_id c, ac_operator_id c)
      in if map_of (rr_receipts r) key \<noteq> None then (Inl DuplicateReceipt, r)
         else
           let nonces = (case map_of (rr_execution_nonces r) key of None \<Rightarrow> {} | Some ns \<Rightarrow> ns)
           in if ac_execution_nonce c \<in> nonces
              then (Inl NonceReused, r\<lparr>rr_execution_nonces := hm_insert key nonces (rr_execution_nonces r)\<rparr>)
              else (Inr (),
                r\<lparr>rr_execution_nonces := hm_insert key (insert (ac_execution_nonce c) nonces) (rr_execution_nonces r),
                  rr_receipts := hm_insert key
                    \<lparr>re_output_hash = ac_output_hash c, re_operator_id = ac_operator_id c, re_block_height = ac_block_height c\<rparr>
                    (rr_receipts r)\<rparr>))"

definition rr_get_receipt :: "receipt_registry \<Rightarrow> bytes32 \<Rightarrow> bytes32 \<Rightarrow> receipt_entry option" where
  "rr_get_receipt r job_id operator_id = map_of (rr_receipts r) (job_id, operator_id)"

definition has_receipt_for_job :: "receipt_registry \<Rightarrow> bytes32 \<Rightarrow> bool" where
  "has_receipt_for_job r job_id \<longleftrightarrow> list_ex (\<lambda>k. fst k = job_id) (map fst (rr_receipts r))"

section \<open>The partition manager\<close>

record partition =
  pt_id :: partition_id
  pt_merkle_root :: bytes32
  pt_block_height :: u64
  pt_validators :: "bytes32 list"

definition partition_new :: "partition_id \<Rightarrow> partition" where
  "partition_new i = \<lparr>pt_id = i, pt_merkle_root = zero32, pt_block_height = 0, pt_validators = []\<rparr>"

record cp_manager =
  pm_partitions :: "(partition_id \<times> partition) list"
  pm_global_state_root :: global_state_root
  pm_message_registry :: consumed_registry
  pm_receipt_registry :: receipt_registry

definition cp_manager_new :: cp_manager where
  "cp_manager_new = \<lparr>pm_partitions = [], pm_global_state_root = global_root_new, pm_message_registry = consumed_new,
     pm_receipt_registry = receipts_new\<rparr>"

definition add_partition :: "partition_id \<Rightarrow> cp_manager \<Rightarrow> cp_manager" where
  "add_partition i pm =
     pm\<lparr>pm_partitions := hm_insert i \<lparr>pt_id = i, pt_merkle_root = zero32, pt_block_height = 0, pt_validators = []\<rparr> (pm_partitions pm),
        pm_global_state_root := update_partition i zero32 (pm_global_state_root pm)\<rparr>"

definition remove_partition :: "partition_id \<Rightarrow> cp_manager \<Rightarrow> partition option \<times> cp_manager" where
  "remove_partition i pm =
     (let g = pm_global_state_root pm
      in (map_of (pm_partitions pm) i,
          pm\<lparr>pm_global_state_root := g\<lparr>gs_partition_roots := hm_remove i (gs_partition_roots g)\<rparr>,
             pm_partitions := hm_remove i (pm_partitions pm)\<rparr>))"

definition update_partition_root :: "partition_id \<Rightarrow> bytes32 \<Rightarrow> cp_manager \<Rightarrow> cp_manager" where
  "update_partition_root i root pm =
     pm\<lparr>pm_partitions := (case map_of (pm_partitions pm) i of
                             None \<Rightarrow> pm_partitions pm
                           | Some p \<Rightarrow> hm_insert i (p\<lparr>pt_merkle_root := root\<rparr>) (pm_partitions pm)),
        pm_global_state_root := update_partition i root (pm_global_state_root pm)\<rparr>"

definition process_message :: "(bytes \<Rightarrow> bytes32) \<Rightarrow> cp_message \<Rightarrow> cp_proof \<Rightarrow> (cp_error, unit, cp_manager) op" where
  "process_message hash m p pm =
     (if is_consumed (pm_message_registry pm) (cm_message_id m) then (Inl MessageAlreadyConsumed, pm)
      else if cm_source_block_height m < cr_min_valid_height (pm_message_registry pm) then (Inl SourceHeightTooOld, pm)
      else case verify_proof hash (pm_global_state_root pm) m p of
             Inl e \<Rightarrow> (Inl e, pm)
           | Inr _ \<Rightarrow> (Inr (), pm\<lparr>pm_message_registry := mark_consumed (cm_message_id m) (pm_message_registry pm)\<rparr>))"

definition pm_commit_artifact :: "artifact_commit \<Rightarrow> (receipt_error, unit, cp_manager) op" where
  "pm_commit_artifact c pm =
     (let (res, r) = register_receipt c (pm_receipt_registry pm) in (res, pm\<lparr>pm_receipt_registry := r\<rparr>))"

definition verify_artifact :: "cp_manager \<Rightarrow> bytes32 \<Rightarrow> (bytes32 \<times> bytes32) option" where
  "verify_artifact pm job_id =
     map_option (\<lambda>(_, e). (re_output_hash e, re_operator_id e))
       (find (\<lambda>((j, _), _). j = job_id) (rr_receipts (pm_receipt_registry pm)))"

definition PRUNE_WINDOW :: u64 where "PRUNE_WINDOW = 10000"

definition pm_prune :: "u64 \<Rightarrow> cp_manager \<Rightarrow> cp_manager" where
  "pm_prune current_height pm =
     pm\<lparr>pm_message_registry := registry_prune current_height PRUNE_WINDOW (pm_message_registry pm)\<rparr>"

section \<open>Runs of the manager\<close>

inductive cp_step :: "(bytes \<Rightarrow> bytes32) \<Rightarrow> cp_manager \<Rightarrow> cp_manager \<Rightarrow> bool" for hash where
  step_add: "cp_step hash pm (add_partition i pm)"
| step_remove: "cp_step hash pm (snd (remove_partition i pm))"
| step_root: "cp_step hash pm (update_partition_root i root pm)"
| step_message: "cp_step hash pm (snd (process_message hash m p pm))"
| step_commit: "cp_step hash pm (snd (pm_commit_artifact c pm))"
| step_prune: "cp_step hash pm (pm_prune height pm)"

lemma consumed_step: "cp_step hash pm pm' \<Longrightarrow> i \<in> cr_consumed (pm_message_registry pm) \<Longrightarrow> i \<in> cr_consumed (pm_message_registry pm')"
  by (induction rule: cp_step.induct)
    (auto simp: add_partition_def remove_partition_def update_partition_root_def process_message_def mark_consumed_def
      pm_commit_artifact_def pm_prune_def registry_prune_def Let_def split: sum.splits prod.splits)

interpretation consumed: step_closed "cp_step hash" "\<lambda>pm. i \<in> cr_consumed (pm_message_registry pm)" for hash i
  by unfold_locales (rule consumed_step)

text \<open>Receipts and nonces are kept for the same keys, so a nonce is only ever seen together with a receipt.\<close>

definition receipts_wf :: "receipt_registry \<Rightarrow> bool" where
  "receipts_wf r \<longleftrightarrow> hm_wf (rr_receipts r) \<and> (\<forall>k. map_of (rr_receipts r) k = None \<longrightarrow> map_of (rr_execution_nonces r) k = None)
     \<and> (\<forall>j i e. map_of (rr_receipts r) (j, i) = Some e \<longrightarrow> re_operator_id e = i)"

lemma register_receipt_cases:
  "receipts_wf r \<Longrightarrow> register_receipt c r = (res, r') \<Longrightarrow>
     res = Inl DuplicateReceipt \<and> r' = r \<and> map_of (rr_receipts r) (ac_job_id c, ac_operator_id c) \<noteq> None \<or>
     res = Inr () \<and> map_of (rr_receipts r) (ac_job_id c, ac_operator_id c) = None \<and> receipts_wf r' \<and>
       map_of (rr_receipts r') = (map_of (rr_receipts r))((ac_job_id c, ac_operator_id c) \<mapsto>
         \<lparr>re_output_hash = ac_output_hash c, re_operator_id = ac_operator_id c, re_block_height = ac_block_height c\<rparr>)"
  by (auto simp: register_receipt_def receipts_wf_def Let_def hm.wf_insert fun_eq_iff split: if_splits option.splits)

lemma receipts_step:
  assumes "cp_step hash pm pm'" "receipts_wf (pm_receipt_registry pm)"
  shows "receipts_wf (pm_receipt_registry pm') \<and> map_of (rr_receipts (pm_receipt_registry pm)) \<subseteq>\<^sub>m map_of (rr_receipts (pm_receipt_registry pm'))"
  using assms
proof (induction rule: cp_step.induct)
  case (step_commit pm c)
  obtain res r where r: "register_receipt c (pm_receipt_registry pm) = (res, r)" by fastforce
  from register_receipt_cases [OF step_commit r] step_commit r show ?case
    by (auto simp: pm_commit_artifact_def map_le_def)
qed (auto simp: add_partition_def remove_partition_def update_partition_root_def process_message_def pm_prune_def
      Let_def split: sum.splits)

lemma receipts_new_wf: "receipts_wf (pm_receipt_registry cp_manager_new)"
  by (simp add: cp_manager_new_def receipts_wf_def receipts_new_def hm.wf_empty)

interpretation receipts_run: transition_system "cp_step hash" "\<lambda>pm. receipts_wf (pm_receipt_registry pm)" "\<lambda>pm. pm = cp_manager_new" for hash
  by unfold_locales (auto dest: receipts_step intro: receipts_new_wf)

interpretation kept_receipts: step_closed "cp_step hash"
  "\<lambda>pm. receipts_wf (pm_receipt_registry pm) \<and> R \<subseteq>\<^sub>m map_of (rr_receipts (pm_receipt_registry pm))" for hash R
  by unfold_locales (blast dest: receipts_step intro: map_le_trans)

section \<open>Merkle trees\<close>

text \<open>The tree an inclusion proof speaks about: the siblings on the way from a leaf to the root.\<close>

datatype merkle_tree = Leaf bytes32 | Node merkle_tree merkle_tree

fun merkle_root :: "(bytes \<Rightarrow> bytes32) \<Rightarrow> merkle_tree \<Rightarrow> bytes32" where
  "merkle_root hash (Leaf h) = h"
| "merkle_root hash (Node l r) = merkle_parent hash (merkle_root hash l) (merkle_root hash r)"

inductive merkle_path :: "(bytes \<Rightarrow> bytes32) \<Rightarrow> merkle_tree \<Rightarrow> bytes32 \<Rightarrow> bytes32 list \<Rightarrow> bool" for hash where
  path_leaf: "merkle_path hash (Leaf h) h []"
| path_left: "merkle_path hash l h ps \<Longrightarrow> merkle_path hash (Node l r) h (ps @ [merkle_root hash r])"
| path_right: "merkle_path hash r h ps \<Longrightarrow> merkle_path hash (Node l r) h (ps @ [merkle_root hash l])"

lemma merkle_parent_commute: "merkle_parent hash a b = merkle_parent hash b a"
  by (auto simp: merkle_parent_def not_less)

lemma merkle_path_root:
  "merkle_path hash t h ps \<Longrightarrow> fold (\<lambda>e current. merkle_parent hash current e) ps h = merkle_root hash t"
  by (induction rule: merkle_path.induct) (auto simp: merkle_parent_commute)

section \<open>Properties\<close>

text \<open>C15. A message is consumed at most once: after it was accepted, whatever the manager does next, pruning
  included, a message with its identifier is refused with \<open>MessageAlreadyConsumed\<close> and changes nothing.\<close>

theorem message_consumed_once:
  assumes "process_message hash m p pm = (Inr (), pm1)" "(cp_step hash)\<^sup>*\<^sup>* pm1 pm2"
    and "cm_message_id m' = cm_message_id m"
  shows "process_message hash m' p' pm2 = (Inl MessageAlreadyConsumed, pm2)"
proof -
  have "cm_message_id m \<in> cr_consumed (pm_message_registry pm1)"
    using assms(1) by (auto simp: process_message_def mark_consumed_def split: if_splits sum.splits)
  from consumed.steps_inv [OF assms(2) this] assms(3) show ?thesis by (simp add: process_message_def is_consumed_def)
qed

definition example_hash :: "bytes \<Rightarrow> bytes32" where
  "example_hash b = take 32 (b @ zero32)"

definition example_proof :: "bytes32 \<Rightarrow> bytes32 list \<Rightarrow> cp_proof" where
  "example_proof root path = \<lparr>cp_source_block_hash = zero32, cp_source_partition_root = root, cp_merkle_proof = path,
     cp_partition_inclusion_proof = [], cp_qc_validator_count = 2, cp_qc_signatures = []\<rparr>"

lemma example_accepts:
  assumes "fold (\<lambda>e current. merkle_parent hash current e) path (cm_payload_hash m) = root" "cm_source m = i"
  shows "process_message hash m (example_proof root path) (update_partition_root i root cp_manager_new) =
    (Inr (), snd (process_message hash m (example_proof root path) (update_partition_root i root cp_manager_new)))"
  using assms by (simp add: process_message_def is_consumed_def update_partition_root_def cp_manager_new_def consumed_new_def
      verify_proof_def get_partition_root_def update_partition_def verify_merkle_proof_def example_proof_def)

theorem message_consumed_once_witness:
  "let m = message_new example_hash 1 2 5 [9] 0; p = example_proof [9] [];
       pm1 = snd (process_message example_hash m p (update_partition_root 1 [9] cp_manager_new))
   in process_message example_hash m p (pm_prune 70000 pm1) = (Inl MessageAlreadyConsumed, pm_prune 70000 pm1)"
proof -
  let ?m = "message_new example_hash 1 2 5 [9] 0"
  have a: "process_message example_hash ?m (example_proof [9] []) (update_partition_root 1 [9] cp_manager_new) =
      (Inr (), snd (process_message example_hash ?m (example_proof [9] []) (update_partition_root 1 [9] cp_manager_new)))"
    by (rule example_accepts) (simp_all add: message_new_def)
  show ?thesis unfolding Let_def
    by (rule message_consumed_once [OF a r_into_rtranclp]) (auto intro: step_prune)
qed

text \<open>An honest proof is accepted: when the payload is a leaf of the tree whose root the manager holds for the
  source partition, and the proof carries the siblings on its path and a count of at least two, a fresh
  message that is not too old is accepted and recorded, and nothing else changes.\<close>

theorem honest_proof_accepted:
  assumes "get_partition_root (pm_global_state_root pm) (cm_source m) = Some (merkle_root hash t)"
    and "merkle_path hash t (cm_payload_hash m) path"
    and "cp_merkle_proof p = path" "cp_source_partition_root p = merkle_root hash t" "2 \<le> cp_qc_validator_count p"
    and "cm_message_id m \<notin> cr_consumed (pm_message_registry pm)"
    and "cr_min_valid_height (pm_message_registry pm) \<le> cm_source_block_height m"
  shows "process_message hash m p pm =
    (Inr (), pm\<lparr>pm_message_registry := mark_consumed (cm_message_id m) (pm_message_registry pm)\<rparr>)"
  using assms merkle_path_root [OF assms(2)]
  by (simp add: process_message_def is_consumed_def verify_proof_def verify_merkle_proof_def not_less [symmetric])

theorem honest_proof_accepted_witness:
  "let t = Node (Leaf [1]) (Node (Leaf [2]) (Leaf [3])); root = merkle_root example_hash t;
       m = message_new example_hash 1 2 5 [3] 0
   in fst (process_message example_hash m (example_proof root [[2], [1]]) (update_partition_root 1 root cp_manager_new)) = Inr ()"
proof -
  let ?t = "Node (Leaf [1]) (Node (Leaf [2]) (Leaf [3]))"
  let ?m = "message_new example_hash 1 2 5 [3] 0"
  have "merkle_path example_hash ?t [3] (([] @ [merkle_root example_hash (Leaf [2])]) @ [merkle_root example_hash (Leaf [1])])"
    by (intro merkle_path.intros)
  then have path: "merkle_path example_hash ?t (cm_payload_hash ?m) [[2], [1]]" by (simp add: message_new_def)
  show ?thesis
    using honest_proof_accepted [OF _ path, of "update_partition_root 1 (merkle_root example_hash ?t) cp_manager_new"
        "example_proof (merkle_root example_hash ?t) [[2], [1]]"]
    by (simp add: Let_def update_partition_root_def cp_manager_new_def get_partition_root_def update_partition_def
        message_new_def example_proof_def consumed_new_def del: merkle_root.simps)
qed

text \<open>The proof is not tied to signatures or to leaves: for any partition the manager knows, a message whose
  payload hash is the partition root itself is accepted with an empty path, no signatures and the claim of
  two validators. A partition just added has the zero root, so the zero payload is accepted for it.\<close>

theorem empty_proof_accepted:
  assumes "get_partition_root (pm_global_state_root pm) (cm_source m) = Some (cm_payload_hash m)"
    and "cm_message_id m \<notin> cr_consumed (pm_message_registry pm)"
    and "cr_min_valid_height (pm_message_registry pm) \<le> cm_source_block_height m"
  shows "fst (process_message hash m
    \<lparr>cp_source_block_hash = b, cp_source_partition_root = cm_payload_hash m, cp_merkle_proof = [],
     cp_partition_inclusion_proof = [], cp_qc_validator_count = 2, cp_qc_signatures = []\<rparr> pm) = Inr ()"
  using assms
  by (simp add: process_message_def is_consumed_def verify_proof_def verify_merkle_proof_def not_less [symmetric])

theorem empty_proof_accepted_witness:
  "fst (process_message example_hash (message_new example_hash 1 2 5 zero32 0)
    \<lparr>cp_source_block_hash = zero32, cp_source_partition_root = cm_payload_hash (message_new example_hash 1 2 5 zero32 0),
     cp_merkle_proof = [], cp_partition_inclusion_proof = [], cp_qc_validator_count = 2, cp_qc_signatures = []\<rparr>
    (add_partition 1 cp_manager_new)) = Inr ()"
  by (rule empty_proof_accepted)
    (simp_all add: add_partition_def cp_manager_new_def get_partition_root_def update_partition_def message_new_def consumed_new_def)

text \<open>Receipts are permanent and unique: once an artifact of a job and operator is committed, every later state
  holds that receipt and refuses another one with \<open>DuplicateReceipt\<close>. The nonce check never fires.\<close>

theorem receipt_permanent:
  assumes "(cp_step hash)\<^sup>*\<^sup>* cp_manager_new pm" "pm_commit_artifact c pm = (res, pm1)"
  shows "res \<noteq> Inl NonceReused \<and>
    (res = Inr () \<longrightarrow> (\<forall>pm2 c2. (cp_step hash)\<^sup>*\<^sup>* pm1 pm2 \<longrightarrow>
      rr_get_receipt (pm_receipt_registry pm2) (ac_job_id c) (ac_operator_id c) =
        Some \<lparr>re_output_hash = ac_output_hash c, re_operator_id = ac_operator_id c, re_block_height = ac_block_height c\<rparr> \<and>
      (ac_job_id c2 = ac_job_id c \<and> ac_operator_id c2 = ac_operator_id c \<longrightarrow>
         fst (pm_commit_artifact c2 pm2) = Inl DuplicateReceipt)))"
proof -
  let ?k = "(ac_job_id c, ac_operator_id c)"
  have w: "receipts_wf (pm_receipt_registry pm)" by (rule receipts_run.reachable_inv [OF assms(1) refl])
  obtain r where r: "register_receipt c (pm_receipt_registry pm) = (res, r)" and pm1: "pm_receipt_registry pm1 = r"
    using assms(2) by (auto simp: pm_commit_artifact_def split: prod.splits)
  note cs = register_receipt_cases [OF w r]
  have later: "map_of (rr_receipts (pm_receipt_registry pm2)) ?k =
      Some \<lparr>re_output_hash = ac_output_hash c, re_operator_id = ac_operator_id c, re_block_height = ac_block_height c\<rparr>"
    if "res = Inr ()" "(cp_step hash)\<^sup>*\<^sup>* pm1 pm2" for pm2
    using cs that kept_receipts.steps_inv [OF that(2), of "map_of (rr_receipts (pm_receipt_registry pm1))"] pm1 by (auto simp: map_le_def dom_def)
  show ?thesis using cs later
    by (auto simp: rr_get_receipt_def pm_commit_artifact_def register_receipt_def Let_def split: prod.splits)
qed

theorem receipt_permanent_witness:
  "let c = artifact_commit_new [1] [2] [3] [4] [5] 6; pm1 = snd (pm_commit_artifact c cp_manager_new)
   in fst (pm_commit_artifact (c\<lparr>ac_output_hash := [7]\<rparr>) (pm_prune 70000 pm1)) = Inl DuplicateReceipt"
proof -
  let ?c = "artifact_commit_new [1] [2] [3] [4] [5] 6"
  have a: "pm_commit_artifact ?c cp_manager_new = (Inr (), snd (pm_commit_artifact ?c cp_manager_new))"
    by (simp add: pm_commit_artifact_def register_receipt_def cp_manager_new_def receipts_new_def Let_def)
  have "cp_step example_hash (snd (pm_commit_artifact ?c cp_manager_new)) (pm_prune 70000 (snd (pm_commit_artifact ?c cp_manager_new)))"
    by (rule step_prune)
  with receipt_permanent [of example_hash, OF rtranclp.rtrancl_refl a] show ?thesis by (auto simp: Let_def)
qed

end
