(* ===== verification/Partitions.thy ===== *)
theory Partitions
  imports Transactions
begin

text \<open>
  The partition manager of \<open>crates/storage/src/partition_manager.rs\<close>: creation under a validator quorum, the
  life cycle of a partition, migration proofs and the global state root over the partitions. Ed25519 and the hash
  are the fields of \<open>crypto\<close>; a key or signature that does not parse verifies nothing.
\<close>

section \<open>Partitions\<close>

datatype partition_status = Pending | Active | Migrating | Frozen | Deleted

record spartition =
  sp_partition_id :: u32
  sp_state_root :: bytes32
  sp_validator_subset :: "bytes32 list option"
  sp_regional_memory_root :: "bytes32 option"
  sp_status :: partition_status
  sp_created_at :: u64
  sp_epoch :: u64

definition spartition_new :: "u32 \<Rightarrow> u64 \<Rightarrow> spartition" where
  "spartition_new i created_at =
     \<lparr>sp_partition_id = i, sp_state_root = zero32, sp_validator_subset = None, sp_regional_memory_root = None,
      sp_status = Pending, sp_created_at = created_at, sp_epoch = 0\<rparr>"

definition sp_activate :: "u64 \<Rightarrow> spartition \<Rightarrow> spartition" where
  "sp_activate epoch p = p\<lparr>sp_status := Active, sp_epoch := epoch\<rparr>"

definition sp_freeze :: "spartition \<Rightarrow> spartition" where
  "sp_freeze p = p\<lparr>sp_status := Frozen\<rparr>"

definition sp_mark_migrating :: "spartition \<Rightarrow> spartition" where
  "sp_mark_migrating p = p\<lparr>sp_status := Migrating\<rparr>"

definition sp_delete :: "spartition \<Rightarrow> spartition" where
  "sp_delete p = p\<lparr>sp_status := Deleted\<rparr>"

section \<open>Operations on partitions\<close>

record partition_create =
  pc_new_partition_id :: u32
  pc_initial_state_root :: bytes32
  pc_configuration_hash :: bytes32
  pc_governance_proposal_id :: bytes32
  pc_signatures :: "(bytes32 \<times> bytes) list"

definition create_message :: "crypto \<Rightarrow> partition_create \<Rightarrow> bytes32" where
  "create_message c pc =
     blake3 c (to_le_bytes 4 (pc_new_partition_id pc) @ pc_initial_state_root pc @ pc_configuration_hash pc
       @ pc_governance_proposal_id pc)"

definition SIGNATURE_LENGTH :: nat where "SIGNATURE_LENGTH = 64"

fun count_verified :: "crypto \<Rightarrow> bytes32 list \<Rightarrow> bytes32 \<Rightarrow> nat \<Rightarrow> (bytes32 \<times> bytes) list \<Rightarrow> nat" where
  "count_verified c validators message verified [] = verified"
| "count_verified c validators message verified ((k, sig) # sigs) =
     (if k \<notin> set validators then count_verified c validators message verified sigs
      else if length sig \<noteq> SIGNATURE_LENGTH then count_verified c validators message verified sigs
      else if ed25519_ok c k message sig then count_verified c validators message (verified + 1) sigs
      else count_verified c validators message verified sigs)"

definition verify_signatures :: "crypto \<Rightarrow> bytes32 list \<Rightarrow> partition_create \<Rightarrow> bool" where
  "verify_signatures c validators pc =
     (let quorum_required = length validators * 2 div 3
      in if length (pc_signatures pc) < quorum_required then False
         else quorum_required \<le> count_verified c validators (create_message c pc) 0 (pc_signatures pc))"

record migration_proof =
  mp_source_state_root :: bytes32
  mp_target_state_root :: bytes32
  mp_migration_merkle_root :: bytes32
  mp_validator_signatures :: "(bytes32 \<times> bytes) list"

definition migration_message :: "crypto \<Rightarrow> migration_proof \<Rightarrow> bytes32" where
  "migration_message c mp =
     blake3 c (mp_source_state_root mp @ mp_target_state_root mp @ mp_migration_merkle_root mp)"

definition migration_verify :: "crypto \<Rightarrow> migration_proof \<Rightarrow> bool" where
  "migration_verify c mp \<longleftrightarrow>
     mp_validator_signatures mp \<noteq> [] \<and>
     list_all (\<lambda>(k, sig). length sig = SIGNATURE_LENGTH \<and> ed25519_ok c k (migration_message c mp) sig)
       (mp_validator_signatures mp)"

record partition_migration =
  pg_source_partition_id :: u32
  pg_target_partition_id :: u32
  pg_migration_key :: bytes32
  pg_keys :: "bytes32 list"
  pg_proof :: migration_proof
  pg_epoch :: u64

record partition_delete =
  pd_partition_id :: u32
  pd_final_state_root :: bytes32
  pd_tombstone_root :: bytes32
  pd_governance_proposal_id :: bytes32
  pd_epoch :: u64

datatype rebalance_reason = Load | Locality | Cost | ValidatorChange | Governance

record partition_rebalance =
  pr_partition_id :: u32
  pr_new_validator_subset :: "bytes32 list"
  pr_reason :: rebalance_reason
  pr_epoch :: u64

datatype partition_operation =
    OpCreate partition_create | OpMigrate partition_migration | OpDelete partition_delete
  | OpRebalance partition_rebalance

datatype partition_error =
    PartitionExists | PartitionNotFoundError | InvalidStateTransition | InsufficientSignatures
  | MigrationInProgress | DataLoss

section \<open>The manager\<close>

record spm =
  spm_partitions :: "(u32 \<times> spartition) list"
  spm_pending_operations :: "partition_operation list"
  spm_global_state_root :: bytes32
  spm_current_epoch :: u64

definition spm_new :: spm where
  "spm_new = \<lparr>spm_partitions = [], spm_pending_operations = [], spm_global_state_root = zero32, spm_current_epoch = 0\<rparr>"

definition partitions_hash :: "crypto \<Rightarrow> (u32 \<times> spartition) list \<Rightarrow> bytes32" where
  "partitions_hash c ps =
     blake3 c (concat (map (\<lambda>(i, p). to_le_bytes 4 i @ sp_state_root p) [(i, p) \<leftarrow> ps. sp_status p \<noteq> Deleted]))"

definition update_global_state_root :: "crypto \<Rightarrow> spm \<Rightarrow> spm" where
  "update_global_state_root c s = s\<lparr>spm_global_state_root := partitions_hash c (spm_partitions s)\<rparr>"

definition put_partition :: "u32 \<Rightarrow> spartition \<Rightarrow> spm \<Rightarrow> spm" where
  "put_partition i p s = s\<lparr>spm_partitions := bt_insert i p (spm_partitions s)\<rparr>"

definition push_operation :: "partition_operation \<Rightarrow> spm \<Rightarrow> spm" where
  "push_operation x s = s\<lparr>spm_pending_operations := spm_pending_operations s @ [x]\<rparr>"

definition create_partition :: "crypto \<Rightarrow> partition_create \<Rightarrow> bytes32 list \<Rightarrow> (partition_error, spartition, spm) op" where
  "create_partition c pc validators s =
     (if map_of (spm_partitions s) (pc_new_partition_id pc) \<noteq> None then (Inl PartitionExists, s)
      else if \<not> verify_signatures c validators pc then (Inl InsufficientSignatures, s)
      else
        let p = spartition_new (pc_new_partition_id pc) (spm_current_epoch s)
        in (Inr p, push_operation (OpCreate pc) (put_partition (pc_new_partition_id pc) p s)))"

definition activate_partition :: "crypto \<Rightarrow> u32 \<Rightarrow> u64 \<Rightarrow> (partition_error, unit, spm) op" where
  "activate_partition c i epoch s =
     (case map_of (spm_partitions s) i of
        None \<Rightarrow> (Inl PartitionNotFoundError, s)
      | Some p \<Rightarrow>
          if sp_status p \<noteq> Pending then (Inl InvalidStateTransition, s)
          else (Inr (), update_global_state_root c ((put_partition i (sp_activate epoch p) s)\<lparr>spm_current_epoch := epoch\<rparr>)))"

text \<open>The target is looked up after the source was marked; the proof is stored, not verified.\<close>

definition migrate_partition :: "u32 \<Rightarrow> u32 \<Rightarrow> partition_migration \<Rightarrow> (partition_error, unit, spm) op" where
  "migrate_partition source_id target_id mig s =
     (case map_of (spm_partitions s) source_id of
        None \<Rightarrow> (Inl PartitionNotFoundError, s)
      | Some p \<Rightarrow>
          if sp_status p \<noteq> Active then (Inl InvalidStateTransition, s)
          else
            let s1 = put_partition source_id (sp_mark_migrating p) s;
                s2 = (case map_of (spm_partitions s1) target_id of
                        None \<Rightarrow> s1
                      | Some t \<Rightarrow>
                          if sp_status t = Active
                          then put_partition target_id (t\<lparr>sp_state_root := mp_target_state_root (pg_proof mig)\<rparr>) s1
                          else s1)
            in (Inr (), push_operation (OpMigrate mig) s2))"

definition complete_migration :: "crypto \<Rightarrow> u32 \<Rightarrow> u64 \<Rightarrow> (partition_error, unit, spm) op" where
  "complete_migration c i epoch s =
     (case map_of (spm_partitions s) i of
        None \<Rightarrow> (Inl PartitionNotFoundError, s)
      | Some p \<Rightarrow>
          if sp_status p \<noteq> Migrating then (Inl InvalidStateTransition, s)
          else (Inr (), update_global_state_root c ((put_partition i (sp_activate epoch p) s)\<lparr>spm_current_epoch := epoch\<rparr>)))"

definition delete_partition :: "crypto \<Rightarrow> partition_delete \<Rightarrow> (partition_error, unit, spm) op" where
  "delete_partition c pd s =
     (case map_of (spm_partitions s) (pd_partition_id pd) of
        None \<Rightarrow> (Inl PartitionNotFoundError, s)
      | Some p \<Rightarrow>
          if sp_status p \<noteq> Frozen \<and> sp_status p \<noteq> Active then (Inl InvalidStateTransition, s)
          else (Inr (), update_global_state_root c
                  (push_operation (OpDelete pd) (put_partition (pd_partition_id pd) (sp_delete p) s))))"

definition freeze_partition :: "crypto \<Rightarrow> u32 \<Rightarrow> (partition_error, unit, spm) op" where
  "freeze_partition c i s =
     (case map_of (spm_partitions s) i of
        None \<Rightarrow> (Inl PartitionNotFoundError, s)
      | Some p \<Rightarrow>
          if sp_status p \<noteq> Active then (Inl InvalidStateTransition, s)
          else (Inr (), update_global_state_root c (put_partition i (sp_freeze p) s)))"

definition rebalance_partition :: "partition_rebalance \<Rightarrow> (partition_error, unit, spm) op" where
  "rebalance_partition pr s =
     (case map_of (spm_partitions s) (pr_partition_id pr) of
        None \<Rightarrow> (Inl PartitionNotFoundError, s)
      | Some p \<Rightarrow>
          if sp_status p \<noteq> Active then (Inl InvalidStateTransition, s)
          else (Inr (), push_operation (OpRebalance pr)
                  (put_partition (pr_partition_id pr)
                    (p\<lparr>sp_validator_subset := Some (pr_new_validator_subset pr), sp_epoch := pr_epoch pr\<rparr>) s)))"

definition get_partition :: "spm \<Rightarrow> u32 \<Rightarrow> spartition option" where
  "get_partition s i = map_of (spm_partitions s) i"

definition get_partitions_by_status :: "spm \<Rightarrow> partition_status \<Rightarrow> spartition list" where
  "get_partitions_by_status s st = [p \<leftarrow> map snd (spm_partitions s). sp_status p = st]"

definition get_active_partitions :: "spm \<Rightarrow> spartition list" where
  "get_active_partitions s = [p \<leftarrow> map snd (spm_partitions s). sp_status p = Active]"

definition spm_advance_epoch :: "u64 \<Rightarrow> spm \<Rightarrow> spm" where
  "spm_advance_epoch new_epoch s = s\<lparr>spm_current_epoch := new_epoch\<rparr>"

definition get_partition_count :: "spm \<Rightarrow> nat" where
  "get_partition_count s = length (spm_partitions s)"

definition get_active_count :: "spm \<Rightarrow> nat" where
  "get_active_count s = length (get_active_partitions s)"

section \<open>Runs of the manager\<close>

inductive spm_step :: "crypto \<Rightarrow> spm \<Rightarrow> spm \<Rightarrow> bool" for c where
  st_create: "spm_step c s (snd (create_partition c pc validators s))"
| st_activate: "spm_step c s (snd (activate_partition c i epoch s))"
| st_migrate: "spm_step c s (snd (migrate_partition i j mig s))"
| st_complete: "spm_step c s (snd (complete_migration c i epoch s))"
| st_delete: "spm_step c s (snd (delete_partition c pd s))"
| st_freeze: "spm_step c s (snd (freeze_partition c i s))"
| st_rebalance: "spm_step c s (snd (rebalance_partition pr s))"
| st_epoch: "spm_step c s (spm_advance_epoch e s)"

text \<open>The life cycle: what a single call can make of a partition's status.\<close>

inductive status_step :: "partition_status option \<Rightarrow> partition_status option \<Rightarrow> bool" where
  ls_create: "status_step None (Some Pending)"
| ls_activate: "status_step (Some Pending) (Some Active)"
| ls_migrate: "status_step (Some Active) (Some Migrating)"
| ls_complete: "status_step (Some Migrating) (Some Active)"
| ls_freeze: "status_step (Some Active) (Some Frozen)"
| ls_delete: "status_step (Some Active) (Some Deleted)"
| ls_delete_frozen: "status_step (Some Frozen) (Some Deleted)"

inductive_simps status_step_deleted [simp]: "status_step (Some Deleted) y"

definition status_of :: "spm \<Rightarrow> u32 \<Rightarrow> partition_status option" where
  "status_of s i = map_option sp_status (get_partition s i)"

lemmas manager_defs = create_partition_def activate_partition_def migrate_partition_def complete_migration_def
  delete_partition_def freeze_partition_def rebalance_partition_def spm_advance_epoch_def update_global_state_root_def
  put_partition_def push_operation_def sp_activate_def sp_freeze_def sp_mark_migrating_def sp_delete_def
  spartition_new_def

lemma spm_step_wf: "spm_step c s s' \<Longrightarrow> bt_wf (spm_partitions s) \<Longrightarrow> bt_wf (spm_partitions s')"
  by (induction rule: spm_step.induct)
    (auto simp: manager_defs Let_def bt.wf_insert split: option.splits)

lemma spm_step_status:
  "spm_step c s s' \<Longrightarrow> bt_wf (spm_partitions s) \<Longrightarrow> status_of s' k = status_of s k \<or> status_step (status_of s k) (status_of s' k)"
  by (induction rule: spm_step.induct)
    (auto simp: status_of_def get_partition_def manager_defs Let_def bt.get_insert bt.wf_insert
      intro: status_step.intros split: option.splits if_splits)

interpretation life_cycle: simulation "spm_step c" "\<lambda>s. bt_wf (spm_partitions s)" "\<lambda>s. status_of s k" status_step for c k
  by unfold_locales (auto intro: spm_step_wf dest: spm_step_status)

interpretation deleted: step_closed status_step "\<lambda>st. st = Some Deleted"
  by unfold_locales auto

lemma spm_new_wf: "bt_wf (spm_partitions spm_new)"
  by (simp add: spm_new_def bt.wf_empty)

section \<open>Signatures\<close>

definition valid_entry :: "crypto \<Rightarrow> bytes32 list \<Rightarrow> bytes32 \<Rightarrow> bytes32 \<times> bytes \<Rightarrow> bool" where
  "valid_entry c validators message = (\<lambda>(k, sig). k \<in> set validators \<and> length sig = SIGNATURE_LENGTH \<and> ed25519_ok c k message sig)"

lemma count_verified_filter:
  "count_verified c validators message n sigs = n + length [e \<leftarrow> sigs. valid_entry c validators message e]"
  by (induction c validators message n sigs rule: count_verified.induct) (auto simp: valid_entry_def)

lemma verify_signatures_iff:
  "verify_signatures c validators pc \<longleftrightarrow>
     length validators * 2 div 3 \<le> length [e \<leftarrow> pc_signatures pc. valid_entry c validators (create_message c pc) e]"
  by (simp add: verify_signatures_def Let_def count_verified_filter) (meson le_trans not_less length_filter_le)

section \<open>Properties\<close>

text \<open>C16. Every run moves the status of each partition along the life cycle only: absent, pending, active,
  back and forth between active and migrating, frozen, deleted; and a deleted partition stays deleted, with its
  identifier never free for another partition.\<close>

theorem partition_lifecycle:
  assumes "(spm_step c)\<^sup>*\<^sup>* spm_new s" "(spm_step c)\<^sup>*\<^sup>* s s'"
  shows "status_step\<^sup>*\<^sup>* (status_of s i) (status_of s' i) \<and>
    (status_of s i = Some Deleted \<longrightarrow> status_of s' i = Some Deleted \<and>
      (pc_new_partition_id pc = i \<longrightarrow> create_partition c pc vs s' = (Inl PartitionExists, s')))"
proof -
  have "bt_wf (spm_partitions s)" by (rule life_cycle.steps_inv [OF assms(1) spm_new_wf])
  from life_cycle.run_simulated [OF assms(2) this] have st: "status_step\<^sup>*\<^sup>* (status_of s i) (status_of s' i)" .
  then have "status_of s i = Some Deleted \<longrightarrow> status_of s' i = Some Deleted" using deleted.steps_inv by auto
  with st show ?thesis by (auto simp: create_partition_def status_of_def get_partition_def)
qed

definition example_crypto :: crypto where
  "example_crypto = \<lparr>blake3 = (\<lambda>m. take 32 (m @ zero32)), ed25519_ok = (\<lambda>k m s. s = m @ k)\<rparr>"

definition example_create :: "bytes32 list \<Rightarrow> partition_create" where
  "example_create ks =
     (let pc = \<lparr>pc_new_partition_id = 7, pc_initial_state_root = zero32, pc_configuration_hash = zero32,
                pc_governance_proposal_id = zero32, pc_signatures = []\<rparr>
      in pc\<lparr>pc_signatures := map (\<lambda>k. (k, create_message example_crypto pc @ k)) ks\<rparr>)"

lemma example_signatures: "list_all (valid_entry example_crypto vs (create_message example_crypto (example_create ks)))
    (pc_signatures (example_create ks)) \<longleftrightarrow> (\<forall>k \<in> set ks. k \<in> set vs \<and> length k = 32)"
  by (auto simp: example_create_def Let_def list_all_iff valid_entry_def create_message_def SIGNATURE_LENGTH_def
      example_crypto_def)

theorem partition_lifecycle_witness:
  "status_step\<^sup>*\<^sup>* (status_of spm_new 7)
     (status_of (snd (activate_partition example_crypto 7 3 (snd (create_partition example_crypto (example_create []) [] spm_new)))) 7)"
proof -
  let ?a = "snd (create_partition example_crypto (example_create []) [] spm_new)"
  have "spm_step example_crypto spm_new ?a" by (rule st_create)
  moreover have "spm_step example_crypto ?a (snd (activate_partition example_crypto 7 3 ?a))" by (rule st_activate)
  ultimately have "(spm_step example_crypto)\<^sup>*\<^sup>* spm_new (snd (activate_partition example_crypto 7 3 ?a))"
    by (meson rtranclp.rtrancl_into_rtrancl rtranclp.rtrancl_refl)
  from partition_lifecycle [OF rtranclp.rtrancl_refl this, of 7] show ?thesis by blast
qed

text \<open>When the signers of a creation request are listed once each, it is accepted only if two thirds of the
  validators, rounded down, signed it with a valid signature of 64 bytes.\<close>

theorem creation_needs_signers:
  assumes "create_partition c pc validators s = (Inr p, s')" "distinct (map fst (pc_signatures pc))"
  shows "length validators * 2 div 3 \<le>
    card {k \<in> set validators. \<exists>sig. (k, sig) \<in> set (pc_signatures pc) \<and> length sig = 64 \<and> ed25519_ok c k (create_message c pc) sig}"
proof -
  let ?f = "[e \<leftarrow> pc_signatures pc. valid_entry c validators (create_message c pc) e]"
  let ?S = "{k \<in> set validators. \<exists>sig. (k, sig) \<in> set (pc_signatures pc) \<and> length sig = 64 \<and> ed25519_ok c k (create_message c pc) sig}"
  have q: "length validators * 2 div 3 \<le> length ?f"
    using assms(1) by (auto simp: create_partition_def verify_signatures_iff split: if_splits)
  have "distinct (map fst ?f)" using assms(2) by (rule distinct_map_filter)
  then have "length ?f = card (set (map fst ?f))" using distinct_card by fastforce
  also have "\<dots> \<le> card ?S" by (rule card_mono) (auto simp: valid_entry_def SIGNATURE_LENGTH_def)
  finally show ?thesis using q by linarith
qed

theorem creation_needs_signers_witness:
  "length [replicate 32 1, replicate 32 2, replicate 32 (3 :: u8)] * 2 div 3 \<le>
    card {k \<in> set [replicate 32 1, replicate 32 2, replicate 32 3]. \<exists>sig. (k, sig) \<in> set (pc_signatures (example_create [replicate 32 1, replicate 32 2]))
      \<and> length sig = 64 \<and> ed25519_ok example_crypto k (create_message example_crypto (example_create [replicate 32 1, replicate 32 2])) sig}"
proof -
  let ?vs = "[replicate 32 1, replicate 32 2, replicate 32 (3 :: u8)]" and ?pc = "example_create [replicate 32 1, replicate 32 2]"
  have "list_all (valid_entry example_crypto ?vs (create_message example_crypto ?pc)) (pc_signatures ?pc)"
    unfolding example_signatures by simp
  moreover have "length (pc_signatures ?pc) = 2" by (simp add: example_create_def Let_def)
  ultimately have "verify_signatures example_crypto ?vs ?pc"
    unfolding verify_signatures_iff by (simp add: list_all_iff)
  then obtain p s' where "create_partition example_crypto ?pc ?vs spm_new = (Inr p, s')"
    by (auto simp: create_partition_def spm_new_def Let_def)
  moreover have "distinct (map fst (pc_signatures ?pc))"
    by (simp add: example_create_def Let_def replicate_eq_replicate)
  ultimately show ?thesis by (rule creation_needs_signers)
qed

text \<open>Signatures are counted with repetition: one validator that signs a creation request is enough for any
  number of validators, when its signature is listed often enough.\<close>

theorem repeated_signature_reaches_quorum:
  assumes "k \<in> set validators" "length sig = 64" "ed25519_ok c k (create_message c pc) sig"
    and "map_of (spm_partitions s) (pc_new_partition_id pc) = None"
  shows "\<exists>p s'. create_partition c (pc\<lparr>pc_signatures := replicate (length validators) (k, sig)\<rparr>) validators s = (Inr p, s')"
proof -
  let ?pc = "pc\<lparr>pc_signatures := replicate (length validators) (k, sig)\<rparr>"
  have "create_message c ?pc = create_message c pc" by (simp add: create_message_def)
  then have "verify_signatures c validators ?pc"
    using assms(1-3) by (simp add: verify_signatures_iff valid_entry_def SIGNATURE_LENGTH_def filter_replicate)
  then show ?thesis using assms(4) by (simp add: create_partition_def Let_def)
qed

lemma example_signature_ok:
  "length (create_message example_crypto pc) = 32" "ed25519_ok example_crypto k m (m @ k)"
  by (simp_all add: example_crypto_def create_message_def)

theorem repeated_signature_reaches_quorum_witness:
  "\<exists>p s'. create_partition example_crypto ((example_create [])\<lparr>pc_signatures :=
      replicate (length [1, 2, 3, 4 :: u8]) (replicate 32 1, create_message example_crypto (example_create []) @ replicate 32 1)\<rparr>)
      (map (replicate 32) [1, 2, 3, 4]) spm_new = (Inr p, s')"
  using repeated_signature_reaches_quorum [of "replicate 32 1" "map (replicate 32) [1, 2, 3, 4]"
      "create_message example_crypto (example_create []) @ replicate 32 1" example_crypto "example_create []" spm_new]
    example_signature_ok
  by (simp add: spm_new_def)

text \<open>A migration installs the target root its proof names without looking at the proof: any proof, also one
  that does not verify, changes the root of an active target, and the global root is left as it was.\<close>

theorem migration_ignores_proof:
  assumes "bt_wf (spm_partitions s)" "get_partition s i = Some p" "sp_status p = Active"
    and "get_partition s j = Some t" "sp_status t = Active" "i \<noteq> j"
  shows "\<exists>s'. migrate_partition i j mig s = (Inr (), s')
    \<and> map_option sp_state_root (get_partition s' j) = Some (mp_target_state_root (pg_proof mig))
    \<and> status_of s' i = Some Migrating \<and> spm_global_state_root s' = spm_global_state_root s"
  using assms by (auto simp: get_partition_def status_of_def manager_defs Let_def bt.get_insert bt.wf_insert)

theorem migration_ignores_proof_witness:
  "let p = sp_activate 1 (spartition_new 1 0); t = sp_activate 1 (spartition_new 2 0);
       mp = \<lparr>mp_source_state_root = zero32, mp_target_state_root = [9], mp_migration_merkle_root = zero32, mp_validator_signatures = []\<rparr>;
       mig = \<lparr>pg_source_partition_id = 1, pg_target_partition_id = 2, pg_migration_key = zero32, pg_keys = [], pg_proof = mp, pg_epoch = 2\<rparr>
   in \<not> migration_verify example_crypto mp \<and>
      (\<exists>s'. migrate_partition 1 2 mig (spm_new\<lparr>spm_partitions := [(1, p), (2, t)]\<rparr>) = (Inr (), s')
        \<and> map_option sp_state_root (get_partition s' 2) = Some [9])"
proof -
  let ?p = "sp_activate 1 (spartition_new 1 0)" and ?t = "sp_activate 1 (spartition_new 2 0)"
  let ?s = "spm_new\<lparr>spm_partitions := [(1, ?p), (2, ?t)]\<rparr>"
  have "bt_wf (spm_partitions ?s)" "get_partition ?s 1 = Some ?p" "sp_status ?p = Active" "get_partition ?s 2 = Some ?t"
    "sp_status ?t = Active" "(1 :: u32) \<noteq> 2"
    by (simp_all add: bt_wf_def get_partition_def sp_activate_def)
  from migration_ignores_proof [OF this] show ?thesis by (fastforce simp: Let_def migration_verify_def)
qed

end
