(* ===== verification/Disputes.thy ===== *)
theory Disputes
  imports Prelude
begin

text \<open>
  The dispute engine of \<open>crates/intelligence/src/dispute.rs\<close>: a challenger opens a dispute on a job with a
  bond, the dispute is escalated, adjudicated, resolved and possibly appealed; the resolution slashes and
  splits the slashed amount. Two serializations are arguments: \<open>dispute_id\<close>, the hash of the encoded
  tuple of job, receipt, challenger and block, and \<open>encodes\<close>, whether a fraud proof can be encoded.
\<close>

section \<open>Data\<close>

record resource_metrics_snapshot =
  rm_gpu_cycles :: u64
  rm_vram_bytes :: u64
  rm_cpu_cycles :: u64
  rm_memory_bytes :: u64
  rm_bandwidth_bytes :: u64
  rm_execution_time_ms :: u64

record evidence_bundle =
  eb_kernel_binary_hash :: bytes32
  eb_input_data_snapshot :: bytes
  eb_execution_logs :: bytes
  eb_resource_metrics :: resource_metrics_snapshot

record fraud_proof =
  fp_receipt_hash :: bytes32
  fp_operator_id :: bytes32
  fp_recomputed_output_hash :: bytes32
  fp_original_output_hash :: bytes32
  fp_kernel_id :: bytes32
  fp_input_hash :: bytes32
  fp_deterministic_seed :: "bytes32 option"
  fp_evidence_bundle :: evidence_bundle
  fp_challenger_signature :: bytes

datatype dispute_status =
  DsPending | ValidationPhase | VerificationEscalation | Adjudicating | Resolved | Appealed | Canceled

datatype dispute_outcome = FraudConfirmed | FraudRejected | Inconclusive

record dispute_resolution =
  dr_outcome :: dispute_outcome
  dr_slashed_amount :: u64
  dr_challenger_share :: u64
  dr_verifier_share :: u64
  dr_treasury_share :: u64
  dr_operator_penalty :: u64
  dr_resolution_block :: u64

datatype appeal_reason = ProceduralError | EvidenceCorruption | GovernanceReview

record appeal =
  ap_reason :: appeal_reason
  ap_new_evidence :: "evidence_bundle option"
  ap_appeal_bond :: u64
  ap_created_at_block :: u64
  ap_window_blocks :: u64

record dispute =
  dp_id :: bytes32
  dp_job_id :: bytes32
  dp_receipt_hash :: bytes32
  dp_fraud_proof :: fraud_proof
  dp_challenger_id :: bytes32
  dp_challenger_bond :: u64
  dp_status :: dispute_status
  dp_created_at_block :: u64
  dp_verification_window_blocks :: u64
  dp_resolution :: "dispute_resolution option"
  dp_appeal :: "appeal option"
  dp_verification_level :: u8

record verifier_signature =
  vs_verifier_id :: bytes32
  vs_signature :: bytes

record dispute_verification =
  dv_job_id :: bytes32
  dv_receipt_hash :: bytes32
  dv_recomputed_output_hash :: bytes32
  dv_verification_signatures :: "verifier_signature list"
  dv_verification_level :: u8

record slash_distribution =
  sd_challenger_share_ratio :: u64
  sd_verifier_share_ratio :: u64
  sd_treasury_share_ratio :: u64

definition slash_distribution_default :: slash_distribution where
  "slash_distribution_default =
     \<lparr>sd_challenger_share_ratio = 3000, sd_verifier_share_ratio = 3000, sd_treasury_share_ratio = 4000\<rparr>"

datatype d_escrow_status = DeActive | DeFrozen | DeReleased | DeRefunded | DePartiallyRefunded

record escrow_state =
  es_job_id :: bytes32
  es_amount :: u64
  es_status :: d_escrow_status
  es_recipient :: "bytes32 option"

record dispute_engine =
  de_min_challenger_bond :: u64
  de_governance_min_slash :: u64
  de_slash_alpha_ratio :: u64
  de_slash_beta_ratio :: u64
  de_adjudication_window_blocks :: u64
  de_default_verification_window :: u64
  de_slash_distribution :: slash_distribution
  de_disputes :: "(bytes32 \<times> dispute) list"
  de_job_escrow :: "(bytes32 \<times> escrow_state) list"
  de_frozen_bonds :: "(bytes32 \<times> u64) list"
  de_disputes_by_job :: "(bytes32 \<times> bytes32 list) list"

datatype dispute_error =
    InsufficientBond | OutsideDisputeWindow | DisputeAlreadyExists | DisputeNotFound | InvalidDisputeState
  | SerializationError | OutsideAppealWindow

section \<open>Operations\<close>

definition dispute_engine_new :: "u64 \<Rightarrow> u64 \<Rightarrow> u64 \<Rightarrow> u64 \<Rightarrow> dispute_engine" where
  "dispute_engine_new min_bond min_slash alpha beta =
     \<lparr>de_min_challenger_bond = min_bond, de_governance_min_slash = min_slash, de_slash_alpha_ratio = alpha,
      de_slash_beta_ratio = beta, de_adjudication_window_blocks = 100, de_default_verification_window = 500,
      de_slash_distribution = slash_distribution_default, de_disputes = [], de_job_escrow = [], de_frozen_bonds = [],
      de_disputes_by_job = []\<rparr>"

definition init_escrow :: "bytes32 \<Rightarrow> u64 \<Rightarrow> bytes32 \<Rightarrow> dispute_engine \<Rightarrow> dispute_engine" where
  "init_escrow job_id amount recipient s =
     s\<lparr>de_job_escrow := hm_insert job_id
         \<lparr>es_job_id = job_id, es_amount = amount, es_status = DeActive, es_recipient = Some recipient\<rparr> (de_job_escrow s)\<rparr>"

definition set_escrow_status :: "bytes32 \<Rightarrow> d_escrow_status \<Rightarrow> dispute_engine \<Rightarrow> dispute_engine" where
  "set_escrow_status job_id st s =
     (case map_of (de_job_escrow s) job_id of
        None \<Rightarrow> s
      | Some e \<Rightarrow> s\<lparr>de_job_escrow := hm_insert job_id (e\<lparr>es_status := st\<rparr>) (de_job_escrow s)\<rparr>)"

record dispute_request =
  rq_job_id :: bytes32
  rq_receipt_hash :: bytes32
  rq_fraud_proof :: fraud_proof
  rq_challenger_id :: bytes32
  rq_challenger_bond :: u64
  rq_current_block :: u64
  rq_receipt_block :: u64
  rq_verification_window_blocks :: u64

text \<open>The arguments of \<open>initiate_dispute\<close> are bundled in \<open>dispute_request\<close>.\<close>

definition initiate_dispute ::
    "(bytes32 \<Rightarrow> bytes32 \<Rightarrow> bytes32 \<Rightarrow> u64 \<Rightarrow> bytes32) \<Rightarrow> (fraud_proof \<Rightarrow> bool) \<Rightarrow> dispute_request \<Rightarrow>
     (dispute_error, bytes32, dispute_engine) op" where
  "initiate_dispute dispute_id encodes rq s =
     (if rq_challenger_bond rq < de_min_challenger_bond s then (Inl InsufficientBond, s)
      else if rq_receipt_block rq + rq_verification_window_blocks rq < rq_current_block rq then (Inl OutsideDisputeWindow, s)
      else if hm_lookup_list (de_disputes_by_job s) (rq_job_id rq) \<noteq> [] then (Inl DisputeAlreadyExists, s)
      else if \<not> encodes (rq_fraud_proof rq) then (Inl SerializationError, s)
      else
        let i = dispute_id (rq_job_id rq) (rq_receipt_hash rq) (rq_challenger_id rq) (rq_current_block rq);
            d = \<lparr>dp_id = i, dp_job_id = rq_job_id rq, dp_receipt_hash = rq_receipt_hash rq, dp_fraud_proof = rq_fraud_proof rq,
                 dp_challenger_id = rq_challenger_id rq, dp_challenger_bond = rq_challenger_bond rq,
                 dp_status = ValidationPhase, dp_created_at_block = rq_current_block rq,
                 dp_verification_window_blocks = rq_verification_window_blocks rq, dp_resolution = None, dp_appeal = None,
                 dp_verification_level = 0\<rparr>;
            s1 = s\<lparr>de_disputes := hm_insert i d (de_disputes s),
                   de_disputes_by_job := hm_push (rq_job_id rq) i (de_disputes_by_job s)\<rparr>;
            s2 = set_escrow_status (rq_job_id rq) DeFrozen s1
        in (Inr i, s2\<lparr>de_frozen_bonds := hm_insert (rq_challenger_id rq) (rq_challenger_bond rq) (de_frozen_bonds s2)\<rparr>))"

definition validate_dispute :: "dispute_engine \<Rightarrow> bytes32 \<Rightarrow> dispute_error + bool" where
  "validate_dispute s i =
     (case map_of (de_disputes s) i of
        None \<Rightarrow> Inl DisputeNotFound
      | Some d \<Rightarrow> Inr (de_min_challenger_bond s \<le> dp_challenger_bond d))"

definition put_dispute :: "bytes32 \<Rightarrow> dispute \<Rightarrow> dispute_engine \<Rightarrow> dispute_engine" where
  "put_dispute i d s = s\<lparr>de_disputes := hm_insert i d (de_disputes s)\<rparr>"

definition escalate_to_verification :: "bytes32 \<Rightarrow> u8 \<Rightarrow> (dispute_error, unit, dispute_engine) op" where
  "escalate_to_verification i level s =
     (case map_of (de_disputes s) i of
        None \<Rightarrow> (Inl DisputeNotFound, s)
      | Some d \<Rightarrow>
          if dp_status d \<noteq> ValidationPhase then (Inl InvalidDisputeState, s)
          else (Inr (), put_dispute i (d\<lparr>dp_status := VerificationEscalation, dp_verification_level := level\<rparr>) s))"

definition submit_verification_result :: "bytes32 \<Rightarrow> dispute_verification \<Rightarrow> (dispute_error, unit, dispute_engine) op" where
  "submit_verification_result i result s =
     (case map_of (de_disputes s) i of
        None \<Rightarrow> (Inl DisputeNotFound, s)
      | Some d \<Rightarrow>
          if dp_status d \<noteq> VerificationEscalation then (Inl InvalidDisputeState, s)
          else (Inr (), put_dispute i (d\<lparr>dp_status := Adjudicating\<rparr>) s))"

definition slash_amount :: "u64 \<Rightarrow> u64 \<Rightarrow> dispute_engine \<Rightarrow> u64" where
  "slash_amount job_budget verification_cost s =
     max (max (de_governance_min_slash s) (job_budget * de_slash_alpha_ratio s div 10000))
       (verification_cost * de_slash_beta_ratio s div 10000)"

definition make_resolution :: "u64 \<Rightarrow> u64 \<Rightarrow> u64 \<Rightarrow> dispute_engine \<Rightarrow> dispute \<Rightarrow> dispute_resolution" where
  "make_resolution job_budget verification_cost current_block s d =
     (let fraud = fp_recomputed_output_hash (dp_fraud_proof d) \<noteq> fp_original_output_hash (dp_fraud_proof d);
          amount = slash_amount job_budget verification_cost s;
          slashed = (if fraud then amount else dp_challenger_bond d);
          dist = de_slash_distribution s
      in \<lparr>dr_outcome = (if fraud then FraudConfirmed else FraudRejected), dr_slashed_amount = slashed,
          dr_challenger_share = slashed * sd_challenger_share_ratio dist div 10000,
          dr_verifier_share = slashed * sd_verifier_share_ratio dist div 10000,
          dr_treasury_share = slashed * sd_treasury_share_ratio dist div 10000,
          dr_operator_penalty = (if fraud then amount else 0), dr_resolution_block = current_block\<rparr>)"

definition resolve_dispute :: "bytes32 \<Rightarrow> u64 \<Rightarrow> u64 \<Rightarrow> u64 \<Rightarrow> (dispute_error, dispute_resolution, dispute_engine) op" where
  "resolve_dispute i job_budget verification_cost current_block s =
     (case map_of (de_disputes s) i of
        None \<Rightarrow> (Inl DisputeNotFound, s)
      | Some d \<Rightarrow>
          if dp_status d \<noteq> Adjudicating then (Inl InvalidDisputeState, s)
          else
            let r = make_resolution job_budget verification_cost current_block s d;
                fraud = (dr_outcome r = FraudConfirmed);
                s1 = set_escrow_status (dp_job_id d) (if fraud then DeRefunded else DeReleased) s;
                s2 = put_dispute i (d\<lparr>dp_status := Resolved, dp_resolution := Some r\<rparr>) s1;
                bonds = (if fraud then hm_remove (dp_challenger_id d) (de_frozen_bonds s2)
                         else case map_of (de_frozen_bonds s2) (dp_challenger_id d) of
                                None \<Rightarrow> de_frozen_bonds s2
                              | Some b \<Rightarrow> hm_insert (dp_challenger_id d) (saturating_sub b (dr_slashed_amount r)) (de_frozen_bonds s2))
            in (Inr r, s2\<lparr>de_frozen_bonds := bonds\<rparr>))"

definition submit_appeal :: "bytes32 \<Rightarrow> appeal_reason \<Rightarrow> evidence_bundle option \<Rightarrow> u64 \<Rightarrow> u64 \<Rightarrow> (dispute_error, unit, dispute_engine) op" where
  "submit_appeal i reason new_evidence appeal_bond current_block s =
     (case map_of (de_disputes s) i of
        None \<Rightarrow> (Inl DisputeNotFound, s)
      | Some d \<Rightarrow>
          if dp_status d \<noteq> Resolved then (Inl InvalidDisputeState, s)
          else if (case dp_resolution d of None \<Rightarrow> False | Some r \<Rightarrow> dr_resolution_block r + 50 < current_block)
          then (Inl OutsideAppealWindow, s)
          else (Inr (), put_dispute i
                 (d\<lparr>dp_appeal := Some \<lparr>ap_reason = reason, ap_new_evidence = new_evidence, ap_appeal_bond = appeal_bond,
                     ap_created_at_block = current_block, ap_window_blocks = 50\<rparr>, dp_status := Appealed\<rparr>) s))"

definition get_dispute :: "dispute_engine \<Rightarrow> bytes32 \<Rightarrow> dispute option" where
  "get_dispute s i = map_of (de_disputes s) i"

definition get_disputes_for_job :: "dispute_engine \<Rightarrow> bytes32 \<Rightarrow> bytes32 list option" where
  "get_disputes_for_job s j = map_of (de_disputes_by_job s) j"

definition de_get_escrow :: "dispute_engine \<Rightarrow> bytes32 \<Rightarrow> escrow_state option" where
  "de_get_escrow s j = map_of (de_job_escrow s) j"

definition is_within_dispute_window :: "u64 \<Rightarrow> u64 \<Rightarrow> u64 \<Rightarrow> bool" where
  "is_within_dispute_window receipt_block current_block window \<longleftrightarrow> current_block \<le> receipt_block + window"

section \<open>Runs of the engine\<close>

inductive dispute_step :: "(bytes32 \<Rightarrow> bytes32 \<Rightarrow> bytes32 \<Rightarrow> u64 \<Rightarrow> bytes32) \<Rightarrow> (fraud_proof \<Rightarrow> bool) \<Rightarrow>
    dispute_engine \<Rightarrow> dispute_engine \<Rightarrow> bool" for dispute_id encodes where
  ds_escrow: "dispute_step dispute_id encodes s (init_escrow j a r s)"
| ds_initiate: "dispute_step dispute_id encodes s (snd (initiate_dispute dispute_id encodes rq s))"
| ds_escalate: "dispute_step dispute_id encodes s (snd (escalate_to_verification i level s))"
| ds_verify: "dispute_step dispute_id encodes s (snd (submit_verification_result i result s))"
| ds_resolve: "dispute_step dispute_id encodes s (snd (resolve_dispute i budget cost block s))"
| ds_appeal: "dispute_step dispute_id encodes s (snd (submit_appeal i reason evidence bond block s))"

definition job_of_id :: "(bytes32 \<Rightarrow> bytes32 \<Rightarrow> bytes32 \<Rightarrow> u64 \<Rightarrow> bytes32) \<Rightarrow> bool" where
  "job_of_id dispute_id \<longleftrightarrow> (\<forall>j r c b j' r' c' b'. dispute_id j r c b = dispute_id j' r' c' b' \<longrightarrow> j = j')"

text \<open>Every dispute is indexed by its job, a job has at most one, its id is derived from the job, and it has a
  resolution exactly when it was resolved.\<close>

definition dispute_ok :: "(bytes32 \<Rightarrow> bytes32 \<Rightarrow> bytes32 \<Rightarrow> u64 \<Rightarrow> bytes32) \<Rightarrow> dispute_engine \<Rightarrow> bytes32 \<Rightarrow> dispute \<Rightarrow> bool" where
  "dispute_ok dispute_id s i d \<longleftrightarrow>
     dp_id d = i \<and> (\<exists>r c b. i = dispute_id (dp_job_id d) r c b) \<and>
     hm_lookup_list (de_disputes_by_job s) (dp_job_id d) = [i] \<and>
     (dp_resolution d \<noteq> None \<longleftrightarrow> dp_status d \<in> {Resolved, Appealed}) \<and>
     dp_status d \<in> {ValidationPhase, VerificationEscalation, Adjudicating, Resolved, Appealed}"

definition disputes_wf :: "(bytes32 \<Rightarrow> bytes32 \<Rightarrow> bytes32 \<Rightarrow> u64 \<Rightarrow> bytes32) \<Rightarrow> dispute_engine \<Rightarrow> bool" where
  "disputes_wf dispute_id s \<longleftrightarrow>
     (\<forall>i d. map_of (de_disputes s) i = Some d \<longrightarrow> dispute_ok dispute_id s i d) \<and>
     (\<forall>j. length (hm_lookup_list (de_disputes_by_job s) j) \<le> 1)"

lemma set_escrow_status_fields [simp]:
  "de_disputes (set_escrow_status j st s) = de_disputes s" "de_disputes_by_job (set_escrow_status j st s) = de_disputes_by_job s"
  "de_frozen_bonds (set_escrow_status j st s) = de_frozen_bonds s"
  by (auto simp: set_escrow_status_def split: option.splits)

lemma put_dispute_fields [simp]:
  "de_disputes (put_dispute i d s) = hm_insert i d (de_disputes s)" "de_disputes_by_job (put_dispute i d s) = de_disputes_by_job s"
  "de_frozen_bonds (put_dispute i d s) = de_frozen_bonds s"
  by (simp_all add: put_dispute_def)

text \<open>A call replaces at most one dispute, keeping its job; the index is untouched.\<close>

lemma disputes_wf_put:
  assumes "disputes_wf dispute_id s" "map_of (de_disputes s) i = Some d"
    and "dp_id d' = dp_id d" "dp_job_id d' = dp_job_id d"
    and "dp_resolution d' \<noteq> None \<longleftrightarrow> dp_status d' \<in> {Resolved, Appealed}"
    and "dp_status d' \<in> {ValidationPhase, VerificationEscalation, Adjudicating, Resolved, Appealed}"
    and "de_disputes s' = hm_insert i d' (de_disputes s)" "de_disputes_by_job s' = de_disputes_by_job s"
  shows "disputes_wf dispute_id s'"
  using assms by (simp add: disputes_wf_def dispute_ok_def)

lemma disputes_wf_cong:
  "de_disputes s' = de_disputes s \<Longrightarrow> de_disputes_by_job s' = de_disputes_by_job s \<Longrightarrow> disputes_wf dispute_id s' = disputes_wf dispute_id s"
  by (simp add: disputes_wf_def dispute_ok_def)

lemma initiate_fresh:
  assumes "disputes_wf dispute_id s" "job_of_id dispute_id" "hm_lookup_list (de_disputes_by_job s) j = []"
  shows "map_of (de_disputes s) (dispute_id j r c b) = None"
proof (rule ccontr)
  assume "map_of (de_disputes s) (dispute_id j r c b) \<noteq> None"
  then obtain d where d: "map_of (de_disputes s) (dispute_id j r c b) = Some d" by blast
  then have ok: "dispute_ok dispute_id s (dispute_id j r c b) d" using assms(1) by (simp add: disputes_wf_def)
  then have "dp_job_id d = j" using assms(2) unfolding dispute_ok_def job_of_id_def by metis
  with ok assms(3) show False by (simp add: dispute_ok_def)
qed

lemma initiate_wf:
  assumes "disputes_wf dispute_id s" "job_of_id dispute_id"
  shows "disputes_wf dispute_id (snd (initiate_dispute dispute_id encodes rq s))"
proof (cases "fst (initiate_dispute dispute_id encodes rq s)")
  case (Inl e)
  then have "snd (initiate_dispute dispute_id encodes rq s) = s"
    by (auto simp: initiate_dispute_def Let_def split: if_splits)
  then show ?thesis using assms(1) by simp
next
  case (Inr i)
  let ?j = "rq_job_id rq"
  have free: "hm_lookup_list (de_disputes_by_job s) ?j = []"
    and i: "i = dispute_id ?j (rq_receipt_hash rq) (rq_challenger_id rq) (rq_current_block rq)"
    using Inr by (auto simp: initiate_dispute_def Let_def split: if_splits)
  have other: "dp_job_id d \<noteq> ?j" if "map_of (de_disputes s) k = Some d" for k d
    using assms(1) that free by (metis disputes_wf_def dispute_ok_def list.distinct(1))
  show ?thesis using Inr assms(1) free i other
    by (auto simp: initiate_dispute_def Let_def disputes_wf_def dispute_ok_def lookup_list_push split: if_splits)
qed

lemma dispute_step_wf:
  assumes "dispute_step dispute_id encodes s s'" "job_of_id dispute_id" "disputes_wf dispute_id s"
  shows "disputes_wf dispute_id s'"
  using assms
proof (induction rule: dispute_step.induct)
  case (ds_escrow s j a r)
  then show ?case using disputes_wf_cong [of "init_escrow j a r s" s dispute_id] by (simp add: init_escrow_def)
next
  case (ds_initiate s rq)
  then show ?case by (simp add: initiate_wf)
next
  case (ds_escalate s i level)
  then show ?case by (auto simp: escalate_to_verification_def disputes_wf_def split: option.splits)
    (auto simp: dispute_ok_def)
next
  case (ds_verify s i result)
  then show ?case by (auto simp: submit_verification_result_def disputes_wf_def split: option.splits)
    (auto simp: dispute_ok_def)
next
  case (ds_resolve s i budget cost block)
  then show ?case by (auto simp: resolve_dispute_def Let_def disputes_wf_def split: option.splits)
    (auto simp: dispute_ok_def)
next
  case (ds_appeal s i reason evidence bond block)
  then show ?case by (auto simp: submit_appeal_def disputes_wf_def split: option.splits if_splits)
    (auto simp: dispute_ok_def, metis option.distinct(1))
qed

definition resolved_as :: "bytes32 \<Rightarrow> dispute_resolution \<Rightarrow> dispute_engine \<Rightarrow> bool" where
  "resolved_as i r s \<longleftrightarrow> (\<exists>d. map_of (de_disputes s) i = Some d \<and> dp_resolution d = Some r)"

lemma resolved_step:
  assumes "dispute_step dispute_id encodes s s'" "job_of_id dispute_id" "disputes_wf dispute_id s" "resolved_as i r s"
  shows "resolved_as i r s'"
  using assms
proof (induction rule: dispute_step.induct)
  case (ds_initiate s rq)
  then show ?case using initiate_fresh [OF ds_initiate.prems(2,1), of "rq_job_id rq"]
    by (auto simp: resolved_as_def initiate_dispute_def Let_def)
next
  case (ds_escalate s j level)
  then show ?case by (auto simp: escalate_to_verification_def resolved_as_def split: option.splits)
next
  case (ds_verify s j result)
  then show ?case by (auto simp: submit_verification_result_def resolved_as_def split: option.splits)
next
  case (ds_resolve s j budget cost block)
  from ds_resolve.prems obtain d where d: "map_of (de_disputes s) i = Some d" "dp_resolution d = Some r"
    by (auto simp: resolved_as_def)
  then have "dp_status d \<in> {Resolved, Appealed}" using ds_resolve.prems(2) by (auto simp: disputes_wf_def dispute_ok_def)
  with d show ?case by (auto simp: resolve_dispute_def Let_def resolved_as_def split: option.splits)
next
  case (ds_appeal s j reason evidence bond block)
  then show ?case by (auto simp: submit_appeal_def resolved_as_def split: option.splits if_splits)
qed (auto simp: init_escrow_def resolved_as_def)

interpretation dispute_run: step_closed "dispute_step dispute_id encodes" "\<lambda>s. job_of_id dispute_id \<and> disputes_wf dispute_id s" for dispute_id encodes
  by unfold_locales (blast intro: dispute_step_wf)

interpretation resolved_dispute: step_closed "dispute_step dispute_id encodes"
  "\<lambda>s. job_of_id dispute_id \<and> disputes_wf dispute_id s \<and> resolved_as i r s" for dispute_id encodes i r
  by unfold_locales (blast intro: dispute_step_wf resolved_step)

lemma disputes_wf_new: "disputes_wf dispute_id (dispute_engine_new a b c d)"
  by (simp add: disputes_wf_def dispute_engine_new_def hm_lookup_list_def)

lemma shares_sum:
  fixes n :: nat
  shows "n * 3000 div 10000 + n * 3000 div 10000 + n * 4000 div 10000 \<le> n"
    "n \<le> n * 3000 div 10000 + n * 3000 div 10000 + n * 4000 div 10000 + 2"
  by linarith+

section \<open>Properties\<close>

text \<open>C20. A dispute is resolved at most once: after a resolution, whatever calls follow, the dispute keeps it,
  and resolving it again is refused with \<open>InvalidDisputeState\<close>. This rests on dispute ids determining
  their job, which the hash of the encoded tuple is meant to give.\<close>

theorem dispute_resolved_once:
  assumes "job_of_id dispute_id" "(dispute_step dispute_id encodes)\<^sup>*\<^sup>* (dispute_engine_new m g a b) s"
    and "resolve_dispute i budget cost block s = (Inr r, s1)" "(dispute_step dispute_id encodes)\<^sup>*\<^sup>* s1 s2"
  shows "(\<exists>d. get_dispute s2 i = Some d \<and> dp_resolution d = Some r) \<and>
    resolve_dispute i budget' cost' block' s2 = (Inl InvalidDisputeState, s2)"
proof -
  have w: "disputes_wf dispute_id s" using dispute_run.steps_inv [OF assms(2)] assms(1) disputes_wf_new by blast
  have "dispute_step dispute_id encodes s s1" using ds_resolve [of dispute_id encodes s i budget cost block] assms(3) by simp
  then have w1: "disputes_wf dispute_id s1" using dispute_step_wf assms(1) w by blast
  have "resolved_as i r s1" using assms(3) by (auto simp: resolved_as_def resolve_dispute_def Let_def split: option.splits if_splits)
  then have w2: "disputes_wf dispute_id s2" and "resolved_as i r s2"
    using resolved_dispute.steps_inv [OF assms(4), of i r] assms(1) w1 by auto
  then obtain d where d: "map_of (de_disputes s2) i = Some d" "dp_resolution d = Some r" by (auto simp: resolved_as_def)
  then have "dp_status d \<in> {Resolved, Appealed}" using w2 by (auto simp: disputes_wf_def dispute_ok_def)
  with d show ?thesis by (auto simp: get_dispute_def resolve_dispute_def)
qed

definition toy_id :: "bytes32 \<Rightarrow> bytes32 \<Rightarrow> bytes32 \<Rightarrow> u64 \<Rightarrow> bytes32" where
  "toy_id j r c b = j"

definition toy_proof :: "bytes32 \<Rightarrow> bytes32 \<Rightarrow> fraud_proof" where
  "toy_proof recomputed original =
     \<lparr>fp_receipt_hash = [], fp_operator_id = [], fp_recomputed_output_hash = recomputed, fp_original_output_hash = original,
      fp_kernel_id = [], fp_input_hash = [], fp_deterministic_seed = None,
      fp_evidence_bundle = \<lparr>eb_kernel_binary_hash = [], eb_input_data_snapshot = [], eb_execution_logs = [],
        eb_resource_metrics = \<lparr>rm_gpu_cycles = 0, rm_vram_bytes = 0, rm_cpu_cycles = 0, rm_memory_bytes = 0,
          rm_bandwidth_bytes = 0, rm_execution_time_ms = 0\<rparr>\<rparr>, fp_challenger_signature = []\<rparr>"

definition toy_request :: "bytes32 \<Rightarrow> bytes32 \<Rightarrow> u64 \<Rightarrow> dispute_request" where
  "toy_request job challenger bond =
     \<lparr>rq_job_id = job, rq_receipt_hash = [], rq_fraud_proof = toy_proof [1] [2], rq_challenger_id = challenger,
      rq_challenger_bond = bond, rq_current_block = 10, rq_receipt_block = 5, rq_verification_window_blocks = 100\<rparr>"

definition toy_result :: dispute_verification where
  "toy_result = \<lparr>dv_job_id = [], dv_receipt_hash = [], dv_recomputed_output_hash = [], dv_verification_signatures = [],
     dv_verification_level = 1\<rparr>"

definition toy_adjudicating :: dispute_engine where
  "toy_adjudicating =
     snd (submit_verification_result [7] toy_result (snd (escalate_to_verification [7] 1
       (snd (initiate_dispute toy_id (\<lambda>_. True) (toy_request [7] [3] 500) (dispute_engine_new 100 50 1000 1000))))))"

lemma toy_adjudicating_reached:
  "(dispute_step toy_id (\<lambda>_. True))\<^sup>*\<^sup>* (dispute_engine_new 100 50 1000 1000) toy_adjudicating"
  unfolding toy_adjudicating_def
  by (rule rtranclp.rtrancl_into_rtrancl [OF rtranclp.rtrancl_into_rtrancl [OF r_into_rtranclp]])
    (rule ds_initiate ds_escalate ds_verify)+

lemmas toy_defs = toy_adjudicating_def initiate_dispute_def dispute_engine_new_def toy_request_def toy_id_def Let_def
  hm_lookup_list_def hm_push_def set_escrow_status_def escalate_to_verification_def submit_verification_result_def
  put_dispute_def resolve_dispute_def

theorem dispute_resolved_once_witness:
  "fst (resolve_dispute [7] 1000 10 99 (snd (resolve_dispute [7] 2000 10 50 toy_adjudicating))) = Inl InvalidDisputeState"
proof -
  obtain r s1 where r: "resolve_dispute [7] 2000 10 50 toy_adjudicating = (Inr r, s1)"
    by (simp add: toy_defs)
  have "job_of_id toy_id" by (simp add: job_of_id_def toy_id_def)
  from dispute_resolved_once [OF this toy_adjudicating_reached r rtranclp.rtrancl_refl] r show ?thesis by simp
qed

text \<open>The outcome ignores the verification: the engine drops the submitted result, and a dispute is
  resolved as fraud exactly when the two hashes in the challenger's own fraud proof differ.\<close>

theorem outcome_ignores_verification:
  assumes "get_dispute s i = Some d" "dp_status d = VerificationEscalation"
  shows "\<exists>r s'. resolve_dispute i budget cost block (snd (submit_verification_result i result s)) = (Inr r, s') \<and>
    (dr_outcome r = FraudConfirmed \<longleftrightarrow> fp_recomputed_output_hash (dp_fraud_proof d) \<noteq> fp_original_output_hash (dp_fraud_proof d)) \<and>
    submit_verification_result i result s = submit_verification_result i result' s"
  using assms
  by (auto simp: get_dispute_def submit_verification_result_def resolve_dispute_def put_dispute_def make_resolution_def Let_def)

theorem outcome_ignores_verification_witness:
  "\<exists>r s'. resolve_dispute [7] 1000 10 99 (snd (submit_verification_result [7] toy_result (snd (escalate_to_verification [7] 1
       (snd (initiate_dispute toy_id (\<lambda>_. True) (toy_request [7] [3] 500) (dispute_engine_new 100 50 1000 1000))))))) = (Inr r, s')
     \<and> dr_outcome r = FraudConfirmed"
proof -
  let ?s = "snd (escalate_to_verification [7] 1
       (snd (initiate_dispute toy_id (\<lambda>_. True) (toy_request [7] [3] 500) (dispute_engine_new 100 50 1000 1000))))"
  obtain d where "get_dispute ?s [7] = Some d" "dp_status d = VerificationEscalation" "dp_fraud_proof d = toy_proof [1] [2]"
    by (simp add: toy_defs get_dispute_def)
  with outcome_ignores_verification [of ?s "[7]" d 1000 10 99 toy_result toy_result] show ?thesis
    by (auto simp: toy_proof_def)
qed

text \<open>The default shares of a slash never exceed the slashed amount and lose at most two units to rounding,
  as long as the product with the largest share does not overflow.\<close>

theorem slash_shares_bounded:
  assumes "resolve_dispute i budget cost block s = (Inr r, s')" "de_slash_distribution s = slash_distribution_default"
    and "unat (dr_slashed_amount r) * 4000 < 2 ^ 64"
  shows "unat (dr_challenger_share r) + unat (dr_verifier_share r) + unat (dr_treasury_share r) \<le> unat (dr_slashed_amount r)
    \<and> unat (dr_slashed_amount r) \<le> unat (dr_challenger_share r) + unat (dr_verifier_share r) + unat (dr_treasury_share r) + 2"
proof -
  let ?n = "unat (dr_slashed_amount r)"
  have "dr_challenger_share r = dr_slashed_amount r * 3000 div 10000 \<and> dr_verifier_share r = dr_slashed_amount r * 3000 div 10000
      \<and> dr_treasury_share r = dr_slashed_amount r * 4000 div 10000"
    using assms(1,2) by (auto simp: resolve_dispute_def make_resolution_def Let_def slash_distribution_default_def
        split: option.splits if_splits)
  moreover have "unat (dr_slashed_amount r * 3000) = ?n * 3000" "unat (dr_slashed_amount r * 4000) = ?n * 4000"
    using assms(3) by (subst unat_mult_no_wrap; simp)+
  ultimately show ?thesis using shares_sum [of ?n] by (simp add: unat_div)
qed

theorem slash_shares_bounded_witness:
  "\<exists>r s'. resolve_dispute [7] 2000 10 50 toy_adjudicating = (Inr r, s') \<and>
    unat (dr_challenger_share r) + unat (dr_verifier_share r) + unat (dr_treasury_share r) \<le> unat (dr_slashed_amount r)"
proof -
  obtain r s1 where r: "resolve_dispute [7] 2000 10 50 toy_adjudicating = (Inr r, s1)" and "dr_slashed_amount r = 200"
    by (simp add: toy_defs make_resolution_def toy_proof_def slash_amount_def max_def word_le_nat_alt unat_div)
  moreover have "de_slash_distribution toy_adjudicating = slash_distribution_default"
    by (simp add: toy_defs)
  ultimately show ?thesis using slash_shares_bounded [OF r] by auto
qed

text \<open>Bonds are kept per challenger: a second dispute of the same challenger, on another job, overwrites the
  frozen bond of the first, and when the first is resolved as fraud the bond of the second is gone too.\<close>

theorem second_bond_lost:
  assumes "initiate_dispute dispute_id encodes rq2 s = (Inr i2, s1)" "map_of (de_disputes s1) i = Some d"
    and "dp_challenger_id d = rq_challenger_id rq2" "dp_status d = Adjudicating"
    and "fp_recomputed_output_hash (dp_fraud_proof d) \<noteq> fp_original_output_hash (dp_fraud_proof d)"
  shows "map_of (de_frozen_bonds s1) (rq_challenger_id rq2) = Some (rq_challenger_bond rq2) \<and>
    map_of (de_frozen_bonds (snd (resolve_dispute i budget cost block s1))) (rq_challenger_id rq2) = None"
proof
  show "map_of (de_frozen_bonds s1) (rq_challenger_id rq2) = Some (rq_challenger_bond rq2)"
    using assms(1) by (auto simp: initiate_dispute_def Let_def split: if_splits)
  show "map_of (de_frozen_bonds (snd (resolve_dispute i budget cost block s1))) (rq_challenger_id rq2) = None"
    using assms(2-5) by (simp add: resolve_dispute_def make_resolution_def Let_def)
qed

theorem second_bond_lost_witness:
  "let s1 = snd (initiate_dispute toy_id (\<lambda>_. True) (toy_request [8] [3] 900) toy_adjudicating)
   in map_of (de_frozen_bonds s1) [3] = Some 900 \<and> map_of (de_frozen_bonds (snd (resolve_dispute [7] 2000 10 50 s1))) [3] = None"
proof -
  let ?rq = "toy_request [8] [3] 900"
  obtain i2 s1 where r: "initiate_dispute toy_id (\<lambda>_. True) ?rq toy_adjudicating = (Inr i2, s1)"
    by (simp add: toy_defs)
  then have "s1 = snd (initiate_dispute toy_id (\<lambda>_. True) ?rq toy_adjudicating)" by simp
  then obtain d where d: "map_of (de_disputes s1) [7] = Some d" "dp_challenger_id d = rq_challenger_id ?rq" "dp_status d = Adjudicating"
      "fp_recomputed_output_hash (dp_fraud_proof d) \<noteq> fp_original_output_hash (dp_fraud_proof d)"
    by (simp add: toy_defs toy_proof_def)
  from second_bond_lost [OF r d, of 2000 10 50] r show ?thesis by (simp add: toy_request_def)
qed

end
