(* ===== verification/Metering.thy ===== *)
theory Metering
  imports Transactions Float64
begin

text \<open>
  Execution receipts and metering, \<open>crates/intelligence/src/receipts.rs\<close>: the receipt and its hash and
  signature, resource usage, and the metering engine that stores receipts and counts jobs per operator.
\<close>

section \<open>Receipts\<close>

datatype execution_mode = Soft | Deterministic

datatype tee_type = TeeNone | SEV | SGX | TrustZone | Nitro

record attestation =
  at_report :: bytes
  at_signature :: bytes
  at_timestamp :: u64
  at_tee_type :: tee_type

record resource_usage =
  ru_gpu_cycles :: u64
  ru_vram_bytes :: u64
  ru_cpu_cycles :: u64
  ru_memory_bytes :: u64
  ru_bandwidth_bytes :: u64
  ru_execution_time_ms :: u64

definition usage_new :: resource_usage where
  "usage_new = \<lparr>ru_gpu_cycles = 0, ru_vram_bytes = 0, ru_cpu_cycles = 0, ru_memory_bytes = 0, ru_bandwidth_bytes = 0,
     ru_execution_time_ms = 0\<rparr>"

definition add_gpu_cycles :: "u64 \<Rightarrow> resource_usage \<Rightarrow> resource_usage" where
  "add_gpu_cycles n u = u\<lparr>ru_gpu_cycles := ru_gpu_cycles u + n\<rparr>"

definition add_vram :: "u64 \<Rightarrow> resource_usage \<Rightarrow> resource_usage" where
  "add_vram n u = u\<lparr>ru_vram_bytes := max (ru_vram_bytes u) n\<rparr>"

definition add_cpu_cycles :: "u64 \<Rightarrow> resource_usage \<Rightarrow> resource_usage" where
  "add_cpu_cycles n u = u\<lparr>ru_cpu_cycles := ru_cpu_cycles u + n\<rparr>"

definition add_memory :: "u64 \<Rightarrow> resource_usage \<Rightarrow> resource_usage" where
  "add_memory n u = u\<lparr>ru_memory_bytes := max (ru_memory_bytes u) n\<rparr>"

definition add_bandwidth :: "u64 \<Rightarrow> resource_usage \<Rightarrow> resource_usage" where
  "add_bandwidth n u = u\<lparr>ru_bandwidth_bytes := ru_bandwidth_bytes u + n\<rparr>"

definition add_time :: "u64 \<Rightarrow> resource_usage \<Rightarrow> resource_usage" where
  "add_time ms u = u\<lparr>ru_execution_time_ms := ru_execution_time_ms u + ms\<rparr>"

definition usage_hash :: "crypto \<Rightarrow> resource_usage \<Rightarrow> bytes32" where
  "usage_hash c u =
     blake3 c (to_le_bytes 8 (ru_gpu_cycles u) @ to_le_bytes 8 (ru_vram_bytes u) @ to_le_bytes 8 (ru_cpu_cycles u)
       @ to_le_bytes 8 (ru_memory_bytes u) @ to_le_bytes 8 (ru_bandwidth_bytes u) @ to_le_bytes 8 (ru_execution_time_ms u))"

record exec_receipt =
  er_version :: u32
  er_job_id :: bytes32
  er_operator_id :: bytes32
  er_kernel_id :: bytes32
  er_kernel_version :: "u16 \<times> u16 \<times> u16"
  er_input_hash :: bytes32
  er_deterministic_seed :: "bytes32 option"
  er_execution_nonce :: u64
  er_output_hash :: bytes32
  er_resource_hash :: bytes32
  er_execution_mode :: execution_mode
  er_start_block_height :: u64
  er_end_block_height :: u64
  er_signature :: bytes
  er_attestation :: "attestation option"

definition exec_receipt_new ::
    "crypto \<Rightarrow> bytes32 \<Rightarrow> bytes32 \<Rightarrow> bytes32 \<Rightarrow> u16 \<times> u16 \<times> u16 \<Rightarrow> bytes32 \<Rightarrow> bytes32 \<Rightarrow> resource_usage \<Rightarrow> execution_mode
     \<Rightarrow> u64 \<Rightarrow> u64 \<Rightarrow> exec_receipt" where
  "exec_receipt_new c job_id operator_id kernel_id kernel_version input_hash output_hash resources mode start_height end_height =
     \<lparr>er_version = 1, er_job_id = job_id, er_operator_id = operator_id, er_kernel_id = kernel_id,
      er_kernel_version = kernel_version, er_input_hash = input_hash, er_deterministic_seed = None, er_execution_nonce = 0,
      er_output_hash = output_hash, er_resource_hash = usage_hash c resources, er_execution_mode = mode,
      er_start_block_height = start_height, er_end_block_height = end_height, er_signature = [], er_attestation = None\<rparr>"

definition with_deterministic_seed :: "bytes32 \<Rightarrow> exec_receipt \<Rightarrow> exec_receipt" where
  "with_deterministic_seed seed r = r\<lparr>er_deterministic_seed := Some seed\<rparr>"

definition with_nonce :: "u64 \<Rightarrow> exec_receipt \<Rightarrow> exec_receipt" where
  "with_nonce n r = r\<lparr>er_execution_nonce := n\<rparr>"

definition receipt_sign :: "bytes \<Rightarrow> exec_receipt \<Rightarrow> exec_receipt" where
  "receipt_sign sig r = r\<lparr>er_signature := sig\<rparr>"

definition with_attestation :: "attestation \<Rightarrow> exec_receipt \<Rightarrow> exec_receipt" where
  "with_attestation a r = r\<lparr>er_attestation := Some a\<rparr>"

definition receipt_message :: "exec_receipt \<Rightarrow> bytes" where
  "receipt_message r =
     (case er_kernel_version r of (v1, v2, v3) \<Rightarrow>
        to_le_bytes 4 (er_version r) @ er_job_id r @ er_operator_id r @ er_kernel_id r
        @ to_le_bytes 2 v1 @ to_le_bytes 2 v2 @ to_le_bytes 2 v3 @ er_input_hash r
        @ (case er_deterministic_seed r of None \<Rightarrow> [] | Some seed \<Rightarrow> seed)
        @ to_le_bytes 8 (er_execution_nonce r) @ er_output_hash r @ er_resource_hash r
        @ [case er_execution_mode r of Soft \<Rightarrow> 0 | Deterministic \<Rightarrow> 1]
        @ to_le_bytes 8 (er_start_block_height r) @ to_le_bytes 8 (er_end_block_height r))"

definition receipt_hash :: "crypto \<Rightarrow> exec_receipt \<Rightarrow> bytes32" where
  "receipt_hash c r = blake3 c (receipt_message r)"

text \<open>A key or signature that does not parse verifies nothing.\<close>

definition receipt_verify_signature :: "crypto \<Rightarrow> bytes \<Rightarrow> exec_receipt \<Rightarrow> bool" where
  "receipt_verify_signature c public_key r =
     (if er_signature r = [] then False
      else if length public_key \<noteq> 32 then False
      else if length (er_signature r) \<noteq> 64 then False
      else ed25519_ok c public_key (receipt_hash c r) (er_signature r))"

section \<open>Metering\<close>

record operator_metering =
  om_total_jobs :: u64
  om_successful_jobs :: u64
  om_failed_jobs :: u64
  om_total_gpu_cycles :: u64
  om_total_cpu_cycles :: u64
  om_total_fees_earned :: u64

definition metering_zero :: operator_metering where
  "metering_zero = \<lparr>om_total_jobs = 0, om_successful_jobs = 0, om_failed_jobs = 0, om_total_gpu_cycles = 0,
     om_total_cpu_cycles = 0, om_total_fees_earned = 0\<rparr>"

definition record_success :: "u64 \<Rightarrow> u64 \<Rightarrow> u64 \<Rightarrow> operator_metering \<Rightarrow> operator_metering" where
  "record_success gpu cpu fee m =
     m\<lparr>om_total_jobs := om_total_jobs m + 1, om_successful_jobs := om_successful_jobs m + 1,
       om_total_gpu_cycles := om_total_gpu_cycles m + gpu, om_total_cpu_cycles := om_total_cpu_cycles m + cpu,
       om_total_fees_earned := om_total_fees_earned m + fee\<rparr>"

definition record_failure :: "operator_metering \<Rightarrow> operator_metering" where
  "record_failure m = m\<lparr>om_total_jobs := om_total_jobs m + 1, om_failed_jobs := om_failed_jobs m + 1\<rparr>"

definition success_rate :: "operator_metering \<Rightarrow> f64" where
  "success_rate m =
     (if om_total_jobs m = 0 then (0, 0)
      else f64_mul (f64_div (f64_of_u64 (om_successful_jobs m)) (f64_of_u64 (om_total_jobs m))) (f64_of_u64 100))"

datatype metering_error = MeterDuplicateReceipt | ReceiptNotFound | InvalidSignature | ResourceExceeded

record metering_engine =
  me_receipts :: "(bytes32 \<times> exec_receipt) list"
  me_resource_totals :: "(bytes32 \<times> resource_usage) list"
  me_operator_usage :: "(bytes32 \<times> operator_metering) list"

definition metering_new :: metering_engine where
  "metering_new = \<lparr>me_receipts = [], me_resource_totals = [], me_operator_usage = []\<rparr>"

definition submit_receipt :: "crypto \<Rightarrow> exec_receipt \<Rightarrow> (metering_error, bytes32, metering_engine) op" where
  "submit_receipt c r s =
     (let h = receipt_hash c r
      in if map_of (me_receipts s) h \<noteq> None then (Inl MeterDuplicateReceipt, s)
         else
           let m = (case map_of (me_operator_usage s) (er_operator_id r) of None \<Rightarrow> metering_zero | Some m \<Rightarrow> m)
           in (Inr h, s\<lparr>me_receipts := hm_insert h r (me_receipts s),
                        me_resource_totals := hm_insert h usage_new (me_resource_totals s),
                        me_operator_usage := hm_insert (er_operator_id r) (m\<lparr>om_total_jobs := om_total_jobs m + 1\<rparr>) (me_operator_usage s)\<rparr>))"

definition me_get_receipt :: "metering_engine \<Rightarrow> bytes32 \<Rightarrow> exec_receipt option" where
  "me_get_receipt s h = map_of (me_receipts s) h"

definition get_receipt_for_job :: "metering_engine \<Rightarrow> bytes32 \<Rightarrow> exec_receipt option" where
  "get_receipt_for_job s job_id = find (\<lambda>r. er_job_id r = job_id) (map snd (me_receipts s))"

definition verify_receipt :: "crypto \<Rightarrow> metering_engine \<Rightarrow> exec_receipt \<Rightarrow> bytes \<Rightarrow> metering_error + bool" where
  "verify_receipt c s r public_key =
     (if map_of (me_receipts s) (receipt_hash c r) = None then Inl ReceiptNotFound
      else Inr (receipt_verify_signature c public_key r))"

definition metering_fee :: "crypto \<Rightarrow> metering_engine \<Rightarrow> exec_receipt \<Rightarrow> u64 \<Rightarrow> u64" where
  "metering_fee c s r price_per_cycle =
     (let usage = (case map_of (me_resource_totals s) (receipt_hash c r) of None \<Rightarrow> usage_new | Some u \<Rightarrow> u);
          gpu_fee = ru_gpu_cycles usage div 1000000 * price_per_cycle;
          cpu_fee = ru_cpu_cycles usage div 1000000 * (price_per_cycle div 10)
      in gpu_fee + cpu_fee)"

definition get_operator_metering :: "metering_engine \<Rightarrow> bytes32 \<Rightarrow> operator_metering option" where
  "get_operator_metering s i = map_of (me_operator_usage s) i"

section \<open>Runs of the engine\<close>

inductive metering_step :: "crypto \<Rightarrow> metering_engine \<Rightarrow> metering_engine \<Rightarrow> bool" for c where
  "metering_step c s (snd (submit_receipt c r s))"

definition jobs_of :: "metering_engine \<Rightarrow> bytes32 \<Rightarrow> u64" where
  "jobs_of s i = (case get_operator_metering s i of None \<Rightarrow> 0 | Some m \<Rightarrow> om_total_jobs m)"

definition metering_wf :: "crypto \<Rightarrow> metering_engine \<Rightarrow> bool" where
  "metering_wf c s \<longleftrightarrow> hm_wf (me_receipts s)
     \<and> (\<forall>h r. map_of (me_receipts s) h = Some r \<longrightarrow> h = receipt_hash c r)
     \<and> (\<forall>h u. map_of (me_resource_totals s) h = Some u \<longrightarrow> u = usage_new)
     \<and> (\<forall>i. jobs_of s i = total (\<lambda>r. if er_operator_id r = i then 1 else 0) (me_receipts s))"

lemma metering_step_wf: "metering_step c s s' \<Longrightarrow> metering_wf c s \<Longrightarrow> metering_wf c s'"
proof (induction rule: metering_step.induct)
  case (1 s r)
  show ?case
  proof (cases "map_of (me_receipts s) (receipt_hash c r)")
    case None
    have "total (\<lambda>q. if er_operator_id q = i then 1 else 0 :: u64) (hm_insert (receipt_hash c r) r (me_receipts s)) =
        (if er_operator_id r = i then 1 else 0) + total (\<lambda>q. if er_operator_id q = i then 1 else 0) (me_receipts s)" for i
      using 1 None by (simp add: metering_wf_def hm.total_insert_new)
    moreover have "jobs_of (snd (submit_receipt c r s)) i = (if er_operator_id r = i then 1 else 0) + jobs_of s i" for i
      using None by (auto simp: submit_receipt_def Let_def jobs_of_def get_operator_metering_def metering_zero_def
          split: option.splits)
    ultimately show ?thesis using 1 None
      by (simp add: metering_wf_def) (simp add: submit_receipt_def Let_def hm.wf_insert)
  next
    case (Some q)
    with 1 show ?thesis by (simp add: submit_receipt_def Let_def)
  qed
qed

lemma metering_new_wf: "metering_wf c metering_new"
  by (simp add: metering_wf_def metering_new_def hm.wf_empty jobs_of_def get_operator_metering_def)

interpretation metering_run: transition_system "metering_step c" "metering_wf c" "\<lambda>s. s = metering_new" for c
  by unfold_locales (auto intro: metering_step_wf metering_new_wf)

lemmas metering_steps_wf = metering_run.reachable_inv [OF _ refl]

section \<open>Properties\<close>

text \<open>In every metering engine reached by submitting receipts, each receipt is stored under its hash, and the
  jobs counted for an operator are exactly the stored receipts of that operator.\<close>

theorem operator_jobs_counted:
  assumes "(metering_step c)\<^sup>*\<^sup>* metering_new s"
  shows "(\<forall>h r. me_get_receipt s h = Some r \<longrightarrow> h = receipt_hash c r) \<and>
    jobs_of s i = of_nat (length [r \<leftarrow> map snd (me_receipts s). er_operator_id r = i])"
proof -
  have cnt: "of_nat (length [r \<leftarrow> map snd m. er_operator_id r = i]) = total (\<lambda>r. if er_operator_id r = i then 1 else 0 :: u64) m" for m
    by (induction m) auto
  show ?thesis unfolding cnt using metering_steps_wf [OF assms] by (auto simp: metering_wf_def me_get_receipt_def)
qed

definition example_metering_crypto :: crypto where
  "example_metering_crypto = \<lparr>blake3 = (\<lambda>m. m), ed25519_ok = (\<lambda>k m s. s = m @ k)\<rparr>"

definition example_exec_receipt :: "u64 \<Rightarrow> exec_receipt" where
  "example_exec_receipt n = with_nonce n
     (exec_receipt_new example_metering_crypto [1] [2] [3] (1, 0, 0) [4] [5] usage_new Deterministic 6 7)"

lemma example_submitted:
  "(metering_step example_metering_crypto)\<^sup>*\<^sup>* metering_new
     (snd (submit_receipt example_metering_crypto (example_exec_receipt 0) metering_new))"
  by (rule r_into_rtranclp, rule metering_step.intros)

theorem operator_jobs_counted_witness:
  "jobs_of (snd (submit_receipt example_metering_crypto (example_exec_receipt 0) metering_new)) [2] = 1"
proof -
  have "er_operator_id (example_exec_receipt 0) = [2]" by (simp add: example_exec_receipt_def exec_receipt_new_def with_nonce_def)
  moreover have "map snd (me_receipts (snd (submit_receipt example_metering_crypto (example_exec_receipt 0) metering_new))) = [example_exec_receipt 0]"
    by (simp add: submit_receipt_def metering_new_def Let_def)
  ultimately show ?thesis using conjunct2 [OF operator_jobs_counted [OF example_submitted, of "[2]"]] by (simp del: map_map)
qed

text \<open>The metering engine records no resources: whatever receipts were submitted, the fee it computes for
  any receipt at any price is zero.\<close>

theorem metering_fee_zero:
  assumes "(metering_step c)\<^sup>*\<^sup>* metering_new s"
  shows "metering_fee c s r price = 0"
proof -
  have "(case map_of (me_resource_totals s) (receipt_hash c r) of None \<Rightarrow> usage_new | Some u \<Rightarrow> u) = usage_new"
    using metering_steps_wf [OF assms] by (auto simp: metering_wf_def split: option.splits)
  then show ?thesis by (simp add: metering_fee_def usage_new_def)
qed

theorem metering_fee_zero_witness:
  "metering_fee example_metering_crypto (snd (submit_receipt example_metering_crypto (example_exec_receipt 0) metering_new))
     (example_exec_receipt 0) 1000 = 0"
  by (rule metering_fee_zero [OF example_submitted])

text \<open>A receipt is accepted once: a second submission with the same signed contents is refused and changes
  nothing, also when it carries another signature or attestation, which the hash does not cover.\<close>

theorem receipt_accepted_once:
  assumes "submit_receipt c r s = (Inr h, s1)"
  shows "submit_receipt c (r\<lparr>er_signature := sig, er_attestation := a\<rparr>) s1 = (Inl MeterDuplicateReceipt, s1)"
proof -
  have "receipt_hash c (r\<lparr>er_signature := sig, er_attestation := a\<rparr>) = receipt_hash c r"
    by (simp add: receipt_hash_def receipt_message_def)
  with assms show ?thesis by (auto simp: submit_receipt_def Let_def split: if_splits)
qed

theorem receipt_accepted_once_witness:
  "fst (submit_receipt example_metering_crypto ((example_exec_receipt 0)\<lparr>er_signature := [9], er_attestation := None\<rparr>)
     (snd (submit_receipt example_metering_crypto (example_exec_receipt 0) metering_new))) = Inl MeterDuplicateReceipt"
proof -
  obtain h s1 where "submit_receipt example_metering_crypto (example_exec_receipt 0) metering_new = (Inr h, s1)"
    by (simp add: submit_receipt_def metering_new_def Let_def)
  from receipt_accepted_once [OF this] this show ?thesis by simp
qed

end
