(* ===== verification/Kernel.thy ===== *)
theory Kernel
  imports Prelude
begin

text \<open>
  Kernel execution, \<open>crates/intelligence/src/kernel.rs\<close>: kernel specifications, the execution context with its
  budget, the native sandbox (which copies its input) and the executor. The clock is an argument: the
  nanoseconds the sandbox measures and the milliseconds the executor measures.
\<close>

record kernel_param =
  kp_name :: string
  kp_param_type :: string

record kernel_spec =
  ks_id :: bytes32
  ks_version :: u32
  ks_name :: string
  ks_input_schema :: "kernel_param list"
  ks_output_schema :: "kernel_param list"
  ks_compute_bound :: u64
  ks_memory_bound :: u64
  ks_deterministic :: bool
  ks_resource_profile_hash :: bytes32

definition string_bytes :: "string \<Rightarrow> bytes" where
  "string_bytes s = map (\<lambda>ch. of_nat (of_char ch)) s"

definition kernel_compute_id :: "(bytes \<Rightarrow> bytes32) \<Rightarrow> string \<Rightarrow> u32 \<Rightarrow> bytes \<Rightarrow> bytes32" where
  "kernel_compute_id hash name version metadata = hash (string_bytes name @ to_le_bytes 4 version @ metadata)"

definition kernel_spec_new :: "(bytes \<Rightarrow> bytes32) \<Rightarrow> string \<Rightarrow> u32 \<Rightarrow> u64 \<Rightarrow> u64 \<Rightarrow> bool \<Rightarrow> kernel_spec" where
  "kernel_spec_new hash name version compute_bound memory_bound deterministic =
     \<lparr>ks_id = kernel_compute_id hash name version [], ks_version = version, ks_name = name, ks_input_schema = [],
      ks_output_schema = [], ks_compute_bound = compute_bound, ks_memory_bound = memory_bound,
      ks_deterministic = deterministic, ks_resource_profile_hash = zero32\<rparr>"

record kernel_output =
  ko_job_id :: bytes32
  ko_output_hash :: bytes32
  ko_compute_used :: u64
  ko_memory_used :: u64
  ko_output :: bytes
  ko_deterministic :: bool

definition compute_output_hash :: "(bytes \<Rightarrow> bytes32) \<Rightarrow> kernel_output \<Rightarrow> bytes32" where
  "compute_output_hash hash out = hash (ko_output out @ to_le_bytes 8 (ko_compute_used out))"

definition kernel_output_new :: "(bytes \<Rightarrow> bytes32) \<Rightarrow> bytes32 \<Rightarrow> bytes \<Rightarrow> u64 \<Rightarrow> kernel_output" where
  "kernel_output_new hash job_id output compute_used =
     \<lparr>ko_job_id = job_id, ko_output_hash = hash output, ko_compute_used = compute_used, ko_memory_used = 0,
      ko_output = output, ko_deterministic = True\<rparr>"

record kernel_input =
  ki_job_id :: bytes32
  ki_kernel_id :: bytes32
  ki_deterministic_seed :: "bytes32 option"
  ki_budget :: u64
  ki_memory_limit :: u64
  ki_payload :: bytes

datatype kernel_error = ExecutionFailed string | NoBudget | NoMemory | InvalidInput | KernelTimeout | GpuNotAvailable

fun kernel_error_text :: "kernel_error \<Rightarrow> string" where
  "kernel_error_text (ExecutionFailed msg) = ''Execution failed: '' @ msg"
| "kernel_error_text NoBudget = ''Insufficient budget''"
| "kernel_error_text NoMemory = ''Insufficient memory''"
| "kernel_error_text InvalidInput = ''Invalid input''"
| "kernel_error_text KernelTimeout = ''Execution timeout''"
| "kernel_error_text GpuNotAvailable = ''GPU not available''"

text \<open>The GPU kernel copies its input and fails when that is measured to take more than thirty seconds.\<close>

record gpu_kernel =
  gk_spec :: kernel_spec

definition gpu_kernel_new :: "(bytes \<Rightarrow> bytes32) \<Rightarrow> string \<Rightarrow> u32 \<Rightarrow> u64 \<Rightarrow> u64 \<Rightarrow> gpu_kernel" where
  "gpu_kernel_new hash name version compute_bound memory_bound =
     \<lparr>gk_spec = kernel_spec_new hash name version compute_bound memory_bound True\<rparr>"

definition gpu_execute :: "u64 \<Rightarrow> bytes \<Rightarrow> gpu_kernel \<Rightarrow> kernel_error + bytes" where
  "gpu_execute millis input k = (let output = input in if 30000 < millis then Inl KernelTimeout else Inr output)"

definition gpu_version :: "gpu_kernel \<Rightarrow> u32" where
  "gpu_version k = ks_version (gk_spec k)"

text \<open>The registry keeps the kernels in the order they were registered; a kernel is known by its specification.\<close>

definition kr_new :: "kernel_spec list" where
  "kr_new = []"

definition kr_list :: "kernel_spec list \<Rightarrow> kernel_spec list" where
  "kr_list ks = map (\<lambda>k. k) ks"

definition kr_register :: "kernel_spec \<Rightarrow> kernel_spec list \<Rightarrow> kernel_spec list" where
  "kr_register k ks = ks @ [k]"

definition kr_get :: "kernel_spec list \<Rightarrow> bytes32 \<Rightarrow> kernel_spec option" where
  "kr_get ks i = find (\<lambda>k. ks_id k = i) ks"

definition has_kernel :: "kernel_spec list \<Rightarrow> bytes32 \<Rightarrow> bool" where
  "has_kernel ks i \<longleftrightarrow> list_ex (\<lambda>k. ks_id k = i) ks"

record execution_context =
  ec_job_id :: bytes32
  ec_operator_id :: bytes32
  ec_block_height :: u64
  ec_deterministic_seed :: "bytes32 option"
  ec_budget :: u64
  ec_memory_limit :: u64
  ec_start_time :: u64

definition context_new :: "bytes32 \<Rightarrow> bytes32 \<Rightarrow> u64 \<Rightarrow> execution_context" where
  "context_new job_id operator_id block_height =
     \<lparr>ec_job_id = job_id, ec_operator_id = operator_id, ec_block_height = block_height, ec_deterministic_seed = None,
      ec_budget = 0, ec_memory_limit = 0, ec_start_time = 0\<rparr>"

definition context_with_seed :: "bytes32 \<Rightarrow> execution_context \<Rightarrow> execution_context" where
  "context_with_seed seed ctx = ctx\<lparr>ec_deterministic_seed := Some seed\<rparr>"

definition context_with_budget :: "u64 \<Rightarrow> execution_context \<Rightarrow> execution_context" where
  "context_with_budget b ctx = ctx\<lparr>ec_budget := b\<rparr>"

definition context_with_memory_limit :: "u64 \<Rightarrow> execution_context \<Rightarrow> execution_context" where
  "context_with_memory_limit l ctx = ctx\<lparr>ec_memory_limit := l\<rparr>"

definition is_exhausted :: "execution_context \<Rightarrow> bool" where
  "is_exhausted ctx = (if 0 < ec_budget ctx then True else False)"

definition can_execute :: "kernel_spec \<Rightarrow> execution_context \<Rightarrow> bool" where
  "can_execute spec ctx \<longleftrightarrow>
     ks_compute_bound spec \<le> ec_budget ctx \<and> (ec_memory_limit ctx = 0 \<or> ks_memory_bound spec \<le> ec_memory_limit ctx)"

record native_sandbox =
  ns_code :: "bytes option"
  ns_compute_used :: u64
  ns_memory_used :: u64

definition sandbox_new :: native_sandbox where
  "sandbox_new = \<lparr>ns_code = None, ns_compute_used = 0, ns_memory_used = 0\<rparr>"

definition sandbox_load :: "bytes \<Rightarrow> native_sandbox \<Rightarrow> native_sandbox" where
  "sandbox_load code sb = sb\<lparr>ns_code := Some code\<rparr>"

definition sandbox_execute :: "u64 \<Rightarrow> bytes \<Rightarrow> native_sandbox \<Rightarrow> bytes \<times> native_sandbox" where
  "sandbox_execute nanos input sb =
     (let output = input
      in (output, sb\<lparr>ns_compute_used := max nanos 1, ns_memory_used := of_nat (length output)\<rparr>))"

datatype sandbox_mode = NativeMode | WasmMode | GpuMode

definition get_used_resources :: "native_sandbox \<Rightarrow> u64 \<times> u64" where
  "get_used_resources sb = (ns_compute_used sb, ns_memory_used sb)"

datatype resource_limit_type = ComputeUnits | MemoryBytes | DurationLimit | GpuCycles

record resource_limit =
  rl_limit_type :: resource_limit_type
  rl_value :: u64

definition compute_units :: "u64 \<Rightarrow> resource_limit" where
  "compute_units v = \<lparr>rl_limit_type = ComputeUnits, rl_value = v\<rparr>"

definition memory_bytes :: "u64 \<Rightarrow> resource_limit" where
  "memory_bytes v = \<lparr>rl_limit_type = MemoryBytes, rl_value = v\<rparr>"

record kernel_executor =
  ke_sandbox :: native_sandbox
  ke_context :: "execution_context option"
  ke_registry :: "kernel_spec list"

definition executor_new :: kernel_executor where
  "executor_new = \<lparr>ke_sandbox = sandbox_new, ke_context = None, ke_registry = []\<rparr>"

definition executor_with_registry :: "kernel_spec list \<Rightarrow> kernel_executor \<Rightarrow> kernel_executor" where
  "executor_with_registry ks ex = ex\<lparr>ke_registry := ks\<rparr>"

definition executor_with_context :: "execution_context \<Rightarrow> kernel_executor \<Rightarrow> kernel_executor" where
  "executor_with_context ctx ex = ex\<lparr>ke_context := Some ctx\<rparr>"

definition kernel_execute ::
    "(bytes \<Rightarrow> bytes32) \<Rightarrow> u64 \<Rightarrow> u64 \<Rightarrow> kernel_spec \<Rightarrow> bytes \<Rightarrow> (string, kernel_output, kernel_executor) op" where
  "kernel_execute hash nanos millis spec input ex =
     (case ke_context ex of
        None \<Rightarrow> (Inl ''No execution context'', ex)
      | Some ctx \<Rightarrow>
          if ec_budget ctx < ks_compute_bound spec then (Inl ''Insufficient budget for kernel execution'', ex)
          else if 0 < ec_memory_limit ctx \<and> ec_memory_limit ctx < ks_memory_bound spec
          then (Inl ''Insufficient memory for kernel execution'', ex)
          else
            let (output, sb) = sandbox_execute nanos input (ke_sandbox ex);
                seed = (case ec_deterministic_seed ctx of None \<Rightarrow> [] | Some x \<Rightarrow> x)
            in (Inr \<lparr>ko_job_id = ec_job_id ctx, ko_output_hash = hash (output @ to_le_bytes 8 millis @ seed),
                     ko_compute_used = millis, ko_memory_used = of_nat (length output), ko_output = output,
                     ko_deterministic = ks_deterministic spec\<rparr>,
                ex\<lparr>ke_sandbox := sb\<rparr>))"

definition execute_deterministic ::
    "(bytes \<Rightarrow> bytes32) \<Rightarrow> u64 \<Rightarrow> u64 \<Rightarrow> kernel_spec \<Rightarrow> bytes \<Rightarrow> bytes32 \<Rightarrow> (string, kernel_output, kernel_executor) op" where
  "execute_deterministic hash nanos millis spec input seed ex =
     (case ke_context ex of
        None \<Rightarrow> (Inl ''No execution context'', ex)
      | Some ctx \<Rightarrow>
          kernel_execute hash nanos millis spec input (ex\<lparr>ke_context := Some (ctx\<lparr>ec_deterministic_seed := Some seed\<rparr>)\<rparr>))"

lemma to_le_bytes_inject: "to_le_bytes 8 a = to_le_bytes 8 (b :: u64) \<longleftrightarrow> a = b"
  by (metis from_to_le_u64)

section \<open>Properties\<close>

text \<open>The executor runs a kernel exactly when the context allows it: it fails, without touching its state, iff
  there is no context or the budget or a non-zero memory limit is below the kernel's bounds; otherwise it returns the
  sandbox's output.\<close>

theorem execute_iff_allowed:
  "(case ke_context ex of
      Some ctx \<Rightarrow>
        if can_execute spec ctx
        then \<exists>out ex'. kernel_execute hash nanos millis spec input ex = (Inr out, ex') \<and> ko_output out = input
               \<and> ko_job_id out = ec_job_id ctx \<and> ke_context ex' = ke_context ex
        else \<exists>e. kernel_execute hash nanos millis spec input ex = (Inl e, ex)
    | None \<Rightarrow> kernel_execute hash nanos millis spec input ex = (Inl ''No execution context'', ex))"
  by (auto simp: kernel_execute_def can_execute_def sandbox_execute_def Let_def not_less word_gt_0 split: option.splits)

text \<open>A deterministic execution is not reproducible: the output hash covers the measured milliseconds, so where the
  hash has no collision among the messages for one input and seed, two runs of the same kernel on the same input and seed have the same output hash only
  if they took the same time.\<close>

theorem deterministic_hash_depends_on_time:
  assumes "inj_on hash (range (\<lambda>t :: u64. input @ to_le_bytes 8 t @ seed))"
    and "execute_deterministic hash n1 t1 spec input seed ex = (Inr out1, ex1)"
    and "execute_deterministic hash n2 t2 spec input seed ex = (Inr out2, ex2)"
  shows "ko_output_hash out1 = ko_output_hash out2 \<longleftrightarrow> t1 = t2"
proof -
  have h: "ko_output_hash out = hash (input @ to_le_bytes 8 t @ seed)"
    if "execute_deterministic hash n t spec input seed ex = (Inr out, ex')" for n t out ex'
    using that by (auto simp: execute_deterministic_def kernel_execute_def sandbox_execute_def Let_def
        split: option.splits if_splits)
  show ?thesis unfolding h [OF assms(2)] h [OF assms(3)] using inj_onD [OF assms(1)]
    by (auto simp: to_le_bytes_inject dest: inj_onD [OF assms(1)])
qed

theorem deterministic_hash_depends_on_time_witness:
  "let ex = executor_with_context (context_with_budget 10 (context_new [1] [2] 3)) executor_new;
       spec = kernel_spec_new (\<lambda>b. b) ''k'' 1 5 0 True
   in map_sum id ko_output_hash (fst (execute_deterministic (\<lambda>b. b) 1 7 spec [4] [5] ex)) \<noteq>
      map_sum id ko_output_hash (fst (execute_deterministic (\<lambda>b. b) 1 8 spec [4] [5] ex))"
proof -
  let ?ex = "executor_with_context (context_with_budget 10 (context_new [1] [2] 3)) executor_new"
  let ?spec = "kernel_spec_new (\<lambda>b. b) ''k'' 1 5 0 True"
  have r: "\<exists>out ex'. execute_deterministic (\<lambda>b. b) 1 t ?spec [4] [5] ?ex = (Inr out, ex')" for t
    by (simp add: execute_deterministic_def kernel_execute_def executor_with_context_def context_with_budget_def
        context_new_def kernel_spec_new_def sandbox_execute_def Let_def)
  obtain o1 e1 o2 e2 where "execute_deterministic (\<lambda>b. b) 1 7 ?spec [4] [5] ?ex = (Inr o1, e1)"
      "execute_deterministic (\<lambda>b. b) 1 8 ?spec [4] [5] ?ex = (Inr o2, e2)"
    using r [of 7] r [of 8] by blast
  with deterministic_hash_depends_on_time [of "\<lambda>b. b", OF _ this] show ?thesis by (simp add: Let_def inj_on_def)
qed

text \<open>A kernel is found under the id of its specification from its first registration on; a kernel registered later under
  the same id is listed and never found.\<close>

theorem registered_kernel_found:
  "kr_get (fold kr_register ks kr_new) i = find (\<lambda>k. ks_id k = i) ks \<and> kr_list (fold kr_register ks kr_new) = ks \<and>
   (has_kernel (fold kr_register ks kr_new) i \<longleftrightarrow> kr_get (fold kr_register ks kr_new) i \<noteq> None) \<and>
   kr_get (fold kr_register (k # ks) kr_new) (ks_id k) = Some k"
proof -
  have "fold kr_register ks rs = rs @ ks" for ks rs :: "kernel_spec list"
    by (induction ks arbitrary: rs) (simp_all add: kr_register_def)
  then show ?thesis by (auto simp: kr_new_def kr_get_def kr_list_def kr_register_def has_kernel_def list_ex_iff find_None_iff)
qed

text \<open>After a successful execution the sandbox reports the size of the output as its memory and at least one unit of compute.\<close>

theorem used_resources_reported:
  assumes "kernel_execute hash nanos millis spec input ex = (Inr out, ex')"
  shows "snd (get_used_resources (ke_sandbox ex')) = ko_memory_used out \<and> 1 \<le> fst (get_used_resources (ke_sandbox ex')) \<and>
    ko_memory_used out = of_nat (length input)"
  using assms by (auto simp: kernel_execute_def sandbox_execute_def get_used_resources_def Let_def split: option.splits if_splits)

theorem used_resources_reported_witness:
  "let r = kernel_execute (\<lambda>b. b) 0 3 (kernel_spec_new (\<lambda>b. b) ''k'' 1 5 0 True) [4, 5]
       (executor_with_context (context_with_budget 10 (context_new [1] [2] 3)) executor_new)
   in get_used_resources (ke_sandbox (snd r)) = (1, 2)"
proof -
  let ?r = "kernel_execute (\<lambda>b. b) 0 3 (kernel_spec_new (\<lambda>b. b) ''k'' 1 5 0 True) [4, 5]
       (executor_with_context (context_with_budget 10 (context_new [1] [2] 3)) executor_new)"
  obtain out ex' where r: "?r = (Inr out, ex')" "fst (get_used_resources (ke_sandbox ex')) = 1"
    by (auto simp: kernel_execute_def executor_with_context_def context_with_budget_def context_new_def kernel_spec_new_def
        sandbox_execute_def get_used_resources_def Let_def)
  from used_resources_reported [OF r(1)] r(2) show ?thesis unfolding r(1) Let_def by (simp add: prod_eq_iff)
qed

end
