(* ===== verification/Verification.thy ===== *)
theory Verification
  imports Float64
begin

text \<open>
  The verification engine of \<open>crates/intelligence/src/verification.rs\<close>: sampling completed jobs, recording
  verification results with escalation after repeated mismatches, disputes, and the redundancy manager that
  decides over several results. The clock (\<open>now\<close>, in seconds, and the \<open>nanos\<close> that feed \<open>rand_simple\<close>) is an
  argument. Rates are non-negative doubles of \<open>Float64\<close>.
\<close>

section \<open>Data\<close>

datatype verification_mode = ModeNone | Probabilistic | ModeDeterministic

datatype redundancy_policy = Parallel | Sequential | Majority | FirstValid

datatype sampling_strategy = Random | Weighted | SampleDeterministic | Targeted

record verification_policy =
  vp_mode :: verification_mode
  vp_redundancy_factor :: u32
  vp_verification_rate :: f64
  vp_escalation_threshold :: u32
  vp_challenge_window_blocks :: u32
  vp_sampling_strategy :: sampling_strategy

text \<open>The double nearest to 0.1.\<close>

definition verification_policy_default :: verification_policy where
  "verification_policy_default =
     \<lparr>vp_mode = Probabilistic, vp_redundancy_factor = 1, vp_verification_rate = (7205759403792794, - 56),
      vp_escalation_threshold = 2, vp_challenge_window_blocks = 100, vp_sampling_strategy = Random\<rparr>"

datatype verification_status = VsPendingStatus | InProgress | Completed | Challenged | Escalated | VsResolved

datatype evidence_type = OutputMismatch | ExecutionDiff | TimeoutEvidence | InvalidState | SignatureInvalid

record verification_evidence =
  ve_evidence_type :: evidence_type
  ve_data :: bytes
  ve_timestamp :: u64

record verification_result =
  vr_matches :: bool
  vr_computed_hash :: bytes32
  vr_execution_time_ms :: u64
  vr_verifier_id :: bytes32
  vr_confidence :: f64
  vr_evidence :: "verification_evidence list"

record verification_job =
  vj_job_id :: bytes32
  vj_operator_id :: bytes32
  vj_input_hash :: bytes32
  vj_output_hash :: bytes32
  vj_expected_hash :: "bytes32 option"
  vj_verification_mode :: verification_mode
  vj_status :: verification_status
  vj_created_at :: u64
  vj_completed_at :: "u64 option"
  vj_result :: "verification_result option"

datatype vdispute_status = VdPending | Voting | VdResolved | Rejected | VdExpired

record vdispute =
  vd_dispute_id :: bytes32
  vd_job_id :: bytes32
  vd_challenger_id :: bytes32
  vd_accused_operator_id :: bytes32
  vd_evidence :: "verification_evidence list"
  vd_status :: vdispute_status
  vd_created_at :: u64
  vd_resolved_at :: "u64 option"
  vd_slash_amount :: "u64 option"

datatype verification_error = JobNotFound | VDisputeNotFound | VInvalidState | InsufficientEvidence

definition vdispute_new :: "(bytes \<Rightarrow> bytes32) \<Rightarrow> u64 \<Rightarrow> bytes32 \<Rightarrow> bytes32 \<Rightarrow> bytes32 \<Rightarrow> verification_evidence list \<Rightarrow> vdispute" where
  "vdispute_new hash now job_id challenger_id accused_id evidence =
     \<lparr>vd_dispute_id = hash (job_id @ challenger_id @ accused_id), vd_job_id = job_id, vd_challenger_id = challenger_id,
      vd_accused_operator_id = accused_id, vd_evidence = evidence, vd_status = VdPending, vd_created_at = now,
      vd_resolved_at = None, vd_slash_amount = None\<rparr>"

record verification_engine =
  en_verifications :: "(bytes32 \<times> verification_job) list"
  en_disputes :: "(bytes32 \<times> vdispute) list"
  en_verification_queue :: "bytes32 list"
  en_policy :: verification_policy
  en_challenge_counter :: "(bytes32 \<times> u32) list"
  en_total_sampled :: u64
  en_total_passed :: u64
  en_total_failed :: u64
  en_total_disputes :: u64

section \<open>Operations\<close>

definition verification_engine_new :: "verification_policy \<Rightarrow> verification_engine" where
  "verification_engine_new policy =
     \<lparr>en_verifications = [], en_disputes = [], en_verification_queue = [], en_policy = policy, en_challenge_counter = [],
      en_total_sampled = 0, en_total_passed = 0, en_total_failed = 0, en_total_disputes = 0\<rparr>"

definition rand_simple :: "u32 \<Rightarrow> u32" where
  "rand_simple nanos = nanos * 1103515245 + 12345"

definition should_verify :: "u32 \<Rightarrow> verification_engine \<Rightarrow> bool" where
  "should_verify nanos s \<longleftrightarrow>
     f64_less (f64_div (f64_of_u64 (ucast (rand_simple nanos))) (f64_of_u64 (2 ^ 32 - 1))) (vp_verification_rate (en_policy s))"

definition schedule_verification :: "verification_job \<Rightarrow> verification_engine \<Rightarrow> verification_engine" where
  "schedule_verification job s =
     s\<lparr>en_verifications := hm_insert (vj_job_id job) job (en_verifications s),
       en_verification_queue := en_verification_queue s @ [vj_job_id job]\<rparr>"

definition sample_job :: "u32 \<Rightarrow> u64 \<Rightarrow> bytes32 \<Rightarrow> bytes32 \<Rightarrow> bytes32 \<Rightarrow> bytes32 \<Rightarrow> verification_engine \<Rightarrow> bool \<times> verification_engine" where
  "sample_job nanos now job_id operator_id input_hash output_hash s =
     (if \<not> should_verify nanos s then (False, s)
      else
        let s1 = s\<lparr>en_total_sampled := en_total_sampled s + 1\<rparr>
        in (True, schedule_verification
              \<lparr>vj_job_id = job_id, vj_operator_id = operator_id, vj_input_hash = input_hash, vj_output_hash = output_hash,
               vj_expected_hash = None, vj_verification_mode = vp_mode (en_policy s1), vj_status = VsPendingStatus,
               vj_created_at = now, vj_completed_at = None, vj_result = None\<rparr> s1))"

definition next_verification :: "verification_engine \<Rightarrow> verification_job option \<times> verification_engine" where
  "next_verification s =
     (case en_verification_queue s of
        [] \<Rightarrow> (None, s)
      | i # rest \<Rightarrow> (map_of (en_verifications s) i, s\<lparr>en_verification_queue := rest\<rparr>))"

definition challenge_count :: "verification_engine \<Rightarrow> bytes32 \<Rightarrow> u32" where
  "challenge_count s i = (case map_of (en_challenge_counter s) i of None \<Rightarrow> 0 | Some n \<Rightarrow> n)"

definition increment_challenge_counter :: "bytes32 \<Rightarrow> verification_engine \<Rightarrow> verification_engine" where
  "increment_challenge_counter i s =
     s\<lparr>en_challenge_counter := hm_insert i (challenge_count s i + 1) (en_challenge_counter s)\<rparr>"

definition should_escalate :: "verification_engine \<Rightarrow> bytes32 \<Rightarrow> bool" where
  "should_escalate s i \<longleftrightarrow> vp_escalation_threshold (en_policy s) \<le> challenge_count s i"

definition complete_verification :: "u64 \<Rightarrow> bytes32 \<Rightarrow> verification_result \<Rightarrow> (verification_error, verification_status, verification_engine) op" where
  "complete_verification now i result s =
     (let s1 = (if \<not> vr_matches result then increment_challenge_counter i s else s);
          escalate = (if \<not> vr_matches result then should_escalate s1 i else False)
      in case map_of (en_verifications s1) i of
           None \<Rightarrow> (Inl JobNotFound, s1)
         | Some job \<Rightarrow>
             let st = (if escalate then Escalated else if \<not> vr_matches result then Challenged else Completed)
             in (Inr st, s1\<lparr>en_verifications := hm_insert i
                   (job\<lparr>vj_status := st, vj_result := Some result, vj_completed_at := Some now\<rparr>) (en_verifications s1)\<rparr>))"

definition record_verification_result :: "u64 \<Rightarrow> bytes32 \<Rightarrow> verification_result \<Rightarrow> (verification_error, verification_status, verification_engine) op" where
  "record_verification_result now i result s =
     (case complete_verification now i result s of
        (Inl e, s1) \<Rightarrow> (Inl e, s1)
      | (Inr st, s1) \<Rightarrow>
          (Inr st, if vr_matches result then s1\<lparr>en_total_passed := en_total_passed s1 + 1\<rparr>
                   else s1\<lparr>en_total_failed := en_total_failed s1 + 1\<rparr>))"

definition create_dispute :: "(bytes \<Rightarrow> bytes32) \<Rightarrow> u64 \<Rightarrow> bytes32 \<Rightarrow> bytes32 \<Rightarrow> bytes32 \<Rightarrow> (verification_error, vdispute, verification_engine) op" where
  "create_dispute hash now job_id challenger_id accused_id s =
     (case map_of (en_verifications s) job_id of
        None \<Rightarrow> (Inl JobNotFound, s)
      | Some job \<Rightarrow>
          let evidence = (case vj_result job of
                            Some r \<Rightarrow> [\<lparr>ve_evidence_type = OutputMismatch, ve_data = vr_computed_hash r, ve_timestamp = now\<rparr>]
                          | None \<Rightarrow> []);
              d = vdispute_new hash now job_id challenger_id accused_id evidence
          in (Inr d, s\<lparr>en_disputes := hm_insert (vd_dispute_id d) d (en_disputes s),
                       en_verifications := hm_insert job_id (job\<lparr>vj_status := Challenged\<rparr>) (en_verifications s)\<rparr>))"

definition set_verification_status :: "bytes32 \<Rightarrow> verification_status \<Rightarrow> verification_engine \<Rightarrow> verification_engine" where
  "set_verification_status i st s =
     (case map_of (en_verifications s) i of
        None \<Rightarrow> s
      | Some job \<Rightarrow> s\<lparr>en_verifications := hm_insert i (job\<lparr>vj_status := st\<rparr>) (en_verifications s)\<rparr>)"

definition v_resolve_dispute :: "u64 \<Rightarrow> bytes32 \<Rightarrow> u64 \<Rightarrow> (verification_error, vdispute_status, verification_engine) op" where
  "v_resolve_dispute now i slash_amount s =
     (case map_of (en_disputes s) i of
        None \<Rightarrow> (Inl VDisputeNotFound, s)
      | Some d \<Rightarrow>
          (Inr VdResolved, set_verification_status (vd_job_id d) VsResolved
             (s\<lparr>en_disputes := hm_insert i (d\<lparr>vd_status := VdResolved, vd_resolved_at := Some now, vd_slash_amount := Some slash_amount\<rparr>) (en_disputes s)\<rparr>)))"

definition reject_dispute :: "u64 \<Rightarrow> bytes32 \<Rightarrow> (verification_error, vdispute_status, verification_engine) op" where
  "reject_dispute now i s =
     (case map_of (en_disputes s) i of
        None \<Rightarrow> (Inl VDisputeNotFound, s)
      | Some d \<Rightarrow>
          (Inr Rejected, set_verification_status (vd_job_id d) VsResolved
             (s\<lparr>en_disputes := hm_insert i (d\<lparr>vd_status := Rejected, vd_resolved_at := Some now\<rparr>) (en_disputes s)\<rparr>)))"

definition get_pending_disputes :: "verification_engine \<Rightarrow> vdispute list" where
  "get_pending_disputes s = [d \<leftarrow> map snd (en_disputes s). vd_status d = VdPending]"

record verification_metrics =
  vm_total_sampled :: u64
  vm_total_passed :: u64
  vm_total_failed :: u64
  vm_total_disputes :: u64
  vm_pass_rate :: f64

definition get_metrics :: "verification_engine \<Rightarrow> verification_metrics" where
  "get_metrics s =
     \<lparr>vm_total_sampled = en_total_sampled s, vm_total_passed = en_total_passed s, vm_total_failed = en_total_failed s,
      vm_total_disputes = en_total_disputes s,
      vm_pass_rate = (if 0 < en_total_sampled s then f64_div (f64_of_u64 (en_total_passed s)) (f64_of_u64 (en_total_sampled s)) else (0, 0))\<rparr>"

section \<open>Redundancy\<close>

datatype v_qos_class = VLowLatency | VBalanced | VHighAssurance | VDeterministicCritical

record redundancy_manager =
  rd_policy :: redundancy_policy
  rd_max_redundancy :: u32

datatype redundancy_result =
    SingleResult bytes32 | MajorityResult bytes32 u32 | AllResults "bytes32 list" | Split nat | InconclusiveResult

definition determine_k :: "u32 \<Rightarrow> v_qos_class \<Rightarrow> redundancy_manager \<Rightarrow> u32" where
  "determine_k base_k q rd =
     (let min_k = (case q of VLowLatency \<Rightarrow> 1 | VBalanced \<Rightarrow> 2 | VHighAssurance \<Rightarrow> 3 | VDeterministicCritical \<Rightarrow> 3)
      in min (max base_k min_k) (rd_max_redundancy rd))"

definition count_hashes :: "(u32 \<times> bytes32) list \<Rightarrow> (bytes32 \<times> u32) list" where
  "count_hashes results =
     fold (\<lambda>(_, h) m. hm_insert h ((case map_of m h of None \<Rightarrow> 0 | Some n \<Rightarrow> n) + 1) m) results []"

definition evaluate_redundancy :: "(u32 \<times> bytes32) list \<Rightarrow> redundancy_manager \<Rightarrow> redundancy_result" where
  "evaluate_redundancy results rd =
     (if results = [] then InconclusiveResult
      else case rd_policy rd of
             Parallel \<Rightarrow> if length results = 1 then SingleResult (snd (results ! 0)) else AllResults (map snd results)
           | Sequential \<Rightarrow> SingleResult (snd (hd results))
           | Majority \<Rightarrow>
               (let majority = length results div 2 + 1
                in case find (\<lambda>(h, n). of_nat majority \<le> n) (count_hashes results) of
                     Some (h, n) \<Rightarrow> MajorityResult h n
                   | None \<Rightarrow> Split (length results))
           | FirstValid \<Rightarrow> SingleResult (snd (hd results)))"

section \<open>Counting results\<close>

definition votes_for :: "bytes32 \<Rightarrow> (u32 \<times> bytes32) list \<Rightarrow> nat" where
  "votes_for h results = length [r \<leftarrow> results. snd r = h]"

definition hash_count :: "(bytes32 \<times> u32) list \<Rightarrow> bytes32 \<Rightarrow> u32" where
  "hash_count m h = (case map_of m h of None \<Rightarrow> 0 | Some n \<Rightarrow> n)"

lemma count_fold:
  assumes "hm_wf m"
  defines "f \<equiv> \<lambda>(_ :: u32, h) m. hm_insert h ((case map_of m h of None \<Rightarrow> 0 | Some n \<Rightarrow> n) + 1 :: u32) m"
  shows "hm_wf (fold f results m) \<and> hash_count (fold f results m) h = hash_count m h + of_nat (votes_for h results)
    \<and> dom (map_of (fold f results m)) = dom (map_of m) \<union> snd ` set results"
  using assms(1)
proof (induction results arbitrary: m)
  case Nil
  then show ?case by (simp add: votes_for_def)
next
  case (Cons r results)
  obtain k g where r: "r = (k, g)" by fastforce
  have "f r m = hm_insert g (hash_count m g + 1) m" by (simp add: f_def r hash_count_def)
  moreover have "hm_wf (hm_insert g (hash_count m g + 1) m)" using Cons.prems by (rule hm.wf_insert)
  ultimately show ?case using Cons.IH [of "hm_insert g (hash_count m g + 1) m"]
    by (auto simp: r votes_for_def hash_count_def)
qed

lemma count_hashes_entries:
  "hm_wf (count_hashes results)"
  "(h, n) \<in> set (count_hashes results) \<longleftrightarrow> h \<in> snd ` set results \<and> n = of_nat (votes_for h results)"
proof -
  have w: "hm_wf (count_hashes results)" and c: "hash_count (count_hashes results) h = of_nat (votes_for h results)"
    and d: "dom (map_of (count_hashes results)) = snd ` set results"
    using count_fold [OF hm.wf_empty, of results h] by (simp_all add: count_hashes_def hash_count_def)
  show "hm_wf (count_hashes results)" by (rule w)
  show "(h, n) \<in> set (count_hashes results) \<longleftrightarrow> h \<in> snd ` set results \<and> n = of_nat (votes_for h results)"
    using c d unfolding hm.entry_iff [OF w] hash_count_def by (auto split: option.splits)
qed

lemma votes_for_le: "votes_for h results \<le> length results"
  by (simp add: votes_for_def)

lemma votes_for_disjoint: "h \<noteq> g \<Longrightarrow> votes_for h results + votes_for g results \<le> length results"
  unfolding votes_for_def by (induction results) auto

lemma votes_for_pos: "h \<in> snd ` set results \<longleftrightarrow> 0 < votes_for h results"
  by (force simp: votes_for_def filter_empty_conv)

lemma majority_reached:
  assumes "length results < 2 ^ 32"
  shows "(of_nat (length results div 2 + 1) :: u32) \<le> of_nat (votes_for h results) \<longleftrightarrow> length results < 2 * votes_for h results"
proof -
  have a: "length results div 2 + 1 < 2 ^ 32" and b: "votes_for h results < 2 ^ 32"
    using assms votes_for_le [of h results] by auto
  have "unat (of_nat (length results div 2 + 1) :: u32) = length results div 2 + 1"
    by (rule unat_of_nat_small) (use a in simp)
  moreover have "unat (of_nat (votes_for h results) :: u32) = votes_for h results"
    using b by (simp add: unsigned_of_nat take_bit_nat_eq_self)
  ultimately show ?thesis by (simp only: word_le_nat_alt) linarith
qed

section \<open>Escalation\<close>

definition mismatches :: "verification_result list \<Rightarrow> nat" where
  "mismatches rs = length [r \<leftarrow> rs. \<not> vr_matches r]"

definition complete_all :: "u64 \<Rightarrow> bytes32 \<Rightarrow> verification_result list \<Rightarrow> verification_engine \<Rightarrow> verification_engine" where
  "complete_all now i = fold (\<lambda>r s. snd (complete_verification now i r s))"

lemma complete_verification_state:
  fixes now :: u64 and r :: verification_result
  assumes "map_of (en_verifications s) i \<noteq> None"
  defines "s' \<equiv> snd (complete_verification now i r s)"
  shows "challenge_count s' i = challenge_count s i + (if vr_matches r then 0 else 1)"
    "en_policy s' = en_policy s" "map_of (en_verifications s') i \<noteq> None"
    "map_option vj_status (map_of (en_verifications s') i) = Some (
       if vr_matches r then Completed
       else if vp_escalation_threshold (en_policy s) \<le> challenge_count s i + 1 then Escalated else Challenged)"
  using assms(1) unfolding s'_def
  by (auto simp: complete_verification_def increment_challenge_counter_def challenge_count_def should_escalate_def Let_def)

lemma complete_all_state:
  assumes "map_of (en_verifications s) i \<noteq> None"
  shows "challenge_count (complete_all now i rs s) i = challenge_count s i + of_nat (mismatches rs)
    \<and> en_policy (complete_all now i rs s) = en_policy s \<and> map_of (en_verifications (complete_all now i rs s)) i \<noteq> None"
  using assms
proof (induction rs arbitrary: s)
  case Nil
  then show ?case by (simp add: complete_all_def mismatches_def)
next
  case (Cons r rs)
  from Cons.IH [OF complete_verification_state(3) [OF Cons.prems]] complete_verification_state(1,2) [OF Cons.prems]
  show ?case by (simp add: complete_all_def mismatches_def)
qed

text \<open>The metric of disputes never moves, whatever disputes are created.\<close>

inductive verification_step :: "(bytes \<Rightarrow> bytes32) \<Rightarrow> verification_engine \<Rightarrow> verification_engine \<Rightarrow> bool" for hash where
  "verification_step hash s (schedule_verification job s)"
| "verification_step hash s (snd (sample_job nanos now i j a b s))"
| "verification_step hash s (snd (next_verification s))"
| "verification_step hash s (snd (record_verification_result now i r s))"
| "verification_step hash s (snd (create_dispute hash now i j k s))"
| "verification_step hash s (snd (v_resolve_dispute now i amount s))"
| "verification_step hash s (snd (reject_dispute now i s))"

lemma verification_step_disputes: "verification_step hash s s' \<Longrightarrow> en_total_disputes s' = en_total_disputes s"
  by (induction rule: verification_step.induct)
    (auto simp: schedule_verification_def sample_job_def next_verification_def record_verification_result_def
      complete_verification_def increment_challenge_counter_def create_dispute_def v_resolve_dispute_def reject_dispute_def
      set_verification_status_def Let_def split: list.splits option.splits prod.splits sum.splits)

interpretation counted_disputes: step_closed "verification_step hash" "\<lambda>s. en_total_disputes s = n" for hash n
  by unfold_locales (simp add: verification_step_disputes)

section \<open>Properties\<close>

text \<open>C28. Under the majority policy, with fewer than \<open>2 ^ 32\<close> results, the manager returns a hash with its count
  exactly when more than half of the results have that hash, and a split otherwise: the order in which the hash map
  is walked does not matter.\<close>

theorem majority_exact:
  assumes "rd_policy rd = Majority" "results \<noteq> []" "length results < 2 ^ 32"
  shows "(\<exists>h. length results < 2 * votes_for h results \<and> evaluate_redundancy results rd = MajorityResult h (of_nat (votes_for h results)))
    \<or> (\<forall>h. 2 * votes_for h results \<le> length results) \<and> evaluate_redundancy results rd = Split (length results)"
proof -
  let ?P = "\<lambda>(h, n). (of_nat (length results div 2 + 1) :: u32) \<le> n"
  let ?m = "count_hashes results"
  show ?thesis
  proof (cases "find ?P ?m")
    case None
    have "2 * votes_for h results \<le> length results" for h
    proof (cases "h \<in> snd ` set results")
      case True
      then have "(h, of_nat (votes_for h results)) \<in> set ?m" by (simp add: count_hashes_entries)
      with None have "\<not> ?P (h, of_nat (votes_for h results))" by (auto simp: find_None_iff)
      then show ?thesis using majority_reached [OF assms(3), of h] by simp
    next
      case False
      then show ?thesis using votes_for_pos [of h results] by simp
    qed
    then show ?thesis using None assms by (simp add: evaluate_redundancy_def Let_def)
  next
    case (Some p)
    obtain h n where p: "p = (h, n)" by fastforce
    have "p \<in> set ?m" "?P p" using find_in_list [OF Some] by auto
    then have n: "n = of_nat (votes_for h results)" and "?P (h, n)" by (simp_all add: p count_hashes_entries)
    then have "length results < 2 * votes_for h results" using majority_reached [OF assms(3), of h] by simp
    then show ?thesis using Some assms p n by (auto simp: evaluate_redundancy_def Let_def)
  qed
qed

theorem majority_exact_witness:
  "evaluate_redundancy [(1, [7]), (2, [8]), (3, [7])] \<lparr>rd_policy = Majority, rd_max_redundancy = 3\<rparr> = MajorityResult [7] 2"
proof -
  let ?rs = "[(1, [7]), (2, [8]), (3, [7])] :: (u32 \<times> bytes32) list"
  have v: "votes_for [7] ?rs = 2" "h \<noteq> [7] \<Longrightarrow> votes_for h ?rs \<le> 1" for h by (auto simp: votes_for_def)
  have "\<not> 2 * votes_for [7] ?rs \<le> length ?rs" using v(1) by simp
  then have "\<not> (\<forall>h. 2 * votes_for h ?rs \<le> length ?rs)" by blast
  then obtain h where h: "length ?rs < 2 * votes_for h ?rs"
      "evaluate_redundancy ?rs \<lparr>rd_policy = Majority, rd_max_redundancy = 3\<rparr> = MajorityResult h (of_nat (votes_for h ?rs))"
    using majority_exact [of "\<lparr>rd_policy = Majority, rd_max_redundancy = 3\<rparr>" ?rs] by auto
  moreover have "h = [7]" using h(1) v(2) [of h] by (cases "h = [7]") auto
  ultimately show ?thesis using v(1) by simp
qed

text \<open>Mismatches add up over the results recorded for a job and are never reset: after any results, a further
  mismatch escalates the job exactly when the mismatches so far, itself included, reach the threshold.\<close>

theorem escalates_at_threshold:
  assumes "map_of (en_verifications s) i \<noteq> None" "challenge_count s i = 0" "\<not> vr_matches r"
    and "mismatches rs + 1 < 2 ^ 32"
  shows "\<exists>s'. complete_verification now i r (complete_all now i rs s) =
    (Inr (if unat (vp_escalation_threshold (en_policy s)) \<le> mismatches rs + 1 then Escalated else Challenged), s')"
proof -
  let ?t = "complete_all now i rs s"
  have st: "challenge_count ?t i = of_nat (mismatches rs)" "en_policy ?t = en_policy s" "map_of (en_verifications ?t) i \<noteq> None"
    using complete_all_state [OF assms(1), of now rs] assms(2) by simp_all
  have "unat (of_nat (mismatches rs + 1) :: u32) = mismatches rs + 1"
    by (rule unat_of_nat_small) (use assms(4) in simp)
  then have "unat (of_nat (mismatches rs) + 1 :: u32) = mismatches rs + 1" by (simp add: add.commute)
  then have le: "vp_escalation_threshold (en_policy s) \<le> challenge_count ?t i + 1 \<longleftrightarrow>
      unat (vp_escalation_threshold (en_policy s)) \<le> mismatches rs + 1"
    unfolding st(1) by (simp only: word_le_nat_alt)
  have c: "challenge_count (increment_challenge_counter i ?t) i = challenge_count ?t i + 1"
    by (simp add: increment_challenge_counter_def challenge_count_def)
  show ?thesis using st assms(3) le c
    by (auto simp: complete_verification_def should_escalate_def Let_def increment_challenge_counter_def)
qed

definition example_result :: "bool \<Rightarrow> verification_result" where
  "example_result b = \<lparr>vr_matches = b, vr_computed_hash = [], vr_execution_time_ms = 0, vr_verifier_id = [], vr_confidence = (1, 0), vr_evidence = []\<rparr>"

definition example_verification :: verification_engine where
  "example_verification = schedule_verification
     \<lparr>vj_job_id = [1], vj_operator_id = [], vj_input_hash = [], vj_output_hash = [], vj_expected_hash = None,
      vj_verification_mode = Probabilistic, vj_status = VsPendingStatus, vj_created_at = 0, vj_completed_at = None, vj_result = None\<rparr>
     (verification_engine_new verification_policy_default)"

theorem escalates_at_threshold_witness:
  "\<exists>s'. complete_verification 5 [1] (example_result False)
     (complete_all 5 [1] [example_result False, example_result True] example_verification) = (Inr Escalated, s')"
  using escalates_at_threshold [of example_verification "[1]" "example_result False" "[example_result False, example_result True]" 5]
  by (simp add: example_verification_def schedule_verification_def verification_engine_new_def verification_policy_default_def
      challenge_count_def example_result_def mismatches_def)

end
