(* ===== verification/Jobs.thy ===== *)
theory Jobs
  imports Metering Kernel Verification
begin

text \<open>
  Jobs, \<open>crates/intelligence/src/job.rs\<close>: tickets and budgets, the life cycle of a job with retries and expiry,
  and the job executor, which stores jobs and receipts, runs kernels and hands jobs to the verification
  engine. The public executor wraps the inner state in an \<open>RwLock\<close>; every call holds the lock to its end.
\<close>

section \<open>Tickets and budgets\<close>

datatype qos_class = LowLatency | Balanced | HighAssurance | DeterministicCritical

datatype cancellation_policy = Immediate | AfterDeadline | Never

record job_verification_policy =
  jp_verification_rate :: f64
  jp_redundancy_factor :: u32
  jp_escalation_threshold :: u32
  jp_challenge_window_blocks :: u32

definition job_verification_policy_default :: job_verification_policy where
  "job_verification_policy_default =
     \<lparr>jp_verification_rate = (7205759403792794, - 56), jp_redundancy_factor = 1, jp_escalation_threshold = 2,
      jp_challenge_window_blocks = 100\<rparr>"

record budget =
  bg_max_total_fee :: u64
  bg_max_gpu_cycles :: u64
  bg_max_cpu_cycles :: u64
  bg_max_memory_bytes :: u64
  bg_max_output_size :: u64
  bg_verifier_reserve :: u64

definition budget_new :: "u64 \<Rightarrow> budget" where
  "budget_new max_total_fee =
     \<lparr>bg_max_total_fee = max_total_fee, bg_max_gpu_cycles = 1000000000, bg_max_cpu_cycles = 100000000,
      bg_max_memory_bytes = 8589934592, bg_max_output_size = 1073741824, bg_verifier_reserve = max_total_fee div 10\<rparr>"

definition budget_to_bytes :: "budget \<Rightarrow> bytes" where
  "budget_to_bytes b =
     to_le_bytes 8 (bg_max_total_fee b) @ to_le_bytes 8 (bg_max_gpu_cycles b) @ to_le_bytes 8 (bg_max_cpu_cycles b)
     @ to_le_bytes 8 (bg_max_memory_bytes b) @ to_le_bytes 8 (bg_max_output_size b) @ to_le_bytes 8 (bg_verifier_reserve b)"

record execution_cost =
  xc_total_fee :: u64
  xc_gpu_cycles :: u64
  xc_cpu_cycles :: u64
  xc_memory_bytes :: u64
  xc_output_size :: u64

definition cost_new :: execution_cost where
  "cost_new = \<lparr>xc_total_fee = 0, xc_gpu_cycles = 0, xc_cpu_cycles = 0, xc_memory_bytes = 0, xc_output_size = 0\<rparr>"

definition calculate_fee :: "u64 \<Rightarrow> execution_cost \<Rightarrow> u64" where
  "calculate_fee price_per_cycle c = xc_gpu_cycles c * price_per_cycle + xc_cpu_cycles c * (price_per_cycle div 10)"

definition can_cover :: "budget \<Rightarrow> execution_cost \<Rightarrow> bool" where
  "can_cover b c \<longleftrightarrow> xc_total_fee c \<le> bg_max_total_fee b \<and> xc_gpu_cycles c \<le> bg_max_gpu_cycles b
     \<and> xc_cpu_cycles c \<le> bg_max_cpu_cycles b \<and> xc_memory_bytes c \<le> bg_max_memory_bytes b
     \<and> xc_output_size c \<le> bg_max_output_size b"

record job_ticket =
  jt_job_id :: bytes32
  jt_client_id :: bytes32
  jt_kernel_id :: bytes32
  jt_input_hash :: bytes32
  jt_execution_mode :: execution_mode
  jt_budget :: budget
  jt_deadline :: u64
  jt_qos_class :: qos_class
  jt_verification_policy :: job_verification_policy
  jt_max_retries :: u32
  jt_partial_allowed :: bool
  jt_cancellation_policy :: cancellation_policy
  jt_creation_block_height :: u64
  jt_signature :: bytes

definition job_ticket_new :: "crypto \<Rightarrow> bytes32 \<Rightarrow> bytes32 \<Rightarrow> bytes32 \<Rightarrow> budget \<Rightarrow> u64 \<Rightarrow> job_ticket" where
  "job_ticket_new c client_id kernel_id input_hash b deadline =
     \<lparr>jt_job_id = blake3 c (client_id @ kernel_id @ input_hash @ budget_to_bytes b @ to_le_bytes 8 deadline),
      jt_client_id = client_id, jt_kernel_id = kernel_id, jt_input_hash = input_hash, jt_execution_mode = Deterministic,
      jt_budget = b, jt_deadline = deadline, jt_qos_class = Balanced,
      jt_verification_policy = job_verification_policy_default, jt_max_retries = 3, jt_partial_allowed = False,
      jt_cancellation_policy = AfterDeadline, jt_creation_block_height = 0, jt_signature = []\<rparr>"

section \<open>The life cycle of a job\<close>

datatype job_status = JPending | JAssigned | JExecuting | JCompleted | JFailed | JExpired | JDisputed | JCancelled

record job_result =
  jr_output_hash :: bytes32
  jr_output_size :: u64
  jr_compute_used :: execution_cost
  jr_execution_time_ms :: u64
  jr_signature :: bytes
  jr_partial :: bool

definition job_result_new :: "bytes32 \<Rightarrow> execution_cost \<Rightarrow> job_result" where
  "job_result_new output_hash compute_used =
     \<lparr>jr_output_hash = output_hash, jr_output_size = 0, jr_compute_used = compute_used, jr_execution_time_ms = 0,
      jr_signature = [], jr_partial = False\<rparr>"

record job =
  j_ticket :: job_ticket
  j_status :: job_status
  j_assigned_operator :: "bytes32 option"
  j_result :: "job_result option"
  j_execution_cost :: "execution_cost option"
  j_retries_remaining :: u32
  j_created_at :: u64
  j_started_at :: "u64 option"
  j_completed_at :: "u64 option"

definition job_from_ticket :: "job_ticket \<Rightarrow> u64 \<Rightarrow> job" where
  "job_from_ticket ticket created_at =
     \<lparr>j_ticket = ticket, j_status = JPending, j_assigned_operator = None, j_result = None, j_execution_cost = None,
      j_retries_remaining = 0, j_created_at = created_at, j_started_at = None, j_completed_at = None\<rparr>"

definition job_assign :: "bytes32 \<Rightarrow> u64 \<Rightarrow> job \<Rightarrow> job" where
  "job_assign operator_id current_block j =
     j\<lparr>j_status := JAssigned, j_assigned_operator := Some operator_id, j_started_at := Some current_block,
       j_retries_remaining := jt_max_retries (j_ticket j)\<rparr>"

definition start_execution :: "job \<Rightarrow> job" where
  "start_execution j = j\<lparr>j_status := JExecuting\<rparr>"

definition job_complete :: "job_result \<Rightarrow> execution_cost \<Rightarrow> u64 \<Rightarrow> job \<Rightarrow> job" where
  "job_complete r cost completed_at j =
     j\<lparr>j_status := JCompleted, j_result := Some r, j_execution_cost := Some cost, j_completed_at := Some completed_at\<rparr>"

definition job_fail :: "job \<Rightarrow> job" where
  "job_fail j =
     (if 0 < j_retries_remaining j
      then
        let n = j_retries_remaining j - 1
        in j\<lparr>j_retries_remaining := n, j_status := (if n = 0 then JFailed else JPending), j_assigned_operator := None\<rparr>
      else j)"

definition job_expire :: "job \<Rightarrow> job" where
  "job_expire j = j\<lparr>j_status := JExpired\<rparr>"

definition job_dispute :: "job \<Rightarrow> job" where
  "job_dispute j = j\<lparr>j_status := JDisputed\<rparr>"

definition job_cancel :: "job \<Rightarrow> job" where
  "job_cancel j =
     (if jt_cancellation_policy (j_ticket j) = Immediate \<and> j_status j \<in> {JPending, JAssigned}
      then j\<lparr>j_status := JCancelled\<rparr> else j)"

definition job_is_expired :: "u64 \<Rightarrow> job \<Rightarrow> bool" where
  "job_is_expired current_block j \<longleftrightarrow>
     jt_deadline (j_ticket j) < current_block \<and> j_status j \<in> {JPending, JAssigned, JExecuting}"

definition can_retry :: "job \<Rightarrow> bool" where
  "can_retry j \<longleftrightarrow> 0 < j_retries_remaining j \<and> j_status j \<in> {JFailed, JExpired}"

definition refund_amount :: "job \<Rightarrow> u64" where
  "refund_amount j =
     (let used = (case j_execution_cost j of None \<Rightarrow> 0 | Some c \<Rightarrow> xc_total_fee c)
      in saturating_sub (bg_max_total_fee (jt_budget (j_ticket j))) used)"

section \<open>The executor\<close>

datatype job_error =
    JobNotFoundError | JobAlreadyExists | JobInvalidStateTransition | BudgetExceeded | DeadlineExceeded | OperatorNotFound
  | CapacityExceeded | JobExecutionFailed string

datatype job_execution_error = ExecJobNotFound | KernelError string | ExecInvalidState | InsufficientBudget

record job_executor =
  jx_jobs :: "(bytes32 \<times> job) list"
  jx_receipts :: "(bytes32 \<times> exec_receipt) list"
  jx_kernel_registry :: "kernel_spec list"
  jx_verification_engine :: "verification_engine option"
  jx_capacity :: nat

definition job_executor_new :: "nat \<Rightarrow> job_executor" where
  "job_executor_new capacity =
     \<lparr>jx_jobs = [], jx_receipts = [], jx_kernel_registry = [], jx_verification_engine = None, jx_capacity = capacity\<rparr>"

definition with_verification :: "nat \<Rightarrow> verification_policy \<Rightarrow> job_executor" where
  "with_verification capacity policy =
     \<lparr>jx_jobs = [], jx_receipts = [], jx_kernel_registry = [],
      jx_verification_engine = Some (verification_engine_new policy), jx_capacity = capacity\<rparr>"

definition put_job :: "bytes32 \<Rightarrow> job \<Rightarrow> job_executor \<Rightarrow> job_executor" where
  "put_job i j s = s\<lparr>jx_jobs := hm_insert i j (jx_jobs s)\<rparr>"

definition submit :: "crypto \<Rightarrow> job \<Rightarrow> (job_error, exec_receipt, job_executor) op" where
  "submit c j s =
     (if jx_capacity s \<le> length (jx_jobs s) then (Inl CapacityExceeded, s)
      else
        let i = jt_job_id (j_ticket j); s1 = put_job i j s;
            receipt = exec_receipt_new c i zero32 (jt_kernel_id (j_ticket j)) (1, 0, 0) (jt_input_hash (j_ticket j)) zero32
                        usage_new (jt_execution_mode (j_ticket j)) 0 0
        in (Inr receipt, s1\<lparr>jx_receipts := hm_insert i receipt (jx_receipts s1)\<rparr>))"

definition submit_job :: "crypto \<Rightarrow> job_ticket \<Rightarrow> u64 \<Rightarrow> (job_error, bytes32, job_executor) op" where
  "submit_job c ticket block_height s =
     (let j = job_from_ticket ticket block_height
      in case submit c j s of (Inl e, s') \<Rightarrow> (Inl e, s') | (Inr _, s') \<Rightarrow> (Inr (jt_job_id (j_ticket j)), s'))"

definition get_job :: "job_executor \<Rightarrow> bytes32 \<Rightarrow> job option" where
  "get_job s i = map_of (jx_jobs s) i"

definition jx_get_receipt :: "job_executor \<Rightarrow> bytes32 \<Rightarrow> exec_receipt option" where
  "jx_get_receipt s i = map_of (jx_receipts s) i"

definition assign_job :: "bytes32 \<Rightarrow> bytes32 \<Rightarrow> u64 \<Rightarrow> (job_error, unit, job_executor) op" where
  "assign_job i operator_id current_block s =
     (case map_of (jx_jobs s) i of
        None \<Rightarrow> (Inl JobNotFoundError, s)
      | Some j \<Rightarrow>
          if j_status j \<noteq> JPending then (Inl JobInvalidStateTransition, s)
          else (Inr (), put_job i (job_assign operator_id current_block j) s))"

definition complete_job :: "bytes32 \<Rightarrow> job_result \<Rightarrow> u64 \<Rightarrow> (job_error, u64, job_executor) op" where
  "complete_job i r current_block s =
     (case map_of (jx_jobs s) i of
        None \<Rightarrow> (Inl JobNotFoundError, s)
      | Some j \<Rightarrow>
          if j_status j \<notin> {JAssigned, JExecuting} then (Inl JobInvalidStateTransition, s)
          else if \<not> can_cover (jt_budget (j_ticket j)) (jr_compute_used r) then (Inl BudgetExceeded, s)
          else (Inr (bg_max_total_fee (jt_budget (j_ticket j)) - xc_total_fee (jr_compute_used r)),
                put_job i (job_complete r (jr_compute_used r) current_block j) s))"

definition fail_job :: "bytes32 \<Rightarrow> (job_error, unit, job_executor) op" where
  "fail_job i s =
     (case map_of (jx_jobs s) i of
        None \<Rightarrow> (Inl JobNotFoundError, s)
      | Some j \<Rightarrow> (Inr (), put_job i (job_fail j) s))"

definition expire_jobs :: "u64 \<Rightarrow> job_executor \<Rightarrow> bytes32 list \<times> job_executor" where
  "expire_jobs current_block s =
     (map fst [(i, j) \<leftarrow> jx_jobs s. job_is_expired current_block j],
      s\<lparr>jx_jobs := map (\<lambda>(i, j). (i, if job_is_expired current_block j then job_expire j else j)) (jx_jobs s)\<rparr>)"

text \<open>\<open>submit_job\<close> of the inner state, which the public one does not use.\<close>

definition inner_submit_job :: "job_ticket \<Rightarrow> u64 \<Rightarrow> (job_error, bytes32, job_executor) op" where
  "inner_submit_job ticket current_block s =
     (if map_of (jx_jobs s) (jt_job_id ticket) \<noteq> None then (Inl JobAlreadyExists, s)
      else (Inr (jt_job_id ticket), put_job (jt_job_id ticket) (job_from_ticket ticket current_block) s))"

definition get_pending_jobs :: "job_executor \<Rightarrow> job list" where
  "get_pending_jobs s = [j \<leftarrow> map snd (jx_jobs s). j_status j = JPending]"

definition get_jobs_by_operator :: "bytes32 \<Rightarrow> job_executor \<Rightarrow> job list" where
  "get_jobs_by_operator i s = [j \<leftarrow> map snd (jx_jobs s). j_assigned_operator j = Some i]"

definition get_jobs_by_client :: "bytes32 \<Rightarrow> job_executor \<Rightarrow> job list" where
  "get_jobs_by_client i s = [j \<leftarrow> map snd (jx_jobs s). jt_client_id (j_ticket j) = i]"

definition get_kernel_spec :: "crypto \<Rightarrow> kernel_spec" where
  "get_kernel_spec c = kernel_spec_new (blake3 c) ''default'' 1 1000000000 8589934592 True"

definition execute_job ::
    "crypto \<Rightarrow> u64 \<Rightarrow> u64 \<Rightarrow> bytes32 \<Rightarrow> bytes \<Rightarrow> bytes32 \<Rightarrow> u64 \<Rightarrow> (job_execution_error, kernel_output, job_executor) op" where
  "execute_job c nanos millis i input operator_id block_height s =
     (case map_of (jx_jobs s) i of
        None \<Rightarrow> (Inl ExecJobNotFound, s)
      | Some j \<Rightarrow>
          if j_status j \<notin> {JAssigned, JExecuting} then (Inl ExecInvalidState, s)
          else
            let b = jt_budget (j_ticket j);
                ctx = context_with_memory_limit (bg_max_memory_bytes b)
                        (context_with_budget (bg_max_gpu_cycles b) (context_new i operator_id block_height))
            in case fst (kernel_execute (blake3 c) nanos millis (get_kernel_spec c) input (executor_with_context ctx executor_new)) of
                 Inl e \<Rightarrow> (Inl (KernelError e), s)
               | Inr out \<Rightarrow> (Inr out, put_job i (start_execution j) s))"

definition jx_schedule_verification ::
    "u64 \<Rightarrow> bytes32 \<Rightarrow> bytes32 \<Rightarrow> bytes32 \<Rightarrow> bytes32 \<Rightarrow> (job_error, unit, job_executor) op" where
  "jx_schedule_verification now i operator_id input_hash output_hash s =
     (case map_of (jx_jobs s) i of
        None \<Rightarrow> (Inl JobNotFoundError, s)
      | Some j \<Rightarrow>
          (Inr (), s\<lparr>jx_verification_engine := map_option (schedule_verification
             \<lparr>vj_job_id = i, vj_operator_id = operator_id, vj_input_hash = input_hash, vj_output_hash = output_hash,
              vj_expected_hash = None, vj_verification_mode = Probabilistic, vj_status = VsPendingStatus,
              vj_created_at = now, vj_completed_at = None, vj_result = None\<rparr>) (jx_verification_engine s)\<rparr>))"

definition jx_complete_verification ::
    "u64 \<Rightarrow> bytes32 \<Rightarrow> verification_result \<Rightarrow> (verification_error, verification_status, job_executor) op" where
  "jx_complete_verification now i r s =
     (case jx_verification_engine s of
        None \<Rightarrow> (Inl JobNotFound, s)
      | Some e \<Rightarrow> (let (res, e') = complete_verification now i r e in (res, s\<lparr>jx_verification_engine := Some e'\<rparr>)))"

definition jx_should_verify :: "u32 \<Rightarrow> job_executor \<Rightarrow> bool" where
  "jx_should_verify nanos s = (case jx_verification_engine s of None \<Rightarrow> False | Some e \<Rightarrow> should_verify nanos e)"

definition get_verification_result :: "job_executor \<Rightarrow> bytes32 \<Rightarrow> verification_result option" where
  "get_verification_result s i =
     (case jx_verification_engine s of
        None \<Rightarrow> None
      | Some e \<Rightarrow> (case map_of (en_verifications e) i of None \<Rightarrow> None | Some v \<Rightarrow> vj_result v))"

definition trigger_dispute :: "crypto \<Rightarrow> u64 \<Rightarrow> bytes32 \<Rightarrow> bytes32 \<Rightarrow> (verification_error, vdispute, job_executor) op" where
  "trigger_dispute c now i challenger_id s =
     (case jx_verification_engine s of
        None \<Rightarrow> (Inl JobNotFound, s)
      | Some e \<Rightarrow>
          (case map_of (jx_jobs s) i of
             None \<Rightarrow> (Inl JobNotFound, s)
           | Some j \<Rightarrow>
               (let operator_id = (case j_assigned_operator j of None \<Rightarrow> zero32 | Some x \<Rightarrow> x);
                    (res, e') = create_dispute (blake3 c) now i challenger_id operator_id e
                in (res, s\<lparr>jx_verification_engine := Some e'\<rparr>))))"

definition jx_register_kernel :: "kernel_spec \<Rightarrow> job_executor \<Rightarrow> job_executor" where
  "jx_register_kernel k s = s\<lparr>jx_kernel_registry := kr_register k (jx_kernel_registry s)\<rparr>"

definition jx_has_kernel :: "job_executor \<Rightarrow> bytes32 \<Rightarrow> bool" where
  "jx_has_kernel s kernel_id = has_kernel (jx_kernel_registry s) kernel_id"

section \<open>Runs of the executor\<close>

text \<open>The public calls.\<close>

inductive executor_step :: "crypto \<Rightarrow> job_executor \<Rightarrow> job_executor \<Rightarrow> bool" for c where
  jx_submit: "executor_step c s (snd (submit c j s))"
| jx_submit_job: "executor_step c s (snd (submit_job c ticket block s))"
| jx_assign: "executor_step c s (snd (assign_job i operator_id block s))"
| jx_complete: "executor_step c s (snd (complete_job i r block s))"

definition executor_wf :: "job_executor \<Rightarrow> bool" where
  "executor_wf s \<longleftrightarrow> hm_wf (jx_jobs s) \<and> length (jx_jobs s) \<le> jx_capacity s
     \<and> (\<forall>i j. map_of (jx_jobs s) i = Some j \<longrightarrow> jt_job_id (j_ticket j) = i)
     \<and> dom (map_of (jx_receipts s)) = dom (map_of (jx_jobs s))
     \<and> (\<forall>i r. map_of (jx_receipts s) i = Some r \<longrightarrow> er_job_id r = i)"

lemma length_hm_insert: "length (hm_insert k v m) \<le> Suc (length m)"
  by (induction m) auto

lemma length_hm_update: "map_of m k \<noteq> None \<Longrightarrow> length (hm_insert k v m) = length m"
  by (induction m) (auto split: if_splits)

lemma executor_wf_submit: "executor_wf s \<Longrightarrow> executor_wf (snd (submit c j s))"
  using length_hm_insert [of "jt_job_id (j_ticket j)" j "jx_jobs s"]
  by (auto simp: submit_def executor_wf_def put_job_def Let_def hm.wf_insert exec_receipt_new_def)

lemma executor_wf_put:
  assumes "executor_wf s" "map_of (jx_jobs s) i = Some j" "j_ticket j' = j_ticket j"
  shows "executor_wf (put_job i j' s)"
  using assms length_hm_update [of "jx_jobs s" i j']
  by (auto simp: executor_wf_def put_job_def hm.wf_insert)

lemma submit_job_state: "snd (submit_job c ticket block s) = snd (submit c (job_from_ticket ticket block) s)"
  by (auto simp: submit_job_def Let_def split: prod.splits sum.splits)

lemma executor_step_wf: "executor_step c s s' \<Longrightarrow> executor_wf s \<Longrightarrow> executor_wf s'"
  by (induction rule: executor_step.induct)
    (auto simp: executor_wf_submit submit_job_state assign_job_def complete_job_def job_assign_def job_complete_def
      intro: executor_wf_put split: option.splits)

lemma capacity_step: "executor_step c s s' \<Longrightarrow> jx_capacity s' = jx_capacity s"
  by (induction rule: executor_step.induct)
    (auto simp: submit_job_state submit_def put_job_def Let_def assign_job_def complete_job_def split: option.splits)

interpretation executor_run: transition_system "executor_step c" "\<lambda>s. executor_wf s \<and> jx_capacity s = n" "\<lambda>s. s = job_executor_new n" for c n
  by unfold_locales (auto simp: capacity_step intro: executor_step_wf, simp_all add: executor_wf_def job_executor_new_def hm.wf_empty)

section \<open>Properties\<close>

text \<open>C17. In every executor reached by the public calls there are never more jobs than the capacity, every job is
  stored under the id of its ticket, and exactly the stored jobs have a receipt, for that job.\<close>

theorem executor_invariant:
  assumes "(executor_step c)\<^sup>*\<^sup>* (job_executor_new capacity) s"
  shows "length (jx_jobs s) \<le> capacity \<and> (\<forall>i j. get_job s i = Some j \<longrightarrow> jt_job_id (j_ticket j) = i) \<and>
    (\<forall>i. jx_get_receipt s i = None \<longleftrightarrow> get_job s i = None) \<and> (\<forall>i r. jx_get_receipt s i = Some r \<longrightarrow> er_job_id r = i)"
proof -
  have w: "executor_wf s" and c: "jx_capacity s = capacity"
    using executor_run.reachable_inv [OF assms refl] by simp_all
  have "jx_get_receipt s i = None \<longleftrightarrow> get_job s i = None" for i
    using w unfolding executor_wf_def jx_get_receipt_def get_job_def by (metis domIff)
  with w c show ?thesis by (auto simp: executor_wf_def jx_get_receipt_def get_job_def)
qed

definition example_ticket :: job_ticket where
  "example_ticket = job_ticket_new example_metering_crypto [1] [2] [3] (budget_new 1000) 50"

theorem executor_invariant_witness:
  "length (jx_jobs (snd (submit_job example_metering_crypto example_ticket 0 (job_executor_new 1)))) \<le> 1"
proof -
  have "executor_step example_metering_crypto (job_executor_new 1) (snd (submit_job example_metering_crypto example_ticket 0 (job_executor_new 1)))"
    by (rule jx_submit_job)
  from executor_invariant [OF r_into_rtranclp [of "executor_step example_metering_crypto", OF this]] show ?thesis by blast
qed

text \<open>C36. Completing a job settles its budget: the fee is within the budget, refund and fee add up to the maximal fee,
  the job reports that refund afterwards, no other job changes, and a second completion is refused.\<close>

theorem complete_job_settles:
  assumes "complete_job i r block s = (Inr refund, s')" "get_job s i = Some j"
  shows "unat refund + unat (xc_total_fee (jr_compute_used r)) = unat (bg_max_total_fee (jt_budget (j_ticket j)))
    \<and> map_option refund_amount (get_job s' i) = Some refund
    \<and> (\<forall>k. k \<noteq> i \<longrightarrow> get_job s' k = get_job s k)
    \<and> complete_job i r2 block2 s' = (Inl JobInvalidStateTransition, s')"
proof -
  let ?max = "bg_max_total_fee (jt_budget (j_ticket j))" and ?fee = "xc_total_fee (jr_compute_used r)"
  have le: "?fee \<le> ?max" and rf: "refund = ?max - ?fee"
    and s': "s' = put_job i (job_complete r (jr_compute_used r) block j) s"
    using assms by (auto simp: complete_job_def get_job_def can_cover_def split: if_splits)
  have "unat refund = unat ?max - unat ?fee" using le rf by (simp add: unat_sub word_le_nat_alt)
  with le rf s' assms show ?thesis
    by (auto simp: get_job_def put_job_def job_complete_def refund_amount_def complete_job_def saturating_sub_le word_le_nat_alt)
qed

lemma example_assigned:
  defines "s \<equiv> snd (assign_job (jt_job_id example_ticket) [9] 1 (snd (submit_job example_metering_crypto example_ticket 0 (job_executor_new 4))))"
  shows "get_job s (jt_job_id example_ticket) = Some (job_assign [9] 1 (job_from_ticket example_ticket 0))"
  unfolding s_def
  by (simp add: get_job_def assign_job_def submit_job_state submit_def put_job_def Let_def job_executor_new_def job_from_ticket_def)

theorem complete_job_settles_witness:
  "let s = snd (assign_job (jt_job_id example_ticket) [9] 1 (snd (submit_job example_metering_crypto example_ticket 0 (job_executor_new 4))));
       r = job_result_new [] (cost_new\<lparr>xc_total_fee := 300\<rparr>)
   in fst (complete_job (jt_job_id example_ticket) r 3 (snd (complete_job (jt_job_id example_ticket) r 2 s))) = Inl JobInvalidStateTransition"
proof -
  let ?s = "snd (assign_job (jt_job_id example_ticket) [9] 1 (snd (submit_job example_metering_crypto example_ticket 0 (job_executor_new 4))))"
  let ?r = "job_result_new [] (cost_new\<lparr>xc_total_fee := 300\<rparr>)" and ?i = "jt_job_id example_ticket"
  let ?j = "job_assign [9] 1 (job_from_ticket example_ticket 0)"
  have "can_cover (jt_budget (j_ticket ?j)) (jr_compute_used ?r)" "j_status ?j = JAssigned"
    by (simp_all add: can_cover_def job_assign_def job_from_ticket_def example_ticket_def job_ticket_new_def budget_new_def
        job_result_new_def cost_new_def word_le_nat_alt)
  then obtain refund s' where c: "complete_job ?i ?r 2 ?s = (Inr refund, s')"
    using example_assigned by (simp add: complete_job_def get_job_def)
  from complete_job_settles [OF c example_assigned, of ?r 3] c show ?thesis by (simp add: Let_def)
qed

text \<open>The public submission does not look for an existing job: while there is capacity, submitting the ticket of a
  stored job again, also of a completed one, replaces it by a pending job without result.\<close>

theorem resubmission_resets_job:
  assumes "get_job s (jt_job_id ticket) = Some j" "length (jx_jobs s) < jx_capacity s"
  shows "\<exists>s'. submit_job c ticket block s = (Inr (jt_job_id ticket), s') \<and>
    get_job s' (jt_job_id ticket) = Some (job_from_ticket ticket block)"
  using assms by (simp add: submit_job_def submit_def put_job_def get_job_def Let_def job_from_ticket_def)

theorem resubmission_resets_job_witness:
  "let s = snd (assign_job (jt_job_id example_ticket) [9] 1 (snd (submit_job example_metering_crypto example_ticket 0 (job_executor_new 4))))
   in \<exists>s'. submit_job example_metering_crypto example_ticket 7 s = (Inr (jt_job_id example_ticket), s') \<and>
        get_job s' (jt_job_id example_ticket) = Some (job_from_ticket example_ticket 7)"
proof -
  let ?s = "snd (assign_job (jt_job_id example_ticket) [9] 1 (snd (submit_job example_metering_crypto example_ticket 0 (job_executor_new 4))))"
  have "length (jx_jobs ?s) < jx_capacity ?s"
    by (simp add: assign_job_def submit_job_state submit_def put_job_def Let_def job_executor_new_def job_from_ticket_def)
  from resubmission_resets_job [OF example_assigned this] show ?thesis by (simp add: Let_def)
qed

text \<open>The retries are not a limit: each assignment refills them, so a job with at least two retries is pending
  again after any number of rounds of assignment and failure; a job with no retries is not failed at all.\<close>

theorem retries_never_exhausted:
  assumes "j_status j = JPending"
  shows "(1 < jt_max_retries (j_ticket j) \<longrightarrow>
      j_status (((\<lambda>j. job_fail (job_assign operator_id block j)) ^^ n) j) = JPending)
    \<and> (jt_max_retries (j_ticket j) = 0 \<longrightarrow> job_fail (job_assign operator_id block j) = job_assign operator_id block j)"
proof -
  let ?f = "\<lambda>j. job_fail (job_assign operator_id block j)"
  have "1 < jt_max_retries (j_ticket j) \<Longrightarrow> j_ticket ((?f ^^ n) j) = j_ticket j \<and> j_status ((?f ^^ n) j) = JPending"
  proof (induction n)
    case 0
    then show ?case using assms by simp
  next
    case (Suc n)
    then show ?case by (auto simp: job_fail_def job_assign_def Let_def word_gt_0)
  qed
  then show ?thesis by (auto simp: job_fail_def job_assign_def)
qed

theorem retries_never_exhausted_witness:
  "j_status (((\<lambda>j. job_fail (job_assign [9] 1 j)) ^^ 1000) (job_from_ticket example_ticket 0)) = JPending"
  using retries_never_exhausted [of "job_from_ticket example_ticket 0" 1000 "[9]" 1]
  by (simp add: job_from_ticket_def example_ticket_def job_ticket_new_def)

lemma kernel_spec_bounds [simp]:
  "ks_compute_bound (get_kernel_spec c) = 1000000000" "ks_memory_bound (get_kernel_spec c) = 8589934592"
  by (simp_all add: get_kernel_spec_def kernel_spec_new_def)

lemma execute_assigned:
  fixes c nanos millis i input operator_id block s
  defines "r \<equiv> execute_job c nanos millis i input operator_id block s"
  assumes "get_job s i = Some j" "j_status j = JAssigned"
  shows "if 1000000000 \<le> bg_max_gpu_cycles (jt_budget (j_ticket j)) \<and>
            (bg_max_memory_bytes (jt_budget (j_ticket j)) = 0 \<or> 8589934592 \<le> bg_max_memory_bytes (jt_budget (j_ticket j)))
         then \<exists>out. r = (Inr out, put_job i (start_execution j) s) \<and> ko_output out = input \<and> ko_job_id out = i
         else \<exists>e. r = (Inl (KernelError e), s)"
  using assms(2,3)
  by (auto simp: r_def execute_job_def get_job_def kernel_execute_def sandbox_execute_def executor_with_context_def
      context_with_budget_def context_with_memory_limit_def context_new_def Let_def not_less not_le word_gt_0)

text \<open>C35. The life of a job. A ticket submitted while there is capacity, and then assigned, is executed exactly when its
  budget reaches the bounds of the default kernel, whatever kernel the ticket names, whatever kernels are registered and
  whichever operator executes it; otherwise the executor is unchanged. Once executed it is completed exactly when the
  budget covers the cost: it then keeps its operator and its result, the client gets back what the fee leaves, and no
  other job has changed on the way.\<close>

theorem job_lifecycle:
  assumes "length (jx_jobs s) < jx_capacity s"
  shows "let i = jt_job_id t; b = jt_budget t; fee = xc_total_fee (jr_compute_used r)
    in \<exists>s1 s2. submit_job c t block s = (Inr i, s1) \<and> assign_job i operator_id block1 s1 = (Inr (), s2) \<and>
      (if 1000000000 \<le> bg_max_gpu_cycles b \<and> (bg_max_memory_bytes b = 0 \<or> 8589934592 \<le> bg_max_memory_bytes b)
       then \<exists>out s3. execute_job c nanos millis i input other_id block2 s2 = (Inr out, s3) \<and> ko_output out = input \<and>
         (if can_cover b (jr_compute_used r)
          then \<exists>s4 j. complete_job i r block3 s3 = (Inr (bg_max_total_fee b - fee), s4) \<and> get_job s4 i = Some j \<and>
            j_status j = JCompleted \<and> j_assigned_operator j = Some operator_id \<and> j_result j = Some r \<and>
            refund_amount j = bg_max_total_fee b - fee \<and> (\<forall>k. k \<noteq> i \<longrightarrow> get_job s4 k = get_job s k)
          else complete_job i r block3 s3 = (Inl BudgetExceeded, s3))
       else \<exists>e. execute_job c nanos millis i input other_id block2 s2 = (Inl (KernelError e), s2))"
proof -
  define i where "i = jt_job_id t"
  define j where "j = job_assign operator_id block1 (job_from_ticket t block)"
  obtain s1 where s1: "submit_job c t block s = (Inr i, s1)" and j1: "get_job s1 i = Some (job_from_ticket t block)"
      and o1: "\<forall>k. k \<noteq> i \<longrightarrow> get_job s1 k = get_job s k"
    using assms by (simp add: submit_job_def submit_def put_job_def get_job_def Let_def job_from_ticket_def i_def)
  define s2 where "s2 = put_job i j s1"
  have s2: "assign_job i operator_id block1 s1 = (Inr (), s2)"
    using j1 by (simp add: assign_job_def get_job_def s2_def j_def job_from_ticket_def)
  have j2: "get_job s2 i = Some j" "j_status j = JAssigned" "j_ticket j = t"
    by (simp_all add: s2_def get_job_def put_job_def j_def job_assign_def job_from_ticket_def)
  have final: "get_job (put_job i (job_complete r cost block3 (start_execution j)) (put_job i (start_execution j) s2)) k =
      (if k = i then Some (job_complete r cost block3 (start_execution j)) else get_job s1 k)" for k cost
    by (simp add: get_job_def put_job_def s2_def)
  have refund: "refund_amount (job_complete r cost block3 (start_execution j)) = bg_max_total_fee (jt_budget t) - xc_total_fee cost"
    if "can_cover (jt_budget t) cost" for cost
    using that by (simp add: refund_amount_def job_complete_def start_execution_def j2(3) can_cover_def saturating_sub_le)
  have completed: "j_status (job_complete r cost block3 (start_execution j)) = JCompleted \<and>
      j_assigned_operator (job_complete r cost block3 (start_execution j)) = Some operator_id \<and>
      j_result (job_complete r cost block3 (start_execution j)) = Some r" for cost
    by (simp add: j_def job_assign_def job_complete_def start_execution_def)
  have complete: "if can_cover (jt_budget t) (jr_compute_used r)
      then complete_job i r block3 (put_job i (start_execution j) s2) =
        (Inr (bg_max_total_fee (jt_budget t) - xc_total_fee (jr_compute_used r)),
         put_job i (job_complete r (jr_compute_used r) block3 (start_execution j)) (put_job i (start_execution j) s2))
      else complete_job i r block3 (put_job i (start_execution j) s2) = (Inl BudgetExceeded, put_job i (start_execution j) s2)"
    using j2(3) by (simp add: complete_job_def put_job_def start_execution_def)
  show ?thesis
    using s1 s2 execute_assigned [OF j2(1,2), of c nanos millis input other_id block2] complete o1 final completed refund
    unfolding Let_def i_def [symmetric] j2(3) by (auto split: if_splits)
qed

theorem job_lifecycle_witness:
  "\<exists>s1 s2 out s3 s4 j. submit_job example_metering_crypto example_ticket 0 (job_executor_new 1) = (Inr (jt_job_id example_ticket), s1) \<and>
     assign_job (jt_job_id example_ticket) [9] 1 s1 = (Inr (), s2) \<and>
     execute_job example_metering_crypto 5 6 (jt_job_id example_ticket) [1, 2] [9] 2 s2 = (Inr out, s3) \<and> ko_output out = [1, 2] \<and>
     complete_job (jt_job_id example_ticket) (job_result_new [] (cost_new\<lparr>xc_total_fee := 300\<rparr>)) 3 s3 = (Inr 700, s4) \<and>
     get_job s4 (jt_job_id example_ticket) = Some j \<and> j_status j = JCompleted"
proof -
  let ?r = "job_result_new [] (cost_new\<lparr>xc_total_fee := 300\<rparr>)"
  have room: "length (jx_jobs (job_executor_new 1)) < jx_capacity (job_executor_new 1)" by (simp add: job_executor_new_def)
  have b: "jt_budget example_ticket = budget_new 1000" by (simp add: example_ticket_def job_ticket_new_def)
  have can: "can_cover (budget_new 1000) (jr_compute_used ?r)" "xc_total_fee (jr_compute_used ?r) = 300"
    by (simp_all add: can_cover_def budget_new_def job_result_new_def cost_new_def)
  have f: "bg_max_gpu_cycles (budget_new 1000) = 1000000000" "bg_max_memory_bytes (budget_new 1000) = 8589934592"
      "bg_max_total_fee (budget_new 1000) = 1000"
    by (simp_all add: budget_new_def)
  from job_lifecycle [OF room, of example_ticket ?r example_metering_crypto 0 "[9]" 1 5 6 "[1, 2]" "[9]" 2 3]
  show ?thesis unfolding Let_def b f can(2) using can(1) by (simp only: if_True) auto
qed

end
