(* ===== verification/Scenes.thy ===== *)
theory Scenes
  imports Prelude
begin

text \<open>
  The scene representation of the container format, \<open>crates/rpack/src/scene.rs\<close>: the data of a scene, adding
  nodes and edges, the check of references, and the acyclicity test, which is Kahn's algorithm over a hash map
  of in-degrees. Floating-point values are only carried, so they are their bit patterns. The test is shown
  to return, and to return exactly whether the graph is acyclic.
\<close>

section \<open>Data\<close>

type_synonym f64_bits = u64
type_synonym f32_bits = u32

datatype node_semantic =
    Object | Actor | Environment | UIElement | CameraAnchor | LightAnchor | ProceduralGenerator | PhysicsBody

record transform =
  tr_translation :: "f64_bits list"
  tr_rotation :: "f64_bits list"
  tr_scale :: "f64_bits list"
  tr_local_space :: bool

text \<open>The bit pattern of \<open>1.0\<close>.\<close>

definition f64_one :: f64_bits where
  "f64_one = 0x3FF0000000000000"

definition transform_default :: transform where
  "transform_default =
     \<lparr>tr_translation = [0, 0, 0], tr_rotation = [0, 0, 0, f64_one], tr_scale = [f64_one, f64_one, f64_one],
      tr_local_space = True\<rparr>"

record scene_node =
  sn_node_id :: u64
  sn_name :: string
  sn_semantic_type :: node_semantic
  sn_transform :: transform
  sn_geometry_ref :: "bytes32 option"
  sn_material_ref :: "bytes32 option"
  sn_parent_id :: "u64 option"
  sn_visibility :: bool
  sn_tags :: "string list"

datatype relationship_type = Parent | Child | Dependency | Reference

record scene_edge =
  se_source :: u64
  se_target :: u64
  se_relationship_type :: relationship_type

datatype projection_type = Perspective | Orthographic | CustomProjection

datatype aspect_policy = PreserveVertical | PreserveHorizontal | AdaptiveAspect

record camera =
  ca_camera_id :: u64
  ca_name :: string
  ca_projection :: projection_type
  ca_fov_y :: f64_bits
  ca_near_plane :: f64_bits
  ca_far_plane :: f64_bits
  ca_transform_node :: u64
  ca_aspect_policy :: aspect_policy

datatype light_type = Directional | Point | Spot | Area | EnvironmentLight

record light =
  li_light_id :: u64
  li_name :: string
  li_light_type :: light_type
  li_color :: "f32_bits list"
  li_intensity :: f32_bits
  li_transform_node :: u64
  li_range :: "f32_bits option"
  li_shadow :: bool

datatype shading_model = PBR_MetallicRoughness | Unlit | Subsurface | CustomDeterministic

record material_params =
  mp_base_color :: "f32_bits list option"
  mp_metallic :: "f32_bits option"
  mp_roughness :: "f32_bits option"
  mp_emissive :: "f32_bits list option"
  mp_opacity :: "f32_bits option"

text \<open>The bit patterns of \<open>1.0\<close> and \<open>0.5\<close> in single precision.\<close>

definition material_params_default :: material_params where
  "material_params_default =
     (let one = 0x3F800000; half = 0x3F000000
      in \<lparr>mp_base_color = Some [one, one, one, one], mp_metallic = Some 0, mp_roughness = Some half,
          mp_emissive = None, mp_opacity = Some one\<rparr>)"

record material =
  ma_material_id :: u64
  ma_name :: string
  ma_shading_model :: shading_model
  ma_parameters :: material_params
  ma_texture_refs :: "bytes32 list"

datatype constraint_type =
    ParentConstraint | LookAt | IKChain | DistanceConstraint | PhysicsLock | OrientationLock | ProceduralBinding

record constraint_params =
  cp_strength :: "f64_bits option"
  cp_offset :: "f64_bits list option"
  cp_axis :: "f64_bits list option"

record scene_constraint =
  sc_constraint_id :: u64
  sc_constraint_type :: constraint_type
  sc_target_a :: u64
  sc_target_b :: "u64 option"
  sc_parameters :: constraint_params

datatype animation_channel = TranslationChannel | RotationChannel | ScaleChannel | MaterialParameter | Visibility

datatype keyframe_value =
    Translation "f64_bits list" | Rotation "f64_bits list" | Scale "f64_bits list" | Float f64_bits | Bool bool

record keyframe =
  kf_time_ms :: u64
  kf_value :: keyframe_value

record animation =
  an_animation_id :: u64
  an_name :: string
  an_target_node :: u64
  an_channel :: animation_channel
  an_keyframes :: "keyframe list"

record scene_metadata =
  sm_job_id :: bytes32
  sm_kernel_id :: bytes32
  sm_renderer_profile_required :: "u16 option"
  sm_deterministic_mode :: bool
  sm_creation_block_height :: u64

definition scene_metadata_default :: scene_metadata where
  "scene_metadata_default =
     \<lparr>sm_job_id = zero32, sm_kernel_id = zero32, sm_renderer_profile_required = None, sm_deterministic_mode = False,
      sm_creation_block_height = 0\<rparr>"

datatype validation_error =
    InvalidEdgeSource u64 | InvalidEdgeTarget u64 | InvalidConstraintTarget u64 | InvalidAnimationTarget u64 | CyclicGraph

record scene =
  sc_version :: u32
  sc_scene_id :: bytes32
  sc_nodes :: "scene_node list"
  sc_edges :: "scene_edge list"
  sc_cameras :: "camera list"
  sc_lights :: "light list"
  sc_materials :: "material list"
  sc_constraints :: "scene_constraint list"
  sc_animations :: "animation list"
  sc_metadata :: scene_metadata

section \<open>Operations\<close>

definition scene_new :: "bytes32 \<Rightarrow> scene" where
  "scene_new scene_id =
     \<lparr>sc_version = 1, sc_scene_id = scene_id, sc_nodes = [], sc_edges = [], sc_cameras = [], sc_lights = [],
      sc_materials = [], sc_constraints = [], sc_animations = [], sc_metadata = scene_metadata_default\<rparr>"

definition scene_add_node :: "scene_node \<Rightarrow> scene \<Rightarrow> u64 \<times> scene" where
  "scene_add_node n s =
     (let i = of_nat (length (sc_nodes s)) in (i, s\<lparr>sc_nodes := sc_nodes s @ [n\<lparr>sn_node_id := i\<rparr>]\<rparr>))"

definition scene_add_edge :: "scene_edge \<Rightarrow> scene \<Rightarrow> scene" where
  "scene_add_edge e s = s\<lparr>sc_edges := sc_edges s @ [e]\<rparr>"

subsection \<open>The acyclicity test\<close>

text \<open>The in-degrees: every node with zero, then one for each edge into a known node.\<close>

definition degree_entry :: "u64 \<Rightarrow> (u64 \<times> nat) list \<Rightarrow> (u64 \<times> nat) list" where
  "degree_entry i m = (case map_of m i of None \<Rightarrow> hm_insert i 0 m | Some _ \<Rightarrow> m)"

definition degree_count :: "scene_edge \<Rightarrow> (u64 \<times> nat) list \<Rightarrow> (u64 \<times> nat) list" where
  "degree_count e m = (case map_of m (se_target e) of None \<Rightarrow> m | Some d \<Rightarrow> hm_insert (se_target e) (d + 1) m)"

definition in_degrees :: "scene \<Rightarrow> (u64 \<times> nat) list" where
  "in_degrees s = fold degree_count (sc_edges s) (fold degree_entry (map sn_node_id (sc_nodes s)) [])"

text \<open>\<open>*degree -= 1\<close> on a \<open>usize\<close>, with the wrap written out.\<close>

definition usize_dec :: "nat \<Rightarrow> nat" where
  "usize_dec d = (if d = 0 then 2 ^ 64 - 1 else d - 1)"

text \<open>The inner loop over all edges for a node taken from the queue.\<close>

fun relax :: "u64 \<Rightarrow> scene_edge list \<Rightarrow> (u64 \<times> nat) list \<times> u64 list \<Rightarrow> (u64 \<times> nat) list \<times> u64 list" where
  "relax n [] (m, q) = (m, q)"
| "relax n (e # es) (m, q) =
     (if se_source e = n
      then case map_of m (se_target e) of
             None \<Rightarrow> relax n es (m, q)
           | Some d \<Rightarrow>
               (let d' = usize_dec d
                in relax n es (hm_insert (se_target e) d' m, if d' = 0 then q @ [se_target e] else q))
      else relax n es (m, q))"

partial_function (option) kahn_loop :: "scene_edge list \<Rightarrow> (u64 \<times> nat) list \<Rightarrow> u64 list \<Rightarrow> nat \<Rightarrow> nat option" where
  "kahn_loop es m q visited =
     (case q of
        [] \<Rightarrow> Some visited
      | n # q' \<Rightarrow> (case relax n es (m, q') of (m', q'') \<Rightarrow> kahn_loop es m' q'' (visited + 1)))"

definition is_acyclic :: "scene \<Rightarrow> bool option" where
  "is_acyclic s =
     (let m = in_degrees s
      in map_option (\<lambda>visited. visited = length (sc_nodes s))
           (kahn_loop (sc_edges s) m (map fst [(i, d) \<leftarrow> m. d = 0]) 0))"

subsection \<open>References\<close>

definition edge_errors :: "u64 set \<Rightarrow> scene_edge \<Rightarrow> validation_error list" where
  "edge_errors ids e =
     (if se_source e \<notin> ids then [InvalidEdgeSource (se_source e)] else []) @
     (if se_target e \<notin> ids then [InvalidEdgeTarget (se_target e)] else [])"

definition constraint_errors :: "u64 set \<Rightarrow> scene_constraint \<Rightarrow> validation_error list" where
  "constraint_errors ids c =
     (if sc_target_a c \<notin> ids then [InvalidConstraintTarget (sc_target_a c)] else []) @
     (case sc_target_b c of None \<Rightarrow> [] | Some b \<Rightarrow> if b \<notin> ids then [InvalidConstraintTarget b] else [])"

definition animation_errors :: "u64 set \<Rightarrow> animation \<Rightarrow> validation_error list" where
  "animation_errors ids a = (if an_target_node a \<notin> ids then [InvalidAnimationTarget (an_target_node a)] else [])"

definition validate_references :: "scene \<Rightarrow> validation_error list" where
  "validate_references s =
     (let ids = set (map sn_node_id (sc_nodes s))
      in concat (map (edge_errors ids) (sc_edges s)) @ concat (map (constraint_errors ids) (sc_constraints s))
         @ concat (map (animation_errors ids) (sc_animations s)))"

section \<open>The in-degrees\<close>

abbreviation node_ids :: "scene \<Rightarrow> u64 set" where
  "node_ids s \<equiv> set (map sn_node_id (sc_nodes s))"

text \<open>Edges into a node from sources outside a set, and edges between two nodes.\<close>

definition edges_into :: "scene_edge list \<Rightarrow> u64 set \<Rightarrow> u64 \<Rightarrow> nat" where
  "edges_into es P v = length [e \<leftarrow> es. se_target e = v \<and> se_source e \<notin> P]"

definition edges_between :: "scene_edge list \<Rightarrow> u64 \<Rightarrow> u64 \<Rightarrow> nat" where
  "edges_between es n v = length [e \<leftarrow> es. se_source e = n \<and> se_target e = v]"

lemma edges_into_simps [simp]:
  "edges_into [] P v = 0"
  "edges_into (e # es) P v = (if se_target e = v \<and> se_source e \<notin> P then 1 else 0) + edges_into es P v"
  by (simp_all add: edges_into_def)

lemma edges_between_simps [simp]:
  "edges_between [] n v = 0"
  "edges_between (e # es) n v = (if se_source e = n \<and> se_target e = v then 1 else 0) + edges_between es n v"
  by (simp_all add: edges_between_def)

lemma edges_into_insert: "n \<notin> P \<Longrightarrow> edges_into es P v = edges_into es (insert n P) v + edges_between es n v"
  by (induction es) auto

lemma edges_into_pos: "0 < edges_into es P v \<longleftrightarrow> (\<exists>e \<in> set es. se_target e = v \<and> se_source e \<notin> P)"
  by (induction es) auto

lemma degree_entries:
  "hm_wf m \<Longrightarrow> hm_wf (fold degree_entry is m) \<and>
     map_of (fold degree_entry is m) v = (if map_of m v = None \<and> v \<in> set is then Some 0 else map_of m v)"
proof (induction "is" arbitrary: m)
  case (Cons i "is")
  have "hm_wf (degree_entry i m)" using Cons.prems by (simp add: degree_entry_def hm.wf_insert split: option.splits)
  from Cons.IH [OF this] show ?case by (auto simp: degree_entry_def split: option.splits)
qed simp

lemma degree_counts:
  "hm_wf m \<Longrightarrow> hm_wf (fold degree_count es m) \<and>
     map_of (fold degree_count es m) v = map_option (\<lambda>d. d + edges_into es {} v) (map_of m v)"
proof (induction es arbitrary: m)
  case (Cons e es)
  have "hm_wf (degree_count e m)" using Cons.prems by (simp add: degree_count_def hm.wf_insert split: option.splits)
  from Cons.IH [OF this] show ?case by (auto simp: degree_count_def split: option.splits)
qed (simp add: option.map_ident)

lemma in_degrees_wf: "hm_wf (in_degrees s)"
  by (simp add: in_degrees_def degree_counts degree_entries hm.wf_empty)

lemma in_degrees_get: "map_of (in_degrees s) v = (if v \<in> node_ids s then Some (edges_into (sc_edges s) {} v) else None)"
  by (simp add: in_degrees_def degree_counts degree_entries hm.wf_empty)

section \<open>One round of the loop\<close>

text \<open>What relaxing the edges of a node does, when no degree is below the number of edges it loses: each target loses
  one for each edge, and the targets that reach zero are appended to the queue, once each.\<close>

lemma relax_effect:
  assumes "\<And>v d. map_of m v = Some d \<Longrightarrow> edges_between es n v \<le> d" and "relax n es (m, q) = (m', q')"
  shows "(\<forall>v. map_of m' v = map_option (\<lambda>d. d - edges_between es n v) (map_of m v)) \<and>
    (\<exists>new. q' = q @ new \<and> distinct new \<and>
      set new = {v. \<exists>d. map_of m v = Some d \<and> 0 < d \<and> edges_between es n v = d})"
  using assms
proof (induction es arbitrary: m q)
  case Nil
  then show ?case by (auto simp: option.map_ident)
next
  case (Cons e es)
  let ?t = "se_target e"
  consider (skip) "se_source e \<noteq> n \<or> map_of m ?t = None" | (hit) d where "se_source e = n" "map_of m ?t = Some d" by blast
  then show ?case
  proof cases
    case skip
    have r: "relax n es (m, q) = (m', q')" using Cons.prems(2) skip by (auto split: if_splits)
    have b: "edges_between (e # es) n v = edges_between es n v \<or> map_of m v = None" for v using skip by auto
    have le: "edges_between es n v \<le> d" if "map_of m v = Some d" for v d using Cons.prems(1) [OF that] by simp
    have "map_of m v = Some d \<Longrightarrow> edges_between (e # es) n v = edges_between es n v" for v d using b [of v] by simp
    moreover have "map_option (\<lambda>d. d - edges_between (e # es) n v) (map_of m v) = map_option (\<lambda>d. d - edges_between es n v) (map_of m v)" for v
      using b [of v] by auto
    ultimately show ?thesis using Cons.IH [OF le r] by (simp only:) (metis (mono_tags, lifting) Collect_cong)
  next
    case hit
    define m1 where "m1 = hm_insert ?t (d - 1) m"
    have pos: "1 + edges_between es n ?t \<le> d" using Cons.prems(1) [OF hit(2)] hit(1) by simp
    have d': "usize_dec d = d - 1" using pos by (simp add: usize_dec_def)
    have r: "relax n es (m1, if d = 1 then q @ [?t] else q) = (m', q')"
      using Cons.prems(2) hit pos d' by (simp add: m1_def split: if_splits)
    have le: "edges_between es n v \<le> c" if "map_of m1 v = Some c" for v c
      using that Cons.prems(1) [of v c] pos by (auto simp: m1_def split: if_splits)
    from Cons.IH [OF le r] obtain new where new:
      "\<forall>v. map_of m' v = map_option (\<lambda>d. d - edges_between es n v) (map_of m1 v)"
      "q' = (if d = 1 then q @ [?t] else q) @ new" "distinct new"
      "set new = {v. \<exists>c. map_of m1 v = Some c \<and> 0 < c \<and> edges_between es n v = c}" by blast
    have new_set: "set ((if d = 1 then [?t] else []) @ new) = {v. \<exists>c. map_of m v = Some c \<and> 0 < c \<and> edges_between (e # es) n v = c}"
      unfolding set_append new(4) using hit pos by (auto simp: m1_def split: if_splits)
    have "?t \<notin> set new" if "d = 1" using new(4) that by (auto simp: m1_def)
    then have "distinct ((if d = 1 then [?t] else []) @ new)" using new(3) by simp
    moreover have "q' = q @ ((if d = 1 then [?t] else []) @ new)" using new(2) by simp
    moreover have "map_of m' v = map_option (\<lambda>d. d - edges_between (e # es) n v) (map_of m v)" for v
      using new(1) hit by (simp add: m1_def)
    ultimately show ?thesis using new_set by blast
  qed
qed

section \<open>The loop\<close>

text \<open>
  The invariant, with the nodes taken from the queue so far as a ghost list \<open>P\<close>: processed and queued nodes are
  distinct and are exactly the nodes of degree zero, the degree of every node is the number of its incoming
  edges from sources that are not processed, and the sources of the edges into a processed node were processed
  before it.
\<close>

definition kahn_inv :: "scene_edge list \<Rightarrow> u64 set \<Rightarrow> u64 list \<Rightarrow> (u64 \<times> nat) list \<Rightarrow> u64 list \<Rightarrow> bool" where
  "kahn_inv es V P m q \<longleftrightarrow> distinct (P @ q) \<and>
     (\<forall>v. map_of m v = (if v \<in> V then Some (edges_into es (set P) v) else None)) \<and>
     set (P @ q) = {v \<in> V. edges_into es (set P) v = 0} \<and>
     (\<forall>i < length P. edges_into es (set (take i P)) (P ! i) = 0)"

lemma kahn_inv_step:
  assumes inv: "kahn_inv es V P m (n # q)" and r: "relax n es (m, q) = (m', q')"
  shows "kahn_inv es V (P @ [n]) m' q'"
proof -
  have n: "n \<notin> set P" and get: "\<And>v. map_of m v = (if v \<in> V then Some (edges_into es (set P) v) else None)"
    and zero: "set P \<union> set (n # q) = {v \<in> V. edges_into es (set P) v = 0}" and dist: "distinct (P @ n # q)"
    using inv by (auto simp: kahn_inv_def)
  have split: "edges_into es (set P) v = edges_into es (insert n (set P)) v + edges_between es n v" for v
    by (rule edges_into_insert [OF n])
  have le: "edges_between es n v \<le> d" if "map_of m v = Some d" for v d
    using that split [of v] get [of v] by (auto split: if_splits)
  from relax_effect [OF le r] obtain new where
    m': "\<And>v. map_of m' v = map_option (\<lambda>d. d - edges_between es n v) (map_of m v)" and
    new: "q' = q @ new" "distinct new" "set new = {v. \<exists>d. map_of m v = Some d \<and> 0 < d \<and> edges_between es n v = d}"
    by blast
  have get': "map_of m' v = (if v \<in> V then Some (edges_into es (insert n (set P)) v) else None)" for v
    using m' [of v] get [of v] split [of v] by auto
  have set_new: "set new = {v \<in> V. 0 < edges_into es (set P) v \<and> edges_into es (insert n (set P)) v = 0}"
    using new(3) get split by auto
  have "distinct ((P @ [n]) @ q')" using dist new(1,2) set_new zero by auto
  moreover have "set ((P @ [n]) @ q') = {v \<in> V. edges_into es (insert n (set P)) v = 0}"
    using zero set_new new(1) split by fastforce
  moreover have "edges_into es (set (take i (P @ [n]))) ((P @ [n]) ! i) = 0" if "i < length (P @ [n])" for i
    using that inv zero by (cases "i = length P") (auto simp: kahn_inv_def nth_append)
  ultimately show ?thesis using get' by (simp add: kahn_inv_def)
qed

text \<open>The loop returns, with the nodes processed when the queue is empty.\<close>

lemma kahn_loop_returns:
  assumes "finite V" "kahn_inv es V P m q"
  shows "\<exists>P' m'. kahn_loop es m q (length P) = Some (length P') \<and> kahn_inv es V P' m' []"
  using assms(2)
proof (induction "card V - length P" arbitrary: P m q rule: less_induct)
  case less
  show ?case
  proof (cases q)
    case Nil
    with less.prems show ?thesis by (auto simp: kahn_loop.simps)
  next
    case (Cons n q1)
    obtain m1 q2 where r: "relax n es (m, q1) = (m1, q2)" by fastforce
    have "set (P @ q) \<subseteq> V" "distinct (P @ q)" using less.prems by (auto simp: kahn_inv_def)
    then have "length (P @ q) \<le> card V" using assms(1) by (metis card_mono distinct_card)
    then have "card V - length (P @ [n]) < card V - length P" using Cons by simp
    from less.hyps [OF this kahn_inv_step] less.prems Cons r
    obtain P' m' where "kahn_loop es m1 q2 (length (P @ [n])) = Some (length P')" "kahn_inv es V P' m' []" by blast
    then show ?thesis using Cons r kahn_loop.simps [of es m q "length P"] by auto
  qed
qed

text \<open>When the queue is empty, every node is processed exactly when no node has an edge from outside the nodes and the
  edges between nodes have no cycle.\<close>

definition edge_relation :: "scene_edge list \<Rightarrow> u64 set \<Rightarrow> (u64 \<times> u64) set" where
  "edge_relation es V = {(se_source e, se_target e) | e. e \<in> set es \<and> se_source e \<in> V \<and> se_target e \<in> V}"

lemma finite_edge_relation: "finite (edge_relation es V)"
proof -
  have "edge_relation es V \<subseteq> (\<lambda>e. (se_source e, se_target e)) ` set es" by (auto simp: edge_relation_def)
  then show ?thesis by (rule finite_subset) simp
qed

lemma processed_all:
  assumes inv: "kahn_inv es V P m []" and dangling: "\<forall>e \<in> set es. se_target e \<in> V \<longrightarrow> se_source e \<in> V"
    and ac: "acyclic (edge_relation es V)"
  shows "set P = V"
proof (rule ccontr)
  assume "set P \<noteq> V"
  moreover have sub: "set P = {v \<in> V. edges_into es (set P) v = 0}" using inv by (simp add: kahn_inv_def)
  ultimately obtain x where "x \<in> V - set P" by blast
  with wf_eq_minimal [THEN iffD1, OF finite_acyclic_wf [OF finite_edge_relation ac], rule_format]
  obtain v where v: "v \<in> V - set P" "\<And>u. (u, v) \<in> edge_relation es V \<Longrightarrow> u \<notin> V - set P" by blast
  then have "0 < edges_into es (set P) v" using sub by auto
  then obtain e where "e \<in> set es" "se_target e = v" "se_source e \<notin> set P" by (auto simp: edges_into_pos)
  with v dangling show False by (auto simp: edge_relation_def)
qed

lemma before_index: "u \<in> set (take i P) \<Longrightarrow> length (takeWhile (\<lambda>x. x \<noteq> u) P) < i"
proof (induction P arbitrary: i)
  case (Cons x P)
  then show ?case by (cases i) auto
qed simp

lemma processed_sources:
  assumes "kahn_inv es V P m []" "set P = V" "e \<in> set es" "se_target e \<in> V"
  shows "se_source e \<in> set (take (length (takeWhile (\<lambda>x. x \<noteq> se_target e) P)) P)"
proof -
  let ?i = "length (takeWhile (\<lambda>x. x \<noteq> se_target e) P)"
  have i: "?i < length P" using assms(2,4) by (intro before_index) simp
  then have "P ! ?i = se_target e" using nth_length_takeWhile [of "\<lambda>x. x \<noteq> se_target e" P] by simp
  then have "edges_into es (set (take ?i P)) (se_target e) = 0" using assms(1) i by (auto simp: kahn_inv_def)
  then show ?thesis using assms(3) edges_into_pos [of es "set (take ?i P)" "se_target e"] by auto
qed

lemma processed_all_iff:
  assumes "kahn_inv es V P m []"
  shows "set P = V \<longleftrightarrow> (\<forall>e \<in> set es. se_target e \<in> V \<longrightarrow> se_source e \<in> V) \<and> acyclic (edge_relation es V)"
proof
  assume all: "set P = V"
  have before: "se_source e \<in> set (take (length (takeWhile (\<lambda>x. x \<noteq> se_target e) P)) P)" if "e \<in> set es" "se_target e \<in> V" for e
    by (rule processed_sources [OF assms all that])
  have "edge_relation es V \<subseteq> measure (\<lambda>v. length (takeWhile (\<lambda>x. x \<noteq> v) P))"
    using before_index [OF before] by (auto simp: edge_relation_def)
  then have "acyclic (edge_relation es V)" by (meson wf_measure wf_subset wf_acyclic)
  moreover have "\<forall>e \<in> set es. se_target e \<in> V \<longrightarrow> se_source e \<in> V" using before all by (meson in_set_takeD)
  ultimately show "(\<forall>e \<in> set es. se_target e \<in> V \<longrightarrow> se_source e \<in> V) \<and> acyclic (edge_relation es V)" by blast
next
  assume "(\<forall>e \<in> set es. se_target e \<in> V \<longrightarrow> se_source e \<in> V) \<and> acyclic (edge_relation es V)"
  then show "set P = V" using processed_all [OF assms] by blast
qed

lemma kahn_inv_init: "kahn_inv (sc_edges s) (node_ids s) [] (in_degrees s) (map fst [(i, d) \<leftarrow> in_degrees s. d = 0])"
proof -
  have "distinct (map fst [(i, d) \<leftarrow> in_degrees s. d = 0])"
    using in_degrees_wf [of s] by (simp add: hm_wf_def distinct_map_filter)
  moreover have zero: "v \<in> set (map fst [(i, d) \<leftarrow> in_degrees s. d = 0]) \<longleftrightarrow> map_of (in_degrees s) v = Some 0" for v
    using hm.entry_iff [OF in_degrees_wf, of v 0 s] by force
  have "set (map fst [(i, d) \<leftarrow> in_degrees s. d = 0]) = {v \<in> node_ids s. edges_into (sc_edges s) {} v = 0}"
    by (rule set_eqI) (simp only: zero in_degrees_get, simp)
  ultimately show ?thesis by (simp add: kahn_inv_def in_degrees_get)
qed

text \<open>The nodes of a scene that is only changed through its operations are numbered in order.\<close>

inductive scene_step :: "scene \<Rightarrow> scene \<Rightarrow> bool" where
  step_node: "length (sc_nodes s) < 2 ^ 64 \<Longrightarrow> scene_step s (snd (scene_add_node n s))"
| step_edge: "scene_step s (scene_add_edge e s)"

definition numbered :: "scene \<Rightarrow> bool" where
  "numbered s \<longleftrightarrow> map sn_node_id (sc_nodes s) = map of_nat [0..<length (sc_nodes s)] \<and> length (sc_nodes s) \<le> 2 ^ 64"

interpretation scene_run: transition_system scene_step numbered "\<lambda>s. \<exists>i. s = scene_new i"
proof (unfold_locales, goal_cases)
  case (1 s s')
  then show ?case by (induction rule: scene_step.induct) (auto simp: numbered_def scene_add_node_def scene_add_edge_def Let_def)
next
  case (2 s)
  then show ?case by (auto simp: numbered_def scene_new_def)
qed

lemma numbered_distinct: "numbered s \<Longrightarrow> distinct (map sn_node_id (sc_nodes s))"
proof -
  assume n: "numbered s"
  have "inj_on (of_nat :: nat \<Rightarrow> u64) {0..<length (sc_nodes s)}"
    using n by (intro inj_on_inverseI [of _ unat]) (auto simp: numbered_def unat_of_nat_small)
  with n show ?thesis by (simp only: numbered_def distinct_map) simp
qed

section \<open>Properties\<close>

text \<open>C18. The acyclicity test returns on every scene, and it returns whether the node ids are distinct, no edge leads
  into a node from an id that is not a node, and the edges between nodes have no cycle.\<close>

theorem is_acyclic_exact:
  "is_acyclic s = Some (distinct (map sn_node_id (sc_nodes s)) \<and>
     (\<forall>e \<in> set (sc_edges s). se_target e \<in> node_ids s \<longrightarrow> se_source e \<in> node_ids s) \<and>
     acyclic (edge_relation (sc_edges s) (node_ids s)))"
proof -
  let ?ids = "map sn_node_id (sc_nodes s)"
  from kahn_loop_returns [OF _ kahn_inv_init] obtain P m where
    loop: "kahn_loop (sc_edges s) (in_degrees s) (map fst [(i, d) \<leftarrow> in_degrees s. d = 0]) 0 = Some (length P)" and
    inv: "kahn_inv (sc_edges s) (node_ids s) P m []" by fastforce
  have P: "distinct P" "set P \<subseteq> node_ids s" using inv by (auto simp: kahn_inv_def)
  have "length P = length ?ids \<longleftrightarrow> distinct ?ids \<and> set P = node_ids s"
  proof
    assume l: "length P = length ?ids"
    moreover have "length P = card (set P)" using distinct_card [OF P(1)] by simp
    moreover have "card (set P) \<le> card (set ?ids)" using P(2) by (intro card_mono) auto
    moreover have "card (set ?ids) \<le> length ?ids" by (rule card_length)
    ultimately have "card (set ?ids) = length ?ids" "card (set P) = card (set ?ids)" by linarith+
    then show "distinct ?ids \<and> set P = node_ids s"
      using card_distinct [of ?ids] card_subset_eq [OF _ P(2)] by auto
  next
    assume "distinct ?ids \<and> set P = node_ids s"
    then show "length P = length ?ids" by (metis P(1) distinct_card)
  qed
  then show ?thesis using loop processed_all_iff [OF inv] by (simp add: is_acyclic_def Let_def)
qed

text \<open>A scene built by adding nodes and edges, whose references all resolve, passes the test exactly when its
  edges have no cycle.\<close>

theorem built_scene_acyclic:
  assumes "scene_step\<^sup>*\<^sup>* (scene_new i) s" "validate_references s = []"
  shows "is_acyclic s = Some (acyclic ((\<lambda>e. (se_source e, se_target e)) ` set (sc_edges s)))"
proof -
  have "numbered s" using scene_run.reachable_inv [OF assms(1)] by blast
  then have d: "distinct (map sn_node_id (sc_nodes s))" by (rule numbered_distinct)
  have v: "se_source e \<in> node_ids s \<and> se_target e \<in> node_ids s" if "e \<in> set (sc_edges s)" for e
    using assms(2) that by (auto simp: validate_references_def edge_errors_def Let_def split: if_splits)
  then have "edge_relation (sc_edges s) (node_ids s) = ((\<lambda>e. (se_source e, se_target e)) ` set (sc_edges s))"
    unfolding edge_relation_def by blast
  then show ?thesis using d v by (simp only: is_acyclic_exact) auto
qed

definition example_node :: scene_node where
  "example_node =
     \<lparr>sn_node_id = 0, sn_name = [], sn_semantic_type = Object, sn_transform = transform_default, sn_geometry_ref = None,
      sn_material_ref = None, sn_parent_id = None, sn_visibility = True, sn_tags = []\<rparr>"

definition example_scene :: "(u64 \<times> u64) list \<Rightarrow> scene" where
  "example_scene es = fold (\<lambda>(a, b). scene_add_edge \<lparr>se_source = a, se_target = b, se_relationship_type = Parent\<rparr>) es
     (snd (scene_add_node example_node (snd (scene_add_node example_node (scene_new zero32)))))"

lemma example_scene_built: "scene_step\<^sup>*\<^sup>* (scene_new zero32) (example_scene es)"
proof -
  have fold: "scene_step\<^sup>*\<^sup>* s (fold (\<lambda>(a, b). scene_add_edge \<lparr>se_source = a, se_target = b, se_relationship_type = Parent\<rparr>) es s)" for s
    by (induction es arbitrary: s) (auto intro: converse_rtranclp_into_rtranclp step_edge)
  have a: "scene_step (scene_new zero32) (snd (scene_add_node example_node (scene_new zero32)))"
    by (rule step_node) (simp add: scene_new_def)
  have b: "scene_step (snd (scene_add_node example_node (scene_new zero32)))
      (snd (scene_add_node example_node (snd (scene_add_node example_node (scene_new zero32)))))"
    by (rule step_node) (simp add: scene_add_node_def scene_new_def Let_def)
  show ?thesis unfolding example_scene_def
    by (rule converse_rtranclp_into_rtranclp [of scene_step, OF a], rule converse_rtranclp_into_rtranclp [of scene_step, OF b], rule fold)
qed

theorem built_scene_acyclic_witness:
  "is_acyclic (example_scene [(0, 1), (0, 1)]) = Some True \<and> is_acyclic (example_scene [(0, 1), (1, 0)]) = Some False"
proof -
  note d = example_scene_def scene_add_edge_def scene_add_node_def scene_new_def example_node_def Let_def
  have v: "validate_references (example_scene [(0, 1), (0, 1)]) = []" "validate_references (example_scene [(0, 1), (1, 0)]) = []"
    by (simp_all add: validate_references_def edge_errors_def d)
  have e: "(\<lambda>e. (se_source e, se_target e)) ` set (sc_edges (example_scene [(0, 1), (0, 1)])) = {(0, 1)}"
    "(\<lambda>e. (se_source e, se_target e)) ` set (sc_edges (example_scene [(0, 1), (1, 0)])) = {(0, 1), (1, 0)}"
    by (simp_all add: d)
  have "acyclic {(0 :: u64, 1)}" by (simp add: acyclic_insert) (simp add: acyclic_def)
  moreover have "\<not> acyclic {(0 :: u64, 1), (1, 0)}" by (auto simp: acyclic_insert)
  ultimately show ?thesis
    using built_scene_acyclic [OF example_scene_built v(1)] built_scene_acyclic [OF example_scene_built v(2)] e by simp
qed

theorem is_acyclic_exact_witness: "is_acyclic (example_scene [(0, 1), (9, 1)]) = Some False"
  unfolding is_acyclic_exact
  by (simp add: example_scene_def scene_add_edge_def scene_add_node_def scene_new_def example_node_def Let_def)

end
