(* ===== verification/Assets.thy ===== *)
theory Assets
  imports Prelude
begin

text \<open>
  Assets of the container format, \<open>crates/rpack/src/asset.rs\<close>: descriptors, the three-tier cache with bounded
  memory and disk tiers, the fetcher that only caches content matching its id, and the registry. The hash
  (blake3) is an argument. Sizes are lengths of byte vectors held in memory, so their sums are below \<open>2 ^ 64\<close>
  and are natural numbers; the configured limits are computed in \<open>usize\<close> and may wrap.
\<close>

section \<open>Data\<close>

datatype asset_type =
    AssetGeometry | AssetTexture | AssetShader | AssetAudio | AssetAnimation | MaterialPreset | ProceduralDefinition
  | ExtensionSpecific

datatype compression_algo = Zstd | LZ4 | Gzip | CustomCompression u16

record asset_encryption =
  ae_encryption_algo :: u16
  ae_key_id :: bytes32
  ae_nonce :: bytes

record asset_descriptor =
  ad_asset_id :: bytes32
  ad_asset_type :: asset_type
  ad_mime_type :: string
  ad_size_bytes :: u64
  ad_compression :: "compression_algo option"
  ad_encryption :: "asset_encryption option"

datatype transport_type = P2P | HTTP | OperatorHosted | Decentralized | Local

record fetch_hint =
  fh_preferred_transport :: transport_type
  fh_region_hint :: "u16 option"
  fh_mirror_hint :: "bytes32 option"

definition fetch_hint_default :: fetch_hint where
  "fetch_hint_default = \<lparr>fh_preferred_transport = HTTP, fh_region_hint = None, fh_mirror_hint = None\<rparr>"

datatype fallback_action =
    SubstitutePlaceholder | ReplaceWithFlatColor | UseDefaultMaterial | HideObject | AbortRendering

record fallback_policy =
  fp_geometry_missing :: fallback_action
  fp_texture_missing :: fallback_action
  fp_shader_missing :: fallback_action

definition fallback_policy_default :: fallback_policy where
  "fallback_policy_default =
     \<lparr>fp_geometry_missing = SubstitutePlaceholder, fp_texture_missing = ReplaceWithFlatColor,
      fp_shader_missing = UseDefaultMaterial\<rparr>"

datatype cache_tier = Memory | Disk | Regional | Network

section \<open>The cache\<close>

type_synonym tier = "(bytes32 \<times> bytes) list"

record asset_cache =
  tier0_memory :: tier
  tier1_disk :: tier
  tier2_regional :: tier
  max_tier0_size :: nat
  max_tier1_size :: nat
  lru_tier0 :: "bytes32 list"
  lru_tier1 :: "bytes32 list"

definition asset_cache_new :: "u64 \<Rightarrow> u64 \<Rightarrow> asset_cache" where
  "asset_cache_new max_tier0_mb max_tier1_mb =
     \<lparr>tier0_memory = [], tier1_disk = [], tier2_regional = [], max_tier0_size = unat (max_tier0_mb * 1024 * 1024),
      max_tier1_size = unat (max_tier1_mb * 1024 * 1024), lru_tier0 = [], lru_tier1 = []\<rparr>"

definition cache_get :: "asset_cache \<Rightarrow> bytes32 \<Rightarrow> bytes option" where
  "cache_get c i =
     (case map_of (tier0_memory c) i of
        Some d \<Rightarrow> Some d
      | None \<Rightarrow> (case map_of (tier1_disk c) i of Some d \<Rightarrow> Some d | None \<Rightarrow> map_of (tier2_regional c) i))"

text \<open>The eviction loop of both bounded tiers: \<open>current\<close> is the size of the tier, which is never below the size of an
  entry, so its subtraction does not wrap.\<close>

fun evict :: "nat \<Rightarrow> nat \<Rightarrow> nat \<Rightarrow> bytes32 list \<Rightarrow> tier \<Rightarrow> bytes32 list \<times> tier" where
  "evict max_size sz current [] m = ([], m)"
| "evict max_size sz current (i # lru) m =
     (case map_of m i of
        None \<Rightarrow> evict max_size sz current lru m
      | Some removed \<Rightarrow>
          (let current' = current - length removed; m' = hm_remove i m
           in if current' + sz \<le> max_size then (lru, m') else evict max_size sz current' lru m'))"

definition make_room :: "nat \<Rightarrow> nat \<Rightarrow> bytes32 list \<Rightarrow> tier \<Rightarrow> bytes32 list \<times> tier" where
  "make_room max_size sz lru m =
     (let current = total length m in if max_size < current + sz then evict max_size sz current lru m else (lru, m))"

definition put_tier0 :: "bytes32 \<Rightarrow> bytes \<Rightarrow> asset_cache \<Rightarrow> bool \<times> asset_cache" where
  "put_tier0 i d c =
     (let (lru, m) = make_room (max_tier0_size c) (length d) (lru_tier0 c) (tier0_memory c)
      in if length d \<le> max_tier0_size c
         then (True, c\<lparr>tier0_memory := hm_insert i d m, lru_tier0 := lru @ [i]\<rparr>)
         else (False, c\<lparr>tier0_memory := m, lru_tier0 := lru\<rparr>))"

definition put_tier1 :: "bytes32 \<Rightarrow> bytes \<Rightarrow> asset_cache \<Rightarrow> bool \<times> asset_cache" where
  "put_tier1 i d c =
     (let (lru, m) = make_room (max_tier1_size c) (length d) (lru_tier1 c) (tier1_disk c)
      in if length d \<le> max_tier1_size c
         then (True, c\<lparr>tier1_disk := hm_insert i d m, lru_tier1 := lru @ [i]\<rparr>)
         else (False, c\<lparr>tier1_disk := m, lru_tier1 := lru\<rparr>))"

definition put_tier2 :: "bytes32 \<Rightarrow> bytes \<Rightarrow> asset_cache \<Rightarrow> bool \<times> asset_cache" where
  "put_tier2 i d c = (True, c\<lparr>tier2_regional := hm_insert i d (tier2_regional c)\<rparr>)"

fun cache_put :: "bytes32 \<Rightarrow> bytes \<Rightarrow> cache_tier \<Rightarrow> asset_cache \<Rightarrow> bool \<times> asset_cache" where
  "cache_put i d Memory c = put_tier0 i d c"
| "cache_put i d Disk c = put_tier1 i d c"
| "cache_put i d Regional c = put_tier2 i d c"
| "cache_put i d Network c = (False, c)"

definition cache_contains :: "asset_cache \<Rightarrow> bytes32 \<Rightarrow> bool" where
  "cache_contains c i \<longleftrightarrow> map_of (tier0_memory c) i \<noteq> None \<or> map_of (tier1_disk c) i \<noteq> None
     \<or> map_of (tier2_regional c) i \<noteq> None"

definition cache_remove :: "bytes32 \<Rightarrow> asset_cache \<Rightarrow> bool \<times> asset_cache" where
  "cache_remove i c =
     (let c0 = (if map_of (tier0_memory c) i \<noteq> None
                then c\<lparr>tier0_memory := hm_remove i (tier0_memory c), lru_tier0 := [j \<leftarrow> lru_tier0 c. j \<noteq> i]\<rparr> else c);
          c1 = (if map_of (tier1_disk c0) i \<noteq> None
                then c0\<lparr>tier1_disk := hm_remove i (tier1_disk c0), lru_tier1 := [j \<leftarrow> lru_tier1 c0. j \<noteq> i]\<rparr> else c0);
          c2 = (if map_of (tier2_regional c1) i \<noteq> None then c1\<lparr>tier2_regional := hm_remove i (tier2_regional c1)\<rparr> else c1)
      in (map_of (tier0_memory c) i \<noteq> None \<or> map_of (tier1_disk c) i \<noteq> None \<or> map_of (tier2_regional c) i \<noteq> None, c2))"

definition cache_total_size :: "asset_cache \<Rightarrow> nat" where
  "cache_total_size c = total length (tier0_memory c) + total length (tier1_disk c) + total length (tier2_regional c)"

section \<open>The fetcher\<close>

datatype fetch_result = Found bytes | NotCached | Missing | FetchError string

record asset_fetcher =
  af_cache :: asset_cache
  af_fallback_policy :: fallback_policy
  af_offline_mode :: bool

definition asset_fetcher_new :: "u64 \<Rightarrow> u64 \<Rightarrow> asset_fetcher" where
  "asset_fetcher_new max_tier0_mb max_tier1_mb =
     \<lparr>af_cache = asset_cache_new max_tier0_mb max_tier1_mb, af_fallback_policy = fallback_policy_default,
      af_offline_mode = False\<rparr>"

definition set_fallback_policy :: "fallback_policy \<Rightarrow> asset_fetcher \<Rightarrow> asset_fetcher" where
  "set_fallback_policy p f = f\<lparr>af_fallback_policy := p\<rparr>"

definition enable_offline_mode :: "asset_fetcher \<Rightarrow> asset_fetcher" where
  "enable_offline_mode f = f\<lparr>af_offline_mode := True\<rparr>"

definition disable_offline_mode :: "asset_fetcher \<Rightarrow> asset_fetcher" where
  "disable_offline_mode f = f\<lparr>af_offline_mode := False\<rparr>"

definition fetch_asset :: "bytes32 \<Rightarrow> asset_fetcher \<Rightarrow> fetch_result" where
  "fetch_asset i f =
     (case cache_get (af_cache f) i of
        Some d \<Rightarrow> Found d
      | None \<Rightarrow> if af_offline_mode f then Missing else NotCached)"

definition verify_and_cache :: "(bytes \<Rightarrow> bytes32) \<Rightarrow> bytes32 \<Rightarrow> bytes \<Rightarrow> cache_tier \<Rightarrow> asset_fetcher \<Rightarrow> bool \<times> asset_fetcher" where
  "verify_and_cache hash i d t f =
     (if hash d \<noteq> i then (False, f) else let (ok, c) = cache_put i d t (af_cache f) in (ok, f\<lparr>af_cache := c\<rparr>))"

definition get_fallback_action :: "asset_type \<Rightarrow> asset_fetcher \<Rightarrow> fallback_action" where
  "get_fallback_action t f =
     (case t of
        AssetGeometry \<Rightarrow> fp_geometry_missing (af_fallback_policy f)
      | AssetTexture \<Rightarrow> fp_texture_missing (af_fallback_policy f)
      | AssetShader \<Rightarrow> fp_shader_missing (af_fallback_policy f)
      | _ \<Rightarrow> AbortRendering)"

section \<open>Descriptors\<close>

definition verify_integrity :: "(bytes \<Rightarrow> bytes32) \<Rightarrow> asset_descriptor \<Rightarrow> bytes \<Rightarrow> bool" where
  "verify_integrity hash a d \<longleftrightarrow> hash d = ad_asset_id a"

type_synonym asset_registry = "(bytes32 \<times> asset_descriptor) list"

definition asset_register :: "asset_descriptor \<Rightarrow> asset_registry \<Rightarrow> asset_registry" where
  "asset_register a r = hm_insert (ad_asset_id a) a r"

definition asset_get :: "asset_registry \<Rightarrow> bytes32 \<Rightarrow> asset_descriptor option" where
  "asset_get r i = map_of r i"

definition list_by_type :: "asset_registry \<Rightarrow> asset_type \<Rightarrow> asset_descriptor list" where
  "list_by_type r t = [a \<leftarrow> map snd r. ad_asset_type a = t]"

definition registry_total_size :: "asset_registry \<Rightarrow> u64" where
  "registry_total_size r = total ad_size_bytes r"

section \<open>Bounded tiers\<close>

text \<open>What each bounded tier keeps: its keys are distinct and queued for eviction, and its size is within the limit.\<close>

definition tier_ok :: "nat \<Rightarrow> bytes32 list \<Rightarrow> tier \<Rightarrow> bool" where
  "tier_ok max_size lru m \<longleftrightarrow> hm_wf m \<and> dom (map_of m) \<subseteq> set lru \<and> total length m \<le> max_size"

lemma evict_result:
  assumes "hm_wf m" "dom (map_of m) \<subseteq> set lru" "current = total length m" "evict max_size sz current lru m = (lru', m')"
  shows "hm_wf m' \<and> dom (map_of m') \<subseteq> set lru' \<and> map_of m' \<subseteq>\<^sub>m map_of m \<and> (total length m' + sz \<le> max_size \<or> m' = [] \<and> lru' = [])"
  using assms
proof (induction lru arbitrary: current m)
  case Nil
  then have "m = []" by (simp add: dom_map_of_conv_image_fst)
  with Nil show ?case by auto
next
  case (Cons i lru)
  show ?case
  proof (cases "map_of m i")
    case None
    then have "dom (map_of m) \<subseteq> set lru" using Cons.prems(2) by fastforce
    with Cons None show ?thesis by auto
  next
    case (Some d)
    have w: "hm_wf (hm_remove i m)" using Cons.prems(1) by (rule hm.wf_remove)
    have sub: "dom (map_of (hm_remove i m)) \<subseteq> set lru" using Cons.prems(2) by (auto simp: hm.get_remove split: if_splits)
    have t: "total length (hm_remove i m) = current - length d"
      using hm.total_split [OF Cons.prems(1) Some, of length] Cons.prems(3) by simp
    have le: "map_of (hm_remove i m) \<subseteq>\<^sub>m map_of m" by (auto simp: map_le_def)
    show ?thesis
    proof (cases "current - length d + sz \<le> max_size")
      case True
      with Cons.prems(4) Some w sub t le show ?thesis by auto
    next
      case False
      then have "evict max_size sz (current - length d) lru (hm_remove i m) = (lru', m')"
        using Cons.prems(4) Some by (simp add: Let_def)
      from Cons.IH [OF w sub t [symmetric] this] le show ?thesis by (blast intro: map_le_trans)
    qed
  qed
qed

lemma make_room_result:
  assumes "tier_ok max_size lru m" "make_room max_size sz lru m = (lru', m')"
  shows "hm_wf m' \<and> dom (map_of m') \<subseteq> set lru' \<and> map_of m' \<subseteq>\<^sub>m map_of m \<and> (total length m' + sz \<le> max_size \<or> m' = [] \<and> lru' = [])"
  using assms evict_result [of m lru "total length m" max_size sz lru' m']
  by (auto simp: make_room_def tier_ok_def Let_def split: if_splits)

lemma total_insert_le: "hm_wf m \<Longrightarrow> total length (hm_insert i d m) \<le> total length m + length d"
  for m :: tier
proof (cases "map_of m i")
  case None
  assume "hm_wf m"
  with None show ?thesis by (simp add: hm.total_insert_new)
next
  case (Some e)
  assume "hm_wf m"
  with Some hm.total_split [of m i e length] show ?thesis by (simp add: hm.total_insert)
qed

lemma tier_ok_insert:
  assumes "tier_ok max_size lru m" "make_room max_size (length d) lru m = (lru', m')" "length d \<le> max_size"
  shows "tier_ok max_size (lru' @ [i]) (hm_insert i d m')"
proof -
  note r = make_room_result [OF assms(1,2)]
  then have "total length m' + length d \<le> max_size" using assms(3) by auto
  with r total_insert_le [of m' i d] show ?thesis by (auto simp: tier_ok_def hm.wf_insert split: if_splits)
qed

lemma tier_ok_shrink:
  assumes "tier_ok max_size lru m" "make_room max_size sz lru m = (lru', m')"
  shows "tier_ok max_size lru' m'"
  using make_room_result [OF assms] by (auto simp: tier_ok_def)

lemma tier_ok_remove: "tier_ok max_size lru m \<Longrightarrow> map_of m i = Some d \<Longrightarrow> tier_ok max_size [j \<leftarrow> lru. j \<noteq> i] (hm_remove i m)"
  using hm.total_split [of m i d length] by (auto simp: tier_ok_def hm.wf_remove split: if_splits)

section \<open>Runs of the fetcher\<close>

definition cache_ok :: "asset_cache \<Rightarrow> bool" where
  "cache_ok c \<longleftrightarrow> tier_ok (max_tier0_size c) (lru_tier0 c) (tier0_memory c)
     \<and> tier_ok (max_tier1_size c) (lru_tier1 c) (tier1_disk c) \<and> hm_wf (tier2_regional c)"

text \<open>The asset ids and contents a cache holds, in any tier.\<close>

definition holds :: "asset_cache \<Rightarrow> bytes32 \<Rightarrow> bytes \<Rightarrow> bool" where
  "holds c i d \<longleftrightarrow> map_of (tier0_memory c) i = Some d \<or> map_of (tier1_disk c) i = Some d \<or> map_of (tier2_regional c) i = Some d"

lemma cache_put_ok: "cache_ok c \<Longrightarrow> cache_ok (snd (cache_put i d t c))"
  by (cases t)
    (auto simp: cache_ok_def put_tier0_def put_tier1_def put_tier2_def hm.wf_insert
      intro: tier_ok_insert tier_ok_shrink split: prod.splits)

lemma cache_remove_ok: "cache_ok c \<Longrightarrow> cache_ok (snd (cache_remove i c))"
  by (auto simp: cache_ok_def cache_remove_def Let_def hm.wf_remove intro: tier_ok_remove)

lemma cache_put_holds:
  assumes "cache_ok c" "holds (snd (cache_put i d t c)) j e"
  shows "j = i \<and> e = d \<or> holds c j e"
proof (cases t)
  case Memory
  obtain lru m where r: "make_room (max_tier0_size c) (length d) (lru_tier0 c) (tier0_memory c) = (lru, m)" by fastforce
  have "tier_ok (max_tier0_size c) (lru_tier0 c) (tier0_memory c)" using assms(1) by (simp add: cache_ok_def)
  from make_room_result [OF this r] have "map_of m \<subseteq>\<^sub>m map_of (tier0_memory c)" by blast
  with assms(2) Memory r show ?thesis
    by (auto simp: holds_def put_tier0_def map_le_def dom_def split: if_splits)
next
  case Disk
  obtain lru m where r: "make_room (max_tier1_size c) (length d) (lru_tier1 c) (tier1_disk c) = (lru, m)" by fastforce
  have "tier_ok (max_tier1_size c) (lru_tier1 c) (tier1_disk c)" using assms(1) by (simp add: cache_ok_def)
  from make_room_result [OF this r] have "map_of m \<subseteq>\<^sub>m map_of (tier1_disk c)" by blast
  with assms(2) Disk r show ?thesis
    by (auto simp: holds_def put_tier1_def map_le_def dom_def split: if_splits)
qed (use assms(2) in \<open>auto simp: holds_def put_tier2_def split: if_splits\<close>)

lemma cache_get_holds: "cache_get c i = Some d \<Longrightarrow> holds c i d"
  by (auto simp: cache_get_def holds_def split: option.splits)

inductive fetcher_step :: "(bytes \<Rightarrow> bytes32) \<Rightarrow> asset_fetcher \<Rightarrow> asset_fetcher \<Rightarrow> bool" for hash where
  step_cache: "fetcher_step hash f (snd (verify_and_cache hash i d t f))"
| step_policy: "fetcher_step hash f (set_fallback_policy p f)"
| step_offline: "fetcher_step hash f (enable_offline_mode f)"
| step_online: "fetcher_step hash f (disable_offline_mode f)"

definition fetcher_ok :: "(bytes \<Rightarrow> bytes32) \<Rightarrow> asset_fetcher \<Rightarrow> bool" where
  "fetcher_ok hash f \<longleftrightarrow> cache_ok (af_cache f) \<and> (\<forall>i d. holds (af_cache f) i d \<longrightarrow> hash d = i)"

lemma verify_and_cache_ok: "fetcher_ok hash f \<Longrightarrow> fetcher_ok hash (snd (verify_and_cache hash i d t f))"
proof -
  assume ok: "fetcher_ok hash f"
  let ?c = "snd (cache_put i d t (af_cache f))"
  have "holds ?c j e \<Longrightarrow> j = i \<and> e = d \<or> holds (af_cache f) j e" for j e
    using ok by (intro cache_put_holds) (simp_all add: fetcher_ok_def)
  then have h: "\<forall>j e. holds ?c j e \<longrightarrow> hash e = j" if "hash d = i" using ok that unfolding fetcher_ok_def by metis
  have "cache_ok ?c" using ok by (simp add: fetcher_ok_def cache_put_ok)
  moreover have "snd (verify_and_cache hash i d t f) = (if hash d = i then f\<lparr>af_cache := ?c\<rparr> else f)"
    by (simp add: verify_and_cache_def case_prod_beta Let_def)
  moreover have sel: "af_cache (f\<lparr>af_cache := ?c\<rparr>) = ?c" by simp
  have "fetcher_ok hash (f\<lparr>af_cache := ?c\<rparr>)" if "hash d = i"
    unfolding fetcher_ok_def sel using \<open>cache_ok ?c\<close> h [OF that] by (rule conjI)
  ultimately show ?thesis using ok by presburger
qed

interpretation fetcher_run: transition_system "fetcher_step hash" "fetcher_ok hash" "\<lambda>f. \<exists>a b. f = asset_fetcher_new a b" for hash
proof (unfold_locales, goal_cases)
  case (1 s s')
  then show ?case
    by (induction rule: fetcher_step.induct)
      (auto simp: verify_and_cache_ok, simp_all add: fetcher_ok_def set_fallback_policy_def enable_offline_mode_def disable_offline_mode_def)
next
  case (2 s)
  then show ?case
    by (auto simp: fetcher_ok_def asset_fetcher_new_def asset_cache_new_def cache_ok_def tier_ok_def holds_def hm.wf_empty)
qed

interpretation cache_limits: step_closed "fetcher_step hash"
  "\<lambda>f. max_tier0_size (af_cache f) = a \<and> max_tier1_size (af_cache f) = b" for hash a b
proof (unfold_locales, goal_cases)
  case (1 s s')
  have "max_tier0_size (snd (cache_put i d t c)) = max_tier0_size c \<and> max_tier1_size (snd (cache_put i d t c)) = max_tier1_size c" for i d t c
    by (cases t) (auto simp: put_tier0_def put_tier1_def put_tier2_def Let_def split: prod.splits)
  with 1 show ?case
    by (induction rule: fetcher_step.induct)
      (auto simp: verify_and_cache_def set_fallback_policy_def enable_offline_mode_def disable_offline_mode_def Let_def case_prod_beta)
qed

section \<open>Properties\<close>

text \<open>C22. A fetcher only ever serves content that hashes to the id asked for, whatever was offered to it before, and the
  memory and disk tiers never exceed the limits it was created with.\<close>

theorem fetched_content_authentic:
  assumes "(fetcher_step hash)\<^sup>*\<^sup>* (asset_fetcher_new a b) f"
  shows "(fetch_asset i f = Found d \<longrightarrow> hash d = i) \<and>
    total length (tier0_memory (af_cache f)) \<le> unat (a * 1024 * 1024) \<and>
    total length (tier1_disk (af_cache f)) \<le> unat (b * 1024 * 1024)"
proof -
  have ok: "fetcher_ok hash f" using fetcher_run.reachable_inv [OF assms] by blast
  have "max_tier0_size (af_cache f) = unat (a * 1024 * 1024) \<and> max_tier1_size (af_cache f) = unat (b * 1024 * 1024)"
    by (rule cache_limits.steps_inv [OF assms]) (simp add: asset_fetcher_new_def asset_cache_new_def)
  with ok show ?thesis
    by (auto simp: fetcher_ok_def cache_ok_def tier_ok_def fetch_asset_def split: option.splits if_splits dest: cache_get_holds)
qed

text \<open>Content that fits the memory limit is cached and found again, evicting older entries only; content above the
  limit is refused, and refusing it empties the whole tier.\<close>

theorem memory_put_effect:
  assumes "cache_ok c"
  shows "if length d \<le> max_tier0_size c
    then fst (cache_put i d Memory c) \<and> cache_get (snd (cache_put i d Memory c)) i = Some d \<and>
      (total length (tier0_memory c) + length d \<le> max_tier0_size c \<longrightarrow>
        (\<forall>j \<noteq> i. cache_get (snd (cache_put i d Memory c)) j = cache_get c j))
    else \<not> fst (cache_put i d Memory c) \<and> tier0_memory (snd (cache_put i d Memory c)) = []"
proof -
  obtain lru m where r: "make_room (max_tier0_size c) (length d) (lru_tier0 c) (tier0_memory c) = (lru, m)" by fastforce
  have "tier_ok (max_tier0_size c) (lru_tier0 c) (tier0_memory c)" using assms by (simp add: cache_ok_def)
  note res = make_room_result [OF this r]
  have "m = tier0_memory c" if "total length (tier0_memory c) + length d \<le> max_tier0_size c"
    using r that by (simp add: make_room_def)
  then show ?thesis using res r by (auto simp: put_tier0_def cache_get_def split: option.splits)
qed

text \<open>Two ids and contents under a toy hash: the content of an id is the id itself, padded.\<close>

definition toy_hash :: "bytes \<Rightarrow> bytes32" where
  "toy_hash d = take 32 (d @ zero32)"

theorem fetched_content_authentic_witness:
  "fetch_asset (toy_hash [7]) (snd (verify_and_cache toy_hash (toy_hash [7]) [7] Memory (asset_fetcher_new 1 1))) = Found [7] \<and>
   toy_hash [7] = [7] @ replicate 31 0"
proof -
  let ?f = "snd (verify_and_cache toy_hash (toy_hash [7]) [7] Memory (asset_fetcher_new 1 1))"
  have "(fetcher_step toy_hash)\<^sup>*\<^sup>* (asset_fetcher_new 1 1) ?f" by (rule r_into_rtranclp, rule step_cache)
  from fetched_content_authentic [OF this, of "toy_hash [7]" "[7]"]
  have "fetch_asset (toy_hash [7]) ?f = Found [7] \<longrightarrow> toy_hash [7] = toy_hash [7]" by blast
  moreover have "fetch_asset (toy_hash [7]) ?f = Found [7]"
    by (simp add: verify_and_cache_def put_tier0_def make_room_def asset_fetcher_new_def asset_cache_new_def fetch_asset_def cache_get_def)
  ultimately show ?thesis by (simp add: toy_hash_def)
qed

theorem memory_put_effect_witness:
  "let c = (asset_cache_new 0 0)\<lparr>max_tier0_size := 3, tier0_memory := [([1], [5])], lru_tier0 := [[1]]\<rparr>
   in cache_get (snd (cache_put [2] [6, 6] Memory c)) [1] = Some [5] \<and> tier0_memory (snd (cache_put [2] [6, 6, 6, 6] Memory c)) = []"
proof -
  let ?c = "(asset_cache_new 0 0)\<lparr>max_tier0_size := 3, tier0_memory := [([1], [5])], lru_tier0 := [[1]]\<rparr>"
  have ok: "cache_ok ?c" by (simp add: cache_ok_def tier_ok_def asset_cache_new_def hm_wf_def)
  have "cache_get ?c [1] = Some [5]" by (simp add: cache_get_def)
  then show ?thesis
    using memory_put_effect [OF ok, of "[6, 6]" "[2]"] memory_put_effect [OF ok, of "[6, 6, 6, 6]" "[2]"] by (simp add: Let_def)
qed

end
