(* ===== verification/Containers.thy ===== *)
theory Containers
  imports Prelude
begin

text \<open>
  The container format, \<open>crates/rpack/src/container.rs\<close> and \<open>crates/rpack/src/delta.rs\<close>: headers with flags,
  chunk types and their codes, the builder, the checks on a built container, patch sets and deltas. The hash
  (blake3), the serializer (bincode) and \<open>size_of::<RPackHeader>()\<close>, which the layout of the compiler decides, are
  arguments.
\<close>

section \<open>Headers and chunks\<close>

definition MAGIC_BYTES :: bytes where
  "MAGIC_BYTES = [0x52, 0x50, 0x41, 0x43, 0x4B, 0x00, 0x01, 0x00]"

definition RPACK_VERSION :: u32 where
  "RPACK_VERSION = 1"

record rpack_header =
  rh_container_version :: u32
  rh_flags :: u32
  rh_scene_ir_hash :: bytes32
  rh_metadata_hash :: bytes32
  rh_chunk_table_offset :: u64
  rh_chunk_count :: u32
  rh_total_uncompressed_size :: u64
  rh_deterministic_seed :: "bytes32 option"
  rh_renderer_profile_hint :: u16

definition rpack_header_new :: rpack_header where
  "rpack_header_new =
     \<lparr>rh_container_version = RPACK_VERSION, rh_flags = 0, rh_scene_ir_hash = zero32, rh_metadata_hash = zero32,
      rh_chunk_table_offset = 0, rh_chunk_count = 0, rh_total_uncompressed_size = 0, rh_deterministic_seed = None,
      rh_renderer_profile_hint = 0\<rparr>"

definition is_compressed :: "rpack_header \<Rightarrow> bool" where
  "is_compressed h \<longleftrightarrow> rh_flags h AND 0x01 \<noteq> 0"

definition is_encrypted :: "rpack_header \<Rightarrow> bool" where
  "is_encrypted h \<longleftrightarrow> rh_flags h AND 0x02 \<noteq> 0"

definition allows_streaming :: "rpack_header \<Rightarrow> bool" where
  "allows_streaming h \<longleftrightarrow> rh_flags h AND 0x04 \<noteq> 0"

definition is_deterministic_mode :: "rpack_header \<Rightarrow> bool" where
  "is_deterministic_mode h \<longleftrightarrow> rh_flags h AND 0x08 \<noteq> 0"

datatype chunk_type = SceneIR | Geometry | Texture | Shader | AnimationChunk | Metadata | Extension | CustomChunk

definition chunk_type_from_u16 :: "u16 \<Rightarrow> chunk_type option" where
  "chunk_type_from_u16 v =
     (if v = 1 then Some SceneIR else if v = 2 then Some Geometry else if v = 3 then Some Texture
      else if v = 4 then Some Shader else if v = 5 then Some AnimationChunk else if v = 6 then Some Metadata
      else if v = 7 then Some Extension else if v = 8 then Some CustomChunk else None)"

fun chunk_type_to_u16 :: "chunk_type \<Rightarrow> u16" where
  "chunk_type_to_u16 SceneIR = 1"
| "chunk_type_to_u16 Geometry = 2"
| "chunk_type_to_u16 Texture = 3"
| "chunk_type_to_u16 Shader = 4"
| "chunk_type_to_u16 AnimationChunk = 5"
| "chunk_type_to_u16 Metadata = 6"
| "chunk_type_to_u16 Extension = 7"
| "chunk_type_to_u16 CustomChunk = 8"

record chunk_header =
  ch_chunk_id :: u32
  ch_chunk_type :: chunk_type
  ch_flags :: u16
  ch_uncompressed_size :: u64
  ch_compressed_size :: u64
  ch_content_hash :: bytes32
  ch_data_offset :: u64

record chunk_data =
  cd_chunk_id :: u32
  cd_payload :: bytes

record rpack =
  rp_header :: rpack_header
  rp_chunk_table :: "chunk_header list"
  rp_chunk_data :: "chunk_data list"

section \<open>The builder\<close>

record rpack_builder =
  rb_header :: rpack_header
  rb_chunks :: "(chunk_header \<times> bytes) list"

definition builder_new :: rpack_builder where
  "builder_new = \<lparr>rb_header = rpack_header_new, rb_chunks = []\<rparr>"

definition set_flag :: "u32 \<Rightarrow> rpack_builder \<Rightarrow> rpack_builder" where
  "set_flag f b = b\<lparr>rb_header := (rb_header b)\<lparr>rh_flags := rh_flags (rb_header b) OR f\<rparr>\<rparr>"

definition builder_with_seed :: "bytes32 \<Rightarrow> rpack_builder \<Rightarrow> rpack_builder" where
  "builder_with_seed seed b = set_flag 0x08 (b\<lparr>rb_header := (rb_header b)\<lparr>rh_deterministic_seed := Some seed\<rparr>\<rparr>)"

definition with_compression :: "bool \<Rightarrow> rpack_builder \<Rightarrow> rpack_builder" where
  "with_compression compressed b = (if compressed then set_flag 0x01 b else b)"

definition with_encryption :: "bool \<Rightarrow> rpack_builder \<Rightarrow> rpack_builder" where
  "with_encryption encrypted b = (if encrypted then set_flag 0x02 b else b)"

definition with_streaming :: "bool \<Rightarrow> rpack_builder \<Rightarrow> rpack_builder" where
  "with_streaming allowed b = (if allowed then set_flag 0x04 b else b)"

definition with_renderer_profile_hint :: "u16 \<Rightarrow> rpack_builder \<Rightarrow> rpack_builder" where
  "with_renderer_profile_hint profile b = b\<lparr>rb_header := (rb_header b)\<lparr>rh_renderer_profile_hint := profile\<rparr>\<rparr>"

definition add_chunk ::
    "(bytes \<Rightarrow> bytes32) \<Rightarrow> chunk_type \<Rightarrow> bytes \<Rightarrow> bytes option \<Rightarrow> rpack_builder \<Rightarrow> u32 \<times> rpack_builder" where
  "add_chunk hash t payload compressed b =
     (let i = of_nat (length (rb_chunks b));
          h = \<lparr>ch_chunk_id = i, ch_chunk_type = t, ch_flags = (if compressed = None then 0 else 1),
               ch_uncompressed_size = of_nat (length payload),
               ch_compressed_size = (case compressed of None \<Rightarrow> of_nat (length payload) | Some c \<Rightarrow> of_nat (length c)),
               ch_content_hash = (case compressed of Some c \<Rightarrow> hash c | None \<Rightarrow> hash payload), ch_data_offset = 0\<rparr>
      in (i, b\<lparr>rb_chunks := rb_chunks b @ [(h, payload)]\<rparr>))"

definition build :: "u64 \<Rightarrow> rpack_builder \<Rightarrow> rpack" where
  "build header_size b =
     (let data = map (\<lambda>(i, h, p). \<lparr>cd_chunk_id = of_nat i, cd_payload = p\<rparr>) (enumerate 0 (rb_chunks b));
          total_size = sum_list (map (\<lambda>c. of_nat (length (cd_payload c))) data)
      in \<lparr>rp_header = (rb_header b)\<lparr>rh_chunk_count := of_nat (length (rb_chunks b)),
                        rh_total_uncompressed_size := total_size, rh_chunk_table_offset := header_size\<rparr>,
          rp_chunk_table = map fst (rb_chunks b), rp_chunk_data = data\<rparr>)"

section \<open>Containers\<close>

definition validate_magic :: "bytes \<Rightarrow> bool" where
  "validate_magic data \<longleftrightarrow> 8 \<le> length data \<and> take 8 data = MAGIC_BYTES"

definition parse_header :: "nat \<Rightarrow> (bytes \<Rightarrow> rpack_header option) \<Rightarrow> bytes \<Rightarrow> rpack_header option" where
  "parse_header header_size deserialize data =
     (if \<not> validate_magic data then None
      else if length data < 8 + header_size then None
      else deserialize (sub_slice data 8 (8 + header_size)))"

definition compute_container_hash ::
    "(bytes \<Rightarrow> bytes32) \<Rightarrow> (rpack_header \<Rightarrow> chunk_header list \<Rightarrow> bytes) \<Rightarrow> rpack \<Rightarrow> bytes32" where
  "compute_container_hash hash serialize r = hash (serialize (rp_header r) (rp_chunk_table r))"

text \<open>\<open>slice.get(i as usize)\<close>\<close>

definition list_get :: "'a list \<Rightarrow> u32 \<Rightarrow> 'a option" where
  "list_get xs i = (if unat i < length xs then Some (xs ! unat i) else None)"

definition verify_chunk :: "(bytes \<Rightarrow> bytes32) \<Rightarrow> rpack \<Rightarrow> u32 \<Rightarrow> bytes \<Rightarrow> bool" where
  "verify_chunk hash r i data =
     (case list_get (rp_chunk_table r) i of None \<Rightarrow> False | Some h \<Rightarrow> hash data = ch_content_hash h)"

definition get_chunk :: "rpack \<Rightarrow> u32 \<Rightarrow> chunk_data option" where
  "get_chunk r i = list_get (rp_chunk_data r) i"

definition get_chunks_by_type :: "rpack \<Rightarrow> chunk_type \<Rightarrow> chunk_data list" where
  "get_chunks_by_type r t =
     List.map_filter (\<lambda>h. list_get (rp_chunk_data r) (ch_chunk_id h)) [h \<leftarrow> rp_chunk_table r. ch_chunk_type h = t]"

definition is_streamable :: "rpack \<Rightarrow> bool" where
  "is_streamable r = allows_streaming (rp_header r)"

section \<open>Deltas\<close>

datatype patch_type = PatchObject | PatchProperty | PatchAnimation | PatchAsset | PatchMaterial

fun patch_priority :: "patch_type \<Rightarrow> u8" where
  "patch_priority PatchObject = 3"
| "patch_priority PatchProperty = 2"
| "patch_priority PatchAnimation = 1"
| "patch_priority PatchAsset = 0"
| "patch_priority PatchMaterial = 2"

datatype patch_operation = PatchAdd bytes | PatchRemove | PatchModify bytes

fun patch_data :: "patch_operation \<Rightarrow> bytes option" where
  "patch_data (PatchAdd d) = Some d"
| "patch_data (PatchModify d) = Some d"
| "patch_data PatchRemove = None"

record patch =
  pt_patch_type :: patch_type
  pt_path :: string
  pt_operation :: patch_operation

type_synonym patch_set = "(string \<times> patch) list"

definition patch_set_add :: "patch \<Rightarrow> patch_set \<Rightarrow> patch_set" where
  "patch_set_add p s = hm_insert (pt_path p) p s"

definition patch_set_get :: "patch_set \<Rightarrow> string \<Rightarrow> patch option" where
  "patch_set_get s path = map_of s path"

definition patch_set_remove :: "string \<Rightarrow> patch_set \<Rightarrow> patch_set" where
  "patch_set_remove path s = hm_remove path s"

record delta_metadata =
  dm_author :: bytes32
  dm_timestamp :: u64
  dm_description :: string
  dm_prerequisites :: "bytes32 list"

definition delta_metadata_default :: delta_metadata where
  "delta_metadata_default = \<lparr>dm_author = zero32, dm_timestamp = 0, dm_description = [], dm_prerequisites = []\<rparr>"

record rpack_delta =
  rd_base_id :: bytes32
  rd_target_id :: bytes32
  rd_version :: u32
  rd_patches :: "patch list"
  rd_metadata :: delta_metadata

definition delta_new :: "bytes32 \<Rightarrow> rpack_delta" where
  "delta_new base_id =
     \<lparr>rd_base_id = base_id, rd_target_id = zero32, rd_version = 1, rd_patches = [], rd_metadata = delta_metadata_default\<rparr>"

definition delta_with_metadata :: "bytes32 \<Rightarrow> string \<Rightarrow> rpack_delta \<Rightarrow> rpack_delta" where
  "delta_with_metadata author description d =
     d\<lparr>rd_metadata := (rd_metadata d)\<lparr>dm_author := author, dm_description := description\<rparr>\<rparr>"

definition add_patch :: "patch \<Rightarrow> rpack_delta \<Rightarrow> rpack_delta" where
  "add_patch p d = d\<lparr>rd_patches := rd_patches d @ [p]\<rparr>"

definition compute_target_id :: "(bytes \<Rightarrow> bytes32) \<Rightarrow> (rpack_delta \<Rightarrow> bytes) \<Rightarrow> rpack_delta \<Rightarrow> bytes32 \<times> rpack_delta" where
  "compute_target_id hash serialize d = (let t = hash (serialize d) in (t, d\<lparr>rd_target_id := t\<rparr>))"

text \<open>The loop over the patches matches on their operations and does nothing in each branch.\<close>

definition delta_apply :: "rpack_delta \<Rightarrow> rpack \<Rightarrow> rpack option" where
  "delta_apply d base =
     (let result = fold (\<lambda>p r. case pt_operation p of PatchAdd _ \<Rightarrow> r | PatchRemove \<Rightarrow> r | PatchModify _ \<Rightarrow> r) (rd_patches d) base
      in Some (result\<lparr>rp_header := (rp_header result)\<lparr>rh_scene_ir_hash := rd_target_id d\<rparr>\<rparr>))"

definition is_applicable :: "rpack_delta \<Rightarrow> rpack \<Rightarrow> bool" where
  "is_applicable d base \<longleftrightarrow> rh_scene_ir_hash (rp_header base) = rd_base_id d"

section \<open>Runs of the builder\<close>

inductive builder_step :: "(bytes \<Rightarrow> bytes32) \<Rightarrow> rpack_builder \<Rightarrow> rpack_builder \<Rightarrow> bool" for hash where
  bs_seed: "builder_step hash b (builder_with_seed seed b)"
| bs_compression: "builder_step hash b (with_compression x b)"
| bs_encryption: "builder_step hash b (with_encryption x b)"
| bs_streaming: "builder_step hash b (with_streaming x b)"
| bs_hint: "builder_step hash b (with_renderer_profile_hint p b)"
| bs_chunk: "builder_step hash b (snd (add_chunk hash t payload compressed b))"

lemmas builder_defs = builder_with_seed_def with_compression_def with_encryption_def with_streaming_def
  with_renderer_profile_hint_def set_flag_def add_chunk_def Let_def

interpretation chunk_prefix: step_closed "builder_step hash" "\<lambda>b. \<exists>ys. rb_chunks b = xs @ ys" for hash xs
  by unfold_locales (auto simp: builder_defs elim!: builder_step.cases)

text \<open>The chunk ids follow the positions.\<close>

definition chunk_ids_ok :: "rpack_builder \<Rightarrow> bool" where
  "chunk_ids_ok b \<longleftrightarrow> (\<forall>k < length (rb_chunks b). ch_chunk_id (fst (rb_chunks b ! k)) = of_nat k)"

interpretation builder_run: transition_system "builder_step hash" chunk_ids_ok "\<lambda>b. b = builder_new" for hash
proof (unfold_locales, goal_cases)
  case (1 s s')
  then show ?case by (induction rule: builder_step.induct) (auto simp: chunk_ids_ok_def builder_defs nth_append less_Suc_eq)
next
  case (2 s)
  then show ?case by (simp add: chunk_ids_ok_def builder_new_def)
qed

lemma build_chunk:
  assumes "k < length (rb_chunks b)" "length (rb_chunks b) \<le> 2 ^ 32"
  shows "list_get (rp_chunk_table (build n b)) (of_nat k) = Some (fst (rb_chunks b ! k))"
    and "get_chunk (build n b) (of_nat k) = Some \<lparr>cd_chunk_id = of_nat k, cd_payload = snd (rb_chunks b ! k)\<rparr>"
proof -
  have u: "unat (of_nat k :: u32) = k" using assms by (simp add: unat_of_nat_small)
  show "list_get (rp_chunk_table (build n b)) (of_nat k) = Some (fst (rb_chunks b ! k))"
    using assms(1) by (simp add: list_get_def u build_def Let_def)
  show "get_chunk (build n b) (of_nat k) = Some \<lparr>cd_chunk_id = of_nat k, cd_payload = snd (rb_chunks b ! k)\<rparr>"
    using assms(1) by (simp add: list_get_def u build_def Let_def get_chunk_def nth_enumerate_eq case_prod_beta)
qed

section \<open>Properties\<close>

text \<open>C30. A chunk given to the builder is found in the container built later, whatever is added or set in between, under
  the id the builder returned: its payload is the one given, and its check accepts exactly the data with the hash
  of the payload, or of the compressed form when one was given. The compressed form itself is not in the container,
  so the check refuses the stored payload of a compressed chunk unless the two hashes agree.\<close>

theorem built_chunk_found:
  assumes "add_chunk hash t payload compressed b = (i, b1)" "(builder_step hash)\<^sup>*\<^sup>* b1 b2" "length (rb_chunks b2) \<le> 2 ^ 32"
  shows "get_chunk (build n b2) i = Some \<lparr>cd_chunk_id = i, cd_payload = payload\<rparr> \<and>
    (verify_chunk hash (build n b2) i data \<longleftrightarrow> hash data = hash (case compressed of None \<Rightarrow> payload | Some c \<Rightarrow> c))"
proof -
  have i: "i = of_nat (length (rb_chunks b))" and
    c1: "\<exists>h. rb_chunks b1 = rb_chunks b @ [(h, payload)] \<and> ch_content_hash h = hash (case compressed of None \<Rightarrow> payload | Some c \<Rightarrow> c)"
    using assms(1) by (auto simp: add_chunk_def Let_def split: option.splits)
  then obtain h where h: "rb_chunks b1 = rb_chunks b @ [(h, payload)]" "ch_content_hash h = hash (case compressed of None \<Rightarrow> payload | Some c \<Rightarrow> c)"
    by blast
  obtain ys where "rb_chunks b2 = rb_chunks b1 @ ys"
    using chunk_prefix.steps_inv [OF assms(2), of "rb_chunks b1"] by auto
  then have k: "length (rb_chunks b) < length (rb_chunks b2)" "rb_chunks b2 ! length (rb_chunks b) = (h, payload)"
    using h(1) by (simp_all add: nth_append)
  from build_chunk [OF k(1) assms(3), of n] k(2) h(2) show ?thesis by (simp add: i verify_chunk_def)
qed

theorem built_chunk_found_witness:
  "let (i, b) = add_chunk (take 32) Geometry [1, 2, 3] (Some [9]) builder_new
   in get_chunk (build 160 (with_streaming True b)) i = Some \<lparr>cd_chunk_id = 0, cd_payload = [1, 2, 3]\<rparr> \<and>
      verify_chunk (take 32) (build 160 (with_streaming True b)) i [9] \<and>
      \<not> verify_chunk (take 32) (build 160 (with_streaming True b)) i [1, 2, 3]"
proof -
  obtain i b where b: "add_chunk (take 32) Geometry [1, 2, 3] (Some [9]) builder_new = (i, b)" by fastforce
  have i: "i = 0" using b by (auto simp: add_chunk_def builder_new_def Let_def)
  have l: "length (rb_chunks (with_streaming True b)) \<le> 2 ^ 32" using b by (auto simp: builder_defs builder_new_def)
  from built_chunk_found [OF b r_into_rtranclp [of "builder_step (take 32)", OF bs_streaming] l, of 160]
  show ?thesis by (simp add: b i)
qed

text \<open>The codes of the chunk types are one to one with the values the reader accepts.\<close>

theorem chunk_type_roundtrip: "chunk_type_from_u16 v = Some t \<longleftrightarrow> v = chunk_type_to_u16 t"
  by (cases t) (auto simp: chunk_type_from_u16_def)

text \<open>The chunks of a type in a built container are the payloads added with that type, in the order they were
  added.\<close>

theorem chunks_by_type:
  assumes "(builder_step hash)\<^sup>*\<^sup>* builder_new b" "length (rb_chunks b) \<le> 2 ^ 32"
  shows "map cd_payload (get_chunks_by_type (build n b) t) = map snd [c \<leftarrow> rb_chunks b. ch_chunk_type (fst c) = t]"
proof -
  have ok: "chunk_ids_ok b" by (rule builder_run.reachable_inv [OF assms(1) refl])
  let ?D = "rp_chunk_data (build n b)"
  have g: "list_get ?D (ch_chunk_id (fst c)) = Some \<lparr>cd_chunk_id = ch_chunk_id (fst c), cd_payload = snd c\<rparr>" if c: "c \<in> set (rb_chunks b)" for c
  proof -
    obtain k where k: "k < length (rb_chunks b)" "c = rb_chunks b ! k" using c by (auto simp: in_set_conv_nth)
    then have "ch_chunk_id (fst c) = of_nat k" using ok by (simp add: chunk_ids_ok_def)
    with build_chunk(2) [OF k(1) assms(2), of n] k(2) show ?thesis by (simp add: get_chunk_def)
  qed
  have "map cd_payload (List.map_filter (\<lambda>h. list_get ?D (ch_chunk_id h)) [h \<leftarrow> map fst cs. ch_chunk_type h = t])
      = map snd [c \<leftarrow> cs. ch_chunk_type (fst c) = t]" if "set cs \<subseteq> set (rb_chunks b)" for cs
    using that by (induction cs) (auto simp: List.map_filter_def g)
  from this [of "rb_chunks b"] show ?thesis by (simp add: get_chunks_by_type_def build_def Let_def)
qed

theorem chunks_by_type_witness:
  "map cd_payload (get_chunks_by_type (build 160 (snd (add_chunk (take 32) Texture [7] None builder_new))) Texture) = [[7]]"
proof -
  let ?b = "snd (add_chunk (take 32) Texture [7] None builder_new)"
  have "(builder_step (take 32))\<^sup>*\<^sup>* builder_new ?b" by (rule r_into_rtranclp, rule bs_chunk)
  moreover have "rb_chunks ?b = [(fst (hd (rb_chunks ?b)), [7])]" "ch_chunk_type (fst (hd (rb_chunks ?b))) = Texture"
    by (simp_all add: add_chunk_def builder_new_def Let_def)
  ultimately show ?thesis using chunks_by_type [of "take 32" ?b 160 Texture]
    by (simp add: add_chunk_def builder_new_def Let_def)
qed

text \<open>Applying a delta ignores its patches and the base it was made for: the result is the container it is given,
  with the scene hash replaced by the target id of the delta.\<close>

theorem delta_ignores_patches:
  "delta_apply d base = Some (base\<lparr>rp_header := (rp_header base)\<lparr>rh_scene_ir_hash := rd_target_id d\<rparr>\<rparr>)"
proof -
  have "fold (\<lambda>p r. case pt_operation p of PatchAdd _ \<Rightarrow> r | PatchRemove \<Rightarrow> r | PatchModify _ \<Rightarrow> r) ps r = r" for ps :: "patch list" and r :: rpack
    by (induction ps arbitrary: r) (auto split: patch_operation.splits)
  then show ?thesis by (simp add: delta_apply_def Let_def)
qed

end
