(* ===== verification/Routing.thy ===== *)
theory Routing
  imports Float64
begin

text \<open>
  Routing of jobs to operators, \<open>crates/intelligence/src/routing.rs\<close>: eligibility, the weighted scores, and the
  selection of \<open>k\<close> operators, deterministic (with a seeded tie-break added to the scores) or adaptive. Loads and
  success rates are finite and not negative.
\<close>

section \<open>Data\<close>

datatype r_qos_class = RLowLatency | RBalanced | RHighAssurance | RDeterministicCritical

datatype r_execution_mode = RDeterministic | RAdaptive

datatype activation_policy = Parallel | Sequential | MajorityActivation | FirstValid

record scoring_weights =
  sw_similarity :: u32
  sw_reputation :: u32
  sw_latency :: u32
  sw_price :: u32
  sw_load :: u32

fun default_k :: "r_qos_class \<Rightarrow> u32" where
  "default_k RLowLatency = 1"
| "default_k RBalanced = 2"
| "default_k RHighAssurance = 3"
| "default_k RDeterministicCritical = 3"

fun qos_weights :: "r_qos_class \<Rightarrow> scoring_weights" where
  "qos_weights RLowLatency = \<lparr>sw_similarity = 10, sw_reputation = 20, sw_latency = 50, sw_price = 10, sw_load = 10\<rparr>"
| "qos_weights RBalanced = \<lparr>sw_similarity = 20, sw_reputation = 25, sw_latency = 20, sw_price = 25, sw_load = 10\<rparr>"
| "qos_weights RHighAssurance = \<lparr>sw_similarity = 20, sw_reputation = 40, sw_latency = 10, sw_price = 20, sw_load = 10\<rparr>"
| "qos_weights RDeterministicCritical = \<lparr>sw_similarity = 25, sw_reputation = 35, sw_latency = 10, sw_price = 15, sw_load = 15\<rparr>"

record route_constraint =
  rc_region :: "string option"
  rc_min_reputation :: "u64 option"
  rc_min_stake :: "u64 option"
  rc_max_load :: "f64 option"
  rc_required_capabilities :: "bytes32 list option"

record r_job_ticket =
  rt_redundancy_policy :: activation_policy
  rt_qos_class :: r_qos_class
  rt_execution_mode :: r_execution_mode
  rt_max_price_per_unit :: u64
  rt_min_reputation :: u64

record route_request =
  rq_job_id :: bytes32
  rq_kernel_id :: bytes32
  rq_input_size :: u64
  rq_budget :: u64
  rq_deadline :: u64
  rq_constraints :: "route_constraint list"
  rq_redundancy_factor :: u32
  rq_qos_class :: r_qos_class
  rq_execution_mode :: r_execution_mode
  rq_block_height_reference :: u64
  rq_job_ticket :: r_job_ticket

record operator_score =
  sc_operator_id :: bytes32
  sc_score :: u64
  sc_reputation :: u64
  sc_price :: u64
  sc_latency_ms :: u32
  sc_load :: f64
  sc_similarity :: u32

record route_decision =
  rd_job_id :: bytes32
  rd_selected_operators :: "operator_score list"
  rd_k :: nat
  rd_redundancy_policy :: activation_policy
  rd_seed :: "u64 option"

record operator_metrics =
  mt_operator_id :: bytes32
  mt_current_load :: f64
  mt_latency_ms :: u32
  mt_success_rate :: f64
  mt_fraud_count :: u32
  mt_uptime_blocks :: u64
  mt_last_update :: u64

definition reputation_score :: "operator_metrics \<Rightarrow> u32" where
  "reputation_score m =
     (let base = f64_to_u32 (f64_mul (mt_success_rate m) (1000, 0));
          fraud_penalty = min (mt_fraud_count m) 10 * 50;
          uptime_bonus = min (ucast (mt_uptime_blocks m div 10000)) 100
      in saturating_add (saturating_sub base fraud_penalty) uptime_bonus)"

record operator_snapshot =
  op_id :: bytes32
  op_is_active :: bool
  op_supports_kernel :: bool
  op_stake :: u64
  op_reputation :: u64
  op_region :: string
  op_budget :: u64
  op_price :: u64
  op_latency :: u32
  op_max_concurrent :: u32
  op_vram_gb :: u32

text \<open>The trait \<open>OperatorInfo\<close>, as the values its methods return.\<close>

record operator_info =
  oi_id :: bytes32
  oi_is_active :: bool
  oi_supports_kernel :: "bytes32 \<Rightarrow> bool"
  oi_stake :: u64
  oi_reputation :: u64
  oi_region :: string
  oi_budget :: u64
  oi_price :: u64
  oi_latency :: u32
  oi_max_concurrent :: u32
  oi_vram_gb :: u32

definition from_operator :: "operator_info \<Rightarrow> operator_snapshot" where
  "from_operator i =
     \<lparr>op_id = oi_id i, op_is_active = oi_is_active i, op_supports_kernel = oi_supports_kernel i (oi_id i),
      op_stake = oi_stake i, op_reputation = oi_reputation i, op_region = oi_region i, op_budget = oi_budget i,
      op_price = oi_price i, op_latency = oi_latency i, op_max_concurrent = oi_max_concurrent i,
      op_vram_gb = oi_vram_gb i\<rparr>"

record thalamus =
  th_metrics :: "(bytes32 \<times> operator_metrics) list"
  th_qos_weights :: "(r_qos_class \<times> scoring_weights) list"
  th_partition_preference :: "string option"

section \<open>Operations\<close>

definition thalamus_new :: thalamus where
  "thalamus_new =
     \<lparr>th_metrics = [],
      th_qos_weights = fold (\<lambda>q. hm_insert q (qos_weights q)) [RLowLatency, RBalanced, RHighAssurance, RDeterministicCritical] [],
      th_partition_preference = None\<rparr>"

definition with_partition :: "string \<Rightarrow> thalamus" where
  "with_partition p = thalamus_new\<lparr>th_partition_preference := Some p\<rparr>"

definition update_metrics :: "operator_metrics \<Rightarrow> thalamus \<Rightarrow> thalamus" where
  "update_metrics m t = t\<lparr>th_metrics := hm_insert (mt_operator_id m) m (th_metrics t)\<rparr>"

definition get_operator_metrics :: "thalamus \<Rightarrow> bytes32 \<Rightarrow> operator_metrics option" where
  "get_operator_metrics t i = map_of (th_metrics t) i"

definition route_k :: "route_request \<Rightarrow> nat" where
  "route_k rq = (if 0 < rq_redundancy_factor rq then unat (rq_redundancy_factor rq) else unat (default_k (rq_qos_class rq)))"

text \<open>\<open>iter().find_map(f)\<close>\<close>

fun find_map :: "('a \<Rightarrow> 'b option) \<Rightarrow> 'a list \<Rightarrow> 'b option" where
  "find_map f [] = None"
| "find_map f (x # xs) = (case f x of Some y \<Rightarrow> Some y | None \<Rightarrow> find_map f xs)"

definition is_eligible :: "thalamus \<Rightarrow> route_request \<Rightarrow> operator_snapshot \<Rightarrow> bool" where
  "is_eligible t rq op =
     (if \<not> op_is_active op then False
      else if \<not> op_supports_kernel op then False
      else if (case find_map rc_min_stake (rq_constraints rq) of None \<Rightarrow> False | Some s \<Rightarrow> op_stake op < s) then False
      else if (case find_map rc_region (rq_constraints rq) of None \<Rightarrow> False | Some r \<Rightarrow> op_region op \<noteq> r) then False
      else if (case find_map rc_max_load (rq_constraints rq) of
                 None \<Rightarrow> False
               | Some l \<Rightarrow> (case map_of (th_metrics t) (op_id op) of None \<Rightarrow> False | Some m \<Rightarrow> f64_less l (mt_current_load m)))
        then False
      else if (case find_map rc_min_reputation (rq_constraints rq) of None \<Rightarrow> False | Some r \<Rightarrow> op_reputation op < r) then False
      else if op_budget op < rq_budget rq then False
      else if op_max_concurrent op = 0 then False
      else True)"

text \<open>The indices of the eligible operators.\<close>

definition filter_eligible :: "thalamus \<Rightarrow> operator_snapshot list \<Rightarrow> route_request \<Rightarrow> nat list" where
  "filter_eligible t ops rq = map fst [(i, op) \<leftarrow> enumerate 0 ops. is_eligible t rq op]"

definition calculate_reputation_score :: "operator_snapshot \<Rightarrow> operator_metrics option \<Rightarrow> u32" where
  "calculate_reputation_score op metrics =
     (case metrics of Some m \<Rightarrow> reputation_score m | None \<Rightarrow> ucast (min (op_reputation op div 10) 1000))"

definition calculate_latency_score :: "operator_snapshot \<Rightarrow> operator_metrics option \<Rightarrow> u32" where
  "calculate_latency_score op metrics =
     (let latency = (case metrics of Some m \<Rightarrow> mt_latency_ms m | None \<Rightarrow> op_latency op)
      in if latency = 0 then 100 else min (1000 div latency) 100)"

definition calculate_price_score :: "operator_snapshot \<Rightarrow> route_request \<Rightarrow> u32" where
  "calculate_price_score op rq =
     (let price = op_price op; budget = rq_budget rq
      in if price = 0 then 100
         else if price < budget then ucast (min ((budget - price) * 100 div budget) 100) else 0)"

definition calculate_load_score :: "operator_metrics option \<Rightarrow> u32" where
  "calculate_load_score metrics =
     (let load = (case metrics of Some m \<Rightarrow> mt_current_load m | None \<Rightarrow> (0, 0))
      in f64_to_u32 (f64_mul (f64_sub_cut (1, 0) load) (100, 0)))"

definition calculate_similarity_score :: "thalamus \<Rightarrow> operator_snapshot \<Rightarrow> u32" where
  "calculate_similarity_score t op =
     (if op_supports_kernel op then 1 else 0) * 50
     + (if op_region op = (case th_partition_preference t of Some s \<Rightarrow> s | None \<Rightarrow> []) then 30 else 0)
     + min ((op_vram_gb op div 8) * 20) 20"

definition operator_scoring :: "thalamus \<Rightarrow> route_request \<Rightarrow> scoring_weights \<Rightarrow> operator_snapshot \<Rightarrow> operator_score" where
  "operator_scoring t rq w op =
     (let metrics = map_of (th_metrics t) (op_id op);
          rep_score = calculate_reputation_score op metrics;
          lat_score = calculate_latency_score op metrics;
          price_score = calculate_price_score op rq;
          load_score = calculate_load_score metrics;
          sim_score = calculate_similarity_score t op;
          total_score = (ucast (sw_similarity w) * ucast sim_score + ucast (sw_reputation w) * ucast rep_score
                         + ucast (sw_latency w) * ucast lat_score + ucast (sw_price w) * ucast price_score
                         + ucast (sw_load w) * ucast load_score) div 100
      in \<lparr>sc_operator_id = op_id op, sc_score = total_score, sc_reputation = ucast rep_score, sc_price = op_price op,
          sc_latency_ms = lat_score, sc_load = (case metrics of Some m \<Rightarrow> mt_current_load m | None \<Rightarrow> (0, 0)),
          sc_similarity = sim_score\<rparr>)"

definition calculate_scores :: "thalamus \<Rightarrow> nat list \<Rightarrow> operator_snapshot list \<Rightarrow> route_request \<Rightarrow> operator_score list" where
  "calculate_scores t eligible ops rq =
     (let w = (case map_of (th_qos_weights t) (rq_qos_class rq) of Some w \<Rightarrow> w | None \<Rightarrow> qos_weights RBalanced)
      in map (\<lambda>i. operator_scoring t rq w (ops ! i)) eligible)"

definition deterministic_tiebreak :: "bytes32 \<Rightarrow> u64 \<Rightarrow> u64" where
  "deterministic_tiebreak i seed = fold (\<lambda>b h. h * 31 + ucast b) i seed mod 1000"

definition adjust_score :: "u64 \<Rightarrow> operator_score \<Rightarrow> operator_score" where
  "adjust_score seed s = s\<lparr>sc_score := sc_score s + deterministic_tiebreak (sc_operator_id s) seed\<rparr>"

definition adaptive_select :: "operator_score list \<Rightarrow> nat \<Rightarrow> operator_score list" where
  "adaptive_select scores k = take k (sort_key (\<lambda>s. - int (unat (sc_score s))) scores)"

definition deterministic_select :: "operator_score list \<Rightarrow> nat \<Rightarrow> u64 \<Rightarrow> operator_score list" where
  "deterministic_select scores k seed =
     take k (sort_key (\<lambda>s. - int (unat (sc_score s))) (map (adjust_score seed) scores))"

definition generate_seed :: "route_request \<Rightarrow> u64" where
  "generate_seed rq =
     fold (\<lambda>(i, b) seed. seed + ucast b * 31 ^ i) (enumerate 0 (rq_job_id rq)) 0 + rq_block_height_reference rq * 37"

definition empty_decision :: "route_request \<Rightarrow> u64 option \<Rightarrow> route_decision" where
  "empty_decision rq seed =
     \<lparr>rd_job_id = rq_job_id rq, rd_selected_operators = [], rd_k = 0,
      rd_redundancy_policy = rt_redundancy_policy (rq_job_ticket rq), rd_seed = seed\<rparr>"

definition route :: "thalamus \<Rightarrow> operator_snapshot list \<Rightarrow> route_request \<Rightarrow> route_decision" where
  "route t ops rq =
     (let k = route_k rq; eligible = filter_eligible t ops rq
      in if eligible = [] \<or> k = 0 then empty_decision rq None
         else
           let scores = calculate_scores t eligible ops rq;
               (selected, seed) =
                 (case rq_execution_mode rq of
                    RDeterministic \<Rightarrow> (let seed = generate_seed rq in (deterministic_select scores k seed, Some seed))
                  | RAdaptive \<Rightarrow> (adaptive_select scores k, None))
           in \<lparr>rd_job_id = rq_job_id rq, rd_selected_operators = selected, rd_k = k,
               rd_redundancy_policy = rt_redundancy_policy (rq_job_ticket rq), rd_seed = seed\<rparr>)"

definition fallback_route :: "thalamus \<Rightarrow> operator_snapshot list \<Rightarrow> route_request \<Rightarrow> bytes32 list \<Rightarrow> route_decision" where
  "fallback_route t ops rq excluded =
     (let k = route_k rq;
          eligible = map fst [(i, op) \<leftarrow> enumerate 0 ops. op_id op \<notin> set excluded \<and> is_eligible t rq op]
      in if eligible = [] \<or> k = 0
         then empty_decision rq (if rq_execution_mode rq = RDeterministic then Some (generate_seed rq) else None)
         else
           let scores = calculate_scores t eligible ops rq;
               selected =
                 (case rq_execution_mode rq of
                    RDeterministic \<Rightarrow> deterministic_select scores k (rq_block_height_reference rq * of_nat (length excluded))
                  | RAdaptive \<Rightarrow> adaptive_select scores k)
           in \<lparr>rd_job_id = rq_job_id rq, rd_selected_operators = selected, rd_k = k,
               rd_redundancy_policy = rt_redundancy_policy (rq_job_ticket rq), rd_seed = None\<rparr>)"

section \<open>Candidates\<close>

text \<open>The weights a request is scored with, and the score of an operator as the selection sees it.\<close>

definition request_weights :: "thalamus \<Rightarrow> route_request \<Rightarrow> scoring_weights" where
  "request_weights t rq = (case map_of (th_qos_weights t) (rq_qos_class rq) of Some w \<Rightarrow> w | None \<Rightarrow> qos_weights RBalanced)"

definition final_score :: "thalamus \<Rightarrow> route_request \<Rightarrow> operator_snapshot \<Rightarrow> operator_score" where
  "final_score t rq op =
     (case rq_execution_mode rq of
        RDeterministic \<Rightarrow> adjust_score (generate_seed rq) (operator_scoring t rq (request_weights t rq) op)
      | RAdaptive \<Rightarrow> operator_scoring t rq (request_weights t rq) op)"

lemma enumerate_filter:
  "map (\<lambda>i. f (xs ! i)) (map fst [(i, x) \<leftarrow> enumerate 0 xs. P x]) = map f [x \<leftarrow> xs. P x]"
proof -
  have "map (\<lambda>i. f (xs ! i)) (map fst [(i, x) \<leftarrow> enumerate 0 xs. P x]) = map (\<lambda>(i, x). f x) [(i, x) \<leftarrow> enumerate 0 xs. P x]"
    by (auto simp: in_set_enumerate_eq)
  also have "\<dots> = map f [x \<leftarrow> xs. P x]"
  proof -
    have "map (\<lambda>(i, x). f x) [(i, x) \<leftarrow> enumerate n xs. P x] = map f [x \<leftarrow> xs. P x]" for n
      by (induction xs arbitrary: n) auto
    then show ?thesis .
  qed
  finally show ?thesis .
qed

lemma enumerate_filter_Nil: "map fst [(i, x) \<leftarrow> enumerate 0 xs. P x] = [] \<longleftrightarrow> [x \<leftarrow> xs. P x] = []"
  using arg_cong [OF enumerate_filter [of id xs P], of length] by (simp flip: length_0_conv del: length_0_conv)

lemma calculate_scores_filter:
  "calculate_scores t (map fst [(i, op) \<leftarrow> enumerate 0 ops. P op]) ops rq
     = map (operator_scoring t rq (request_weights t rq)) [op \<leftarrow> ops. P op]"
  unfolding calculate_scores_def Let_def request_weights_def [symmetric] by (rule enumerate_filter)

lemma route_k_pos: "0 < route_k rq"
  by (cases "rq_qos_class rq") (auto simp: route_k_def word_less_nat_alt)

lemma route_selected:
  "rd_selected_operators (route t ops rq) =
     take (route_k rq) (sort_key (\<lambda>s. - int (unat (sc_score s))) (map (final_score t rq) [op \<leftarrow> ops. is_eligible t rq op]))"
proof (cases "[op \<leftarrow> ops. is_eligible t rq op] = []")
  case True
  then have "filter_eligible t ops rq = []" unfolding filter_eligible_def enumerate_filter_Nil .
  with True show ?thesis by (simp add: route_def empty_decision_def)
next
  case False
  then have "filter_eligible t ops rq \<noteq> []" unfolding filter_eligible_def enumerate_filter_Nil .
  with route_k_pos [of rq] show ?thesis
    by (cases "rq_execution_mode rq")
      (simp_all add: route_def Let_def filter_eligible_def calculate_scores_filter final_score_def [abs_def]
        deterministic_select_def adaptive_select_def o_def)
qed

text \<open>The weights and scores in use stay small enough for the sum of products.\<close>

inductive thalamus_step :: "thalamus \<Rightarrow> thalamus \<Rightarrow> bool" where
  "thalamus_step t (update_metrics m t)"

interpretation thalamus_run: transition_system thalamus_step "\<lambda>t. th_qos_weights t = th_qos_weights thalamus_new"
    "\<lambda>t. t = thalamus_new \<or> (\<exists>p. t = with_partition p)"
  by unfold_locales (auto simp: update_metrics_def with_partition_def elim: thalamus_step.cases)

lemma request_weights_new: "th_qos_weights t = th_qos_weights thalamus_new \<Longrightarrow> request_weights t rq = qos_weights (rq_qos_class rq)"
  by (cases "rq_qos_class rq") (simp_all add: request_weights_def thalamus_new_def)

lemma qos_weights_sum:
  "unat (sw_similarity (qos_weights q)) + unat (sw_reputation (qos_weights q)) + unat (sw_latency (qos_weights q))
     + unat (sw_price (qos_weights q)) + unat (sw_load (qos_weights q)) = 100"
  by (cases q) simp_all

lemma weighted_sum_exact:
  fixes a b c d e v w x y z :: u32
  assumes "unat a + unat b + unat c + unat d + unat e = 100"
  shows "unat (ucast a * ucast v + ucast b * ucast w + ucast c * ucast x + ucast d * ucast y + ucast e * ucast z :: u64)
    = unat a * unat v + unat b * unat w + unat c * unat x + unat d * unat y + unat e * unat z"
    (is "unat (?p a v + ?p b w + ?p c x + ?p d y + ?p e z) = _")
proof -
  have le: "unat m * unat n \<le> 100 * 2 ^ 32" if "unat m \<le> 100" for m n :: u32
  proof -
    have "unat n < 2 ^ LENGTH(32)" by (rule unsigned_less)
    with that show ?thesis by (intro mult_le_mono) simp_all
  qed
  have m: "unat m \<le> 100" if "m \<in> {a, b, c, d, e}" for m using assms that by auto
  have p: "unat (ucast m * ucast n :: u64) = unat m * unat n" if "m \<in> {a, b, c, d, e}" for m n :: u32
    using le [OF m [OF that], of n] by (subst unat_mult_no_wrap) auto
  have q: "unat (ucast m * ucast n :: u64) \<le> 100 * 2 ^ 32" if "m \<in> {a, b, c, d, e}" for m n :: u32
    using p [OF that] le [OF m [OF that]] by simp
  note bounds = q [of a v] q [of b w] q [of c x] q [of d y] q [of e z]
  show ?thesis using bounds
    by (simp add: p unat_add_no_wrap)
qed

lemma score_value:
  fixes rq :: route_request and op :: operator_snapshot and t :: thalamus
  assumes "thalamus_step\<^sup>*\<^sup>* t0 t" "t0 = thalamus_new \<or> t0 = with_partition p"
  defines "w \<equiv> qos_weights (rq_qos_class rq)"
  defines "m \<equiv> get_operator_metrics t (op_id op)"
  shows "unat (sc_score (operator_scoring t rq (request_weights t rq) op)) =
    (unat (sw_similarity w) * unat (calculate_similarity_score t op) + unat (sw_reputation w) * unat (calculate_reputation_score op m)
     + unat (sw_latency w) * unat (calculate_latency_score op m) + unat (sw_price w) * unat (calculate_price_score op rq)
     + unat (sw_load w) * unat (calculate_load_score m)) div 100"
proof -
  have "th_qos_weights t = th_qos_weights thalamus_new" using thalamus_run.reachable_inv [OF assms(1)] assms(2) by blast
  then have rw: "request_weights t rq = w" by (simp add: request_weights_new w_def)
  show ?thesis unfolding rw operator_scoring_def Let_def m_def get_operator_metrics_def operator_score.simps unat_div
    by (simp add: weighted_sum_exact [OF qos_weights_sum] w_def)
qed

text \<open>The score of an operator and the points its id gets in deterministic mode, as numbers.\<close>

definition base_score :: "thalamus \<Rightarrow> route_request \<Rightarrow> operator_snapshot \<Rightarrow> nat" where
  "base_score t rq op = unat (sc_score (operator_scoring t rq (request_weights t rq) op))"

definition tie_points :: "route_request \<Rightarrow> operator_snapshot \<Rightarrow> nat" where
  "tie_points rq op = (case rq_execution_mode rq of RAdaptive \<Rightarrow> 0 | RDeterministic \<Rightarrow> unat (deterministic_tiebreak (op_id op) (generate_seed rq)))"

lemma tie_points_less: "tie_points rq op < 1000"
  by (cases "rq_execution_mode rq") (simp_all add: tie_points_def deterministic_tiebreak_def unat_mod)

lemma base_score_less: "base_score t rq op < 2 ^ 58"
proof -
  have "unat (x div 100) < 2 ^ 58" for x :: u64
  proof -
    have "unat x < 18446744073709551616" by (rule unat_lt_u64)
    then have "unat x div 100 \<le> 18446744073709551615 div 100" by (intro div_le_mono) linarith
    then show ?thesis by (simp add: unat_div)
  qed
  then show ?thesis by (simp add: base_score_def operator_scoring_def Let_def)
qed

lemma final_score_value:
  "unat (sc_score (final_score t rq op)) = base_score t rq op + tie_points rq op"
proof (cases "rq_execution_mode rq")
  case RDeterministic
  have "sc_operator_id (operator_scoring t rq w op) = op_id op" for w by (simp add: operator_scoring_def Let_def)
  with RDeterministic show ?thesis using base_score_less [of t rq op] tie_points_less [of rq op]
    by (simp add: final_score_def adjust_score_def base_score_def tie_points_def unat_add_no_wrap)
qed (simp add: final_score_def base_score_def tie_points_def)

section \<open>Properties\<close>

definition example_request :: "r_execution_mode \<Rightarrow> route_request" where
  "example_request mode =
     \<lparr>rq_job_id = zero32, rq_kernel_id = zero32, rq_input_size = 0, rq_budget = 10, rq_deadline = 9, rq_constraints = [],
      rq_redundancy_factor = 1, rq_qos_class = RLowLatency, rq_execution_mode = mode, rq_block_height_reference = 1,
      rq_job_ticket = \<lparr>rt_redundancy_policy = FirstValid, rt_qos_class = RLowLatency, rt_execution_mode = mode,
        rt_max_price_per_unit = 5, rt_min_reputation = 0\<rparr>\<rparr>"

definition example_operator :: "bytes32 \<Rightarrow> u32 \<Rightarrow> operator_snapshot" where
  "example_operator i latency =
     \<lparr>op_id = i, op_is_active = True, op_supports_kernel = True, op_stake = 5, op_reputation = 900, op_region = [],
      op_budget = 10, op_price = 1, op_latency = latency, op_max_concurrent = 1, op_vram_gb = 8\<rparr>"

text \<open>C25. The decision selects as many eligible operators as the request's factor (or the default of its class) asks for and
  there are, each with the score of \<open>calculate_scores\<close> (and in deterministic mode the points of its id). In adaptive mode
  no operator left out, and none later in the decision, has a higher score than one selected before it. In deterministic
  mode this holds for the score plus the points, at most 999, so a score that is higher by a thousand or more is never
  passed over.\<close>

theorem route_selects_best:
  "let eligible = [op \<leftarrow> ops. is_eligible t rq op];
       ahead = (\<lambda>a b. if rq_execution_mode rq = RAdaptive then base_score t rq b \<le> base_score t rq a
         else base_score t rq b + tie_points rq b \<le> base_score t rq a + tie_points rq a \<and>
              base_score t rq b < base_score t rq a + 1000)
   in \<exists>chosen left_out. mset eligible = mset chosen + mset left_out \<and> length chosen = min (route_k rq) (length eligible) \<and>
        rd_selected_operators (route t ops rq) = map (final_score t rq) chosen \<and>
        (\<forall>op \<in> set chosen. sc_operator_id (final_score t rq op) = op_id op \<and>
           unat (sc_score (final_score t rq op)) = base_score t rq op + tie_points rq op) \<and>
        sorted_wrt ahead chosen \<and> (\<forall>a \<in> set chosen. \<forall>b \<in> set left_out. ahead a b)"
proof -
  define el where "el = [op \<leftarrow> ops. is_eligible t rq op]"
  define ahead where "ahead = (\<lambda>a b. if rq_execution_mode rq = RAdaptive then base_score t rq b \<le> base_score t rq a
         else base_score t rq b + tie_points rq b \<le> base_score t rq a + tie_points rq a \<and>
              base_score t rq b < base_score t rq a + 1000)"
  let ?score = "\<lambda>op. sc_score (final_score t rq op)"
  define chosen where "chosen = take (route_k rq) (sort_key (\<lambda>op. - int (unat (?score op))) el)"
  have ah: "ahead a b" if "?score b \<le> ?score a" for a b
    using that tie_points_less [of rq a]
    by (cases "rq_execution_mode rq") (simp_all add: ahead_def word_le_nat_alt final_score_value, simp add: tie_points_def)
  have rt: "rd_selected_operators (route t ops rq) = map (final_score t rq) chosen"
    by (simp add: route_selected sort_key_map take_map chosen_def el_def)
  have ids: "sc_operator_id (final_score t rq op) = op_id op" for op
    by (cases "rq_execution_mode rq") (simp_all add: final_score_def adjust_score_def operator_scoring_def Let_def)
  obtain left_out where l: "mset el = mset chosen + mset left_out" "length chosen = min (route_k rq) (length el)"
    "sorted_wrt (\<lambda>u v. ?score v \<le> ?score u) chosen" "\<forall>u \<in> set chosen. \<forall>v \<in> set left_out. ?score v \<le> ?score u"
    using descending_take [of "route_k rq" ?score el] unfolding chosen_def by blast
  have "sorted_wrt ahead chosen" by (rule sorted_wrt_mono_rel [OF _ l(3)]) (rule ah)
  with l(1,2,4) rt ids ah have "mset el = mset chosen + mset left_out \<and> length chosen = min (route_k rq) (length el) \<and>
      rd_selected_operators (route t ops rq) = map (final_score t rq) chosen \<and>
      (\<forall>op \<in> set chosen. sc_operator_id (final_score t rq op) = op_id op \<and>
         unat (sc_score (final_score t rq op)) = base_score t rq op + tie_points rq op) \<and>
      sorted_wrt ahead chosen \<and> (\<forall>a \<in> set chosen. \<forall>b \<in> set left_out. ahead a b)"
    by (simp add: final_score_value)
  then show ?thesis unfolding el_def [symmetric] ahead_def [symmetric] Let_def by blast
qed

text \<open>The scores are computed without overflow: for every router built by the constructors and updated with any
  metrics, the score is the sum of the five weighted scores over a hundred, with weights that add up to a hundred.\<close>

theorem score_exact:
  fixes rq :: route_request and op :: operator_snapshot and t :: thalamus
  assumes "thalamus_step\<^sup>*\<^sup>* t0 t" "t0 = thalamus_new \<or> t0 = with_partition p"
  defines "w \<equiv> qos_weights (rq_qos_class rq)"
  defines "m \<equiv> get_operator_metrics t (op_id op)"
  shows "unat (sc_score (operator_scoring t rq (request_weights t rq) op)) =
    (unat (sw_similarity w) * unat (calculate_similarity_score t op) + unat (sw_reputation w) * unat (calculate_reputation_score op m)
     + unat (sw_latency w) * unat (calculate_latency_score op m) + unat (sw_price w) * unat (calculate_price_score op rq)
     + unat (sw_load w) * unat (calculate_load_score m)) div 100"
  unfolding m_def w_def by (rule score_value [OF assms(1,2)])

text \<open>When no two eligible operators have the same final score, the decision does not depend on the order in which
  the operators are listed.\<close>

theorem route_order_independent:
  assumes "mset ops = mset ops'"
    and "distinct (map (\<lambda>op. sc_score (final_score t rq op)) [op \<leftarrow> ops. is_eligible t rq op])"
  shows "rd_selected_operators (route t ops rq) = rd_selected_operators (route t ops' rq)"
proof -
  let ?l = "\<lambda>ops. map (final_score t rq) [op \<leftarrow> ops. is_eligible t rq op]"
  let ?f = "\<lambda>s. - int (unat (sc_score s))"
  have "mset (?l os) = image_mset (final_score t rq) (filter_mset (is_eligible t rq) (mset os))" for os by simp
  then have m: "mset (?l ops) = mset (?l ops')" by (simp only: assms(1))
  have "distinct (map sc_score (?l ops))" using assms(2) by (simp add: o_def)
  then have "inj_on sc_score (set (?l ops))" by (simp only: distinct_map)
  then have "inj_on ?f (set (?l ops))" by (auto simp: inj_on_def word_uint_eq_iff)
  moreover have "mset (?l ops) = mset (sort_key ?f (?l ops'))" by (simp only: mset_sort m)
  ultimately have "sort_key ?f (?l ops) = sort_key ?f (?l ops')" by (intro sort_key_inj_key_eq sorted_sort_key)
  then show ?thesis by (simp only: route_selected)
qed

text \<open>A fallback route never selects an excluded operator.\<close>

theorem fallback_excludes:
  "s \<in> set (rd_selected_operators (fallback_route t ops rq excluded)) \<Longrightarrow> sc_operator_id s \<notin> set excluded"
  by (cases "rq_execution_mode rq")
    (auto simp: fallback_route_def Let_def empty_decision_def calculate_scores_filter deterministic_select_def adaptive_select_def
      adjust_score_def operator_scoring_def dest!: in_set_takeD split: if_splits)

lemma example_eligible: "is_eligible thalamus_new (example_request mode) (example_operator i l)"
  by (simp add: is_eligible_def example_request_def example_operator_def)

text \<open>Without metrics, the example operators differ in their latency scores only.\<close>

lemma example_scores:
  "calculate_similarity_score thalamus_new (example_operator i l) = 100"
  "calculate_reputation_score (example_operator i l) None = 90"
  "calculate_latency_score (example_operator i l) None = (if l = 0 then 100 else min (1000 div l) 100)"
  "calculate_price_score (example_operator i l) (example_request mode) = 90"
  "calculate_load_score None = 100"
proof -
  show "calculate_similarity_score thalamus_new (example_operator i l) = 100"
    by (simp add: calculate_similarity_score_def thalamus_new_def example_operator_def)
  show "calculate_reputation_score (example_operator i l) None = 90"
    by (simp add: calculate_reputation_score_def example_operator_def)
  show "calculate_latency_score (example_operator i l) None = (if l = 0 then 100 else min (1000 div l) 100)"
    by (simp add: calculate_latency_score_def example_operator_def)
  show "calculate_price_score (example_operator i l) (example_request mode) = 90"
    by (simp add: calculate_price_score_def example_operator_def example_request_def)
  show "calculate_load_score None = 100" by (simp add: calculate_load_score_def round53_exact)
qed

theorem route_selects_best_witness:
  "length (rd_selected_operators (route thalamus_new [example_operator [1] 10, (example_operator [2] 50)\<lparr>op_is_active := False\<rparr>]
     (example_request RAdaptive))) = 1"
proof -
  have "\<exists>chosen. length chosen = 1 \<and> rd_selected_operators (route thalamus_new
      [example_operator [1] 10, (example_operator [2] 50)\<lparr>op_is_active := False\<rparr>] (example_request RAdaptive))
    = map (final_score thalamus_new (example_request RAdaptive)) chosen"
    using route_selects_best [of thalamus_new "example_request RAdaptive" "[example_operator [1] 10, (example_operator [2] 50)\<lparr>op_is_active := False\<rparr>]"]
    by (simp add: Let_def example_eligible is_eligible_def [of _ _ "_\<lparr>op_is_active := False\<rparr>"] route_k_def)
      (auto simp: example_request_def)
  then show ?thesis by auto
qed

theorem score_exact_witness:
  "unat (sc_score (operator_scoring thalamus_new (example_request RAdaptive) (request_weights thalamus_new (example_request RAdaptive))
     (example_operator zero32 10))) = 97"
proof -
  have "get_operator_metrics thalamus_new i = None" for i by (simp add: get_operator_metrics_def thalamus_new_def)
  moreover have "rq_qos_class (example_request RAdaptive) = RLowLatency" by (simp add: example_request_def)
  ultimately show ?thesis
    using score_exact [OF rtranclp.rtrancl_refl, of thalamus_new "[]" "example_request RAdaptive" "example_operator zero32 10"]
    by (simp add: example_scores)
qed

lemma example_final_score:
  "sc_score (final_score thalamus_new (example_request RAdaptive) (example_operator i l)) =
     of_nat ((4700 + 50 * unat (if l = 0 then 100 else min (1000 div l) 100)) div 100)"
proof -
  have m: "get_operator_metrics thalamus_new i = None" for i by (simp add: get_operator_metrics_def thalamus_new_def)
  have q: "rq_qos_class (example_request RAdaptive) = RLowLatency" "rq_execution_mode (example_request RAdaptive) = RAdaptive"
    by (simp_all add: example_request_def)
  have "unat (sc_score (final_score thalamus_new (example_request RAdaptive) (example_operator i l))) =
      (4700 + 50 * unat (if l = 0 then 100 else min (1000 div l) 100)) div 100"
    using score_value [OF rtranclp.rtrancl_refl, of thalamus_new "[]" "example_request RAdaptive" "example_operator i l"]
    by (simp add: final_score_def example_scores m q)
  from arg_cong [OF this, of "of_nat :: nat \<Rightarrow> u64"] show ?thesis by simp
qed

theorem route_order_independent_witness:
  "rd_selected_operators (route thalamus_new [example_operator [1] 10, example_operator [2] 50] (example_request RAdaptive)) =
   rd_selected_operators (route thalamus_new [example_operator [2] 50, example_operator [1] 10] (example_request RAdaptive))"
  by (rule route_order_independent) (simp_all add: example_eligible example_final_score)

theorem fallback_excludes_witness:
  "\<forall>s \<in> set (rd_selected_operators (fallback_route thalamus_new [example_operator [1] 10, example_operator [2] 50]
     (example_request RAdaptive) [[1]])). sc_operator_id s \<noteq> [1]"
  using fallback_excludes [of _ thalamus_new "[example_operator [1] 10, example_operator [2] 50]" "example_request RAdaptive" "[[1]]"]
  by auto

text \<open>The tie-break of the deterministic mode is not only a tie-break: it adds up to 999 to scores that differ by less,
  so an operator with the lower score can be selected.\<close>

theorem tiebreak_overrules_score:
  "let rq = example_request RDeterministic; a = example_operator [1] 10; b = example_operator [200] 1000
   in sc_score (operator_scoring thalamus_new rq (request_weights thalamus_new rq) b)
        < sc_score (operator_scoring thalamus_new rq (request_weights thalamus_new rq) a) \<and>
      map sc_operator_id (rd_selected_operators (route thalamus_new [a, b] rq)) = [[200]]"
proof -
  let ?rq = "example_request RDeterministic"
  have m: "get_operator_metrics thalamus_new i = None" for i by (simp add: get_operator_metrics_def thalamus_new_def)
  have q: "rq_qos_class ?rq = RLowLatency" "rq_execution_mode ?rq = RDeterministic" by (simp_all add: example_request_def)
  have v: "unat (sc_score (operator_scoring thalamus_new ?rq (request_weights thalamus_new ?rq) (example_operator i l))) =
      (4700 + 50 * unat (if l = 0 then 100 else min (1000 div l) 100)) div 100" for i l
    using score_value [OF rtranclp.rtrancl_refl, of thalamus_new "[]" ?rq "example_operator i l"] by (simp add: example_scores m q)
  have s: "sc_score (operator_scoring thalamus_new ?rq (request_weights thalamus_new ?rq) (example_operator [1] 10)) = 97"
      "sc_score (operator_scoring thalamus_new ?rq (request_weights thalamus_new ?rq) (example_operator [200] 1000)) = 47"
    using v [of "[1]" 10] v [of "[200]" 1000] by (simp_all add: word_unat_eq_iff)
  have i: "sc_operator_id (operator_scoring t rq w (example_operator j l)) = j" for t rq w j l
    by (simp add: operator_scoring_def Let_def example_operator_def)
  have "fold (\<lambda>(i, b :: u8) seed. seed + ucast b * 31 ^ i) (map (\<lambda>q. (q, 0)) is) (0 :: u64) = 0" for "is"
    by (induction "is") simp_all
  then have seed: "generate_seed ?rq = 37" by (simp add: generate_seed_def example_request_def enumerate_replicate_eq)
  have k: "route_k ?rq = 1" by (simp add: route_k_def example_request_def)
  show ?thesis unfolding Let_def
    by (simp add: route_selected final_score_def q example_eligible adjust_score_def seed i s deterministic_tiebreak_def k)
qed

end
