(* ===== verification/Governance.thy ===== *)
theory Governance
  imports Prelude
begin

text \<open>
  Governance, \<open>crates/truth/src/governance.rs\<close>: proposals, stake-weighted votes and their tally. Weights and
  products are 64-bit and wrap.
\<close>

datatype proposal_type =
    ParameterChange string string | SoftwareUpgrade string | SlashValidator bytes32 string | PartitionCreateProposal u32
  | PartitionDeleteProposal u32

datatype proposal_status = Voting | Passed | ProposalRejected | Executed | Canceled

datatype vote_option = Yes | No | Abstain

record proposal =
  pr_id :: u64
  pr_proposal_type :: proposal_type
  pr_title :: string
  pr_description :: string
  pr_proposer :: bytes32
  pr_vote_start :: u64
  pr_vote_end :: u64
  pr_status :: proposal_status
  pr_execution_result :: "string option"

record governance_vote =
  gv_voter :: bytes32
  gv_proposal_id :: u64
  gv_vote_option :: vote_option
  gv_stake_weight :: u64

record governance_params =
  gp_voting_period :: u64
  gp_quorum :: u64
  gp_threshold :: u64
  gp_max_proposals :: u64

record governance =
  go_proposals :: "(u64 \<times> proposal) list"
  go_votes :: "(u64 \<times> governance_vote list) list"
  go_params :: governance_params
  go_next_proposal_id :: u64

definition governance_new :: governance where
  "governance_new =
     \<lparr>go_proposals = [], go_votes = [],
      go_params = \<lparr>gp_voting_period = 86400, gp_quorum = 500000000, gp_threshold = 667000000, gp_max_proposals = 100\<rparr>,
      go_next_proposal_id = 1\<rparr>"

definition create_proposal ::
    "proposal_type \<Rightarrow> string \<Rightarrow> string \<Rightarrow> bytes32 \<Rightarrow> u64 \<Rightarrow> governance \<Rightarrow> u64 \<times> governance" where
  "create_proposal t title description proposer current_time g =
     (let i = go_next_proposal_id g;
          p = \<lparr>pr_id = i, pr_proposal_type = t, pr_title = title, pr_description = description, pr_proposer = proposer,
               pr_vote_start = current_time, pr_vote_end = current_time + gp_voting_period (go_params g),
               pr_status = Voting, pr_execution_result = None\<rparr>
      in (i, g\<lparr>go_next_proposal_id := i + 1, go_proposals := hm_insert i p (go_proposals g),
               go_votes := hm_insert i [] (go_votes g)\<rparr>))"

text \<open>\<open>self.votes.get_mut(&proposal_id).unwrap()\<close> panics where a proposal has no list of votes.\<close>

definition cast_vote :: "u64 \<Rightarrow> bytes32 \<Rightarrow> vote_option \<Rightarrow> u64 \<Rightarrow> governance \<Rightarrow> ((string + unit) \<times> governance) rust" where
  "cast_vote i voter option weight g =
     (case map_of (go_proposals g) i of
        None \<Rightarrow> Return (Inl ''Proposal not found'', g)
      | Some p \<Rightarrow>
          if pr_status p \<noteq> Voting then Return (Inl ''Proposal is not in voting period'', g)
          else case map_of (go_votes g) i of
                 None \<Rightarrow> Panic
               | Some vs \<Rightarrow>
                   Return (Inr (), g\<lparr>go_votes := hm_insert i
                     (vs @ [\<lparr>gv_voter = voter, gv_proposal_id = i, gv_vote_option = option, gv_stake_weight = weight\<rparr>]) (go_votes g)\<rparr>))"

definition weight_of :: "vote_option \<Rightarrow> governance_vote list \<Rightarrow> u64" where
  "weight_of opt vs = fold (\<lambda>v acc. if gv_vote_option v = opt then acc + gv_stake_weight v else acc) vs 0"

definition tally :: "u64 \<Rightarrow> governance \<Rightarrow> (u64 \<times> u64 \<times> u64 \<times> proposal_status) rust" where
  "tally i g =
     (case map_of (go_votes g) i of
        None \<Rightarrow> Panic
      | Some vs \<Rightarrow>
          (let yes = weight_of Yes vs; no = weight_of No vs; abstain = weight_of Abstain vs;
               total = yes + no + abstain;
               status = (if gp_quorum (go_params g) \<le> total \<and> total * gp_threshold (go_params g) div 1000000000 \<le> yes then Passed
                         else if gp_quorum (go_params g) \<le> total then ProposalRejected
                         else Voting)
           in Return (yes, no, abstain, status)))"

section \<open>Runs\<close>

inductive governance_step :: "governance \<Rightarrow> governance \<Rightarrow> bool" where
  step_create: "go_next_proposal_id g \<noteq> - 1 \<Longrightarrow> governance_step g (snd (create_proposal t a b c now g))"
| step_vote: "cast_vote i voter opt w g = Return (r, g') \<Longrightarrow> governance_step g g'"

definition governance_ok :: "governance \<Rightarrow> bool" where
  "governance_ok g \<longleftrightarrow> hm_wf (go_proposals g) \<and> hm_wf (go_votes g) \<and> (\<forall>i. map_of (go_votes g) i = None \<longleftrightarrow> map_of (go_proposals g) i = None) \<and>
     go_params g = go_params governance_new \<and> 1 \<le> go_next_proposal_id g \<and>
     (\<forall>i p. map_of (go_proposals g) i = Some p \<longrightarrow> pr_id p = i \<and> 1 \<le> i \<and> i < go_next_proposal_id g \<and> pr_status p = Voting) \<and>
     (\<forall>i vs. map_of (go_votes g) i = Some vs \<longrightarrow> (\<forall>v \<in> set vs. gv_proposal_id v = i))"

lemma word_less_Suc: "(n :: 'a::len word) \<noteq> - 1 \<Longrightarrow> n < n + 1 \<and> (i < n \<longrightarrow> i < n + 1) \<and> (i \<le> n \<longrightarrow> i \<le> n + 1)"
proof -
  assume "n \<noteq> - 1"
  then have "unat n + 1 < 2 ^ LENGTH('a)"
    by (metis Suc_eq_plus1 Suc_lessI unat_minus_one_word unsigned_less diff_Suc_1 word_unat_eq_iff)
  then have "unat (n + 1) = unat n + 1" by (simp add: unat_add_no_wrap)
  then show ?thesis by (auto simp: word_less_nat_alt word_le_nat_alt)
qed

lemma governance_ok_create:
  assumes "governance_ok g" "go_next_proposal_id g \<noteq> - 1"
  shows "governance_ok (snd (create_proposal t a b c now g))"
  using assms(1) word_less_Suc [OF assms(2)]
  by (auto simp: governance_ok_def create_proposal_def Let_def hm.wf_insert split: if_splits)

interpretation governance_run: transition_system governance_step governance_ok "\<lambda>g. g = governance_new"
proof (unfold_locales, goal_cases)
  case (1 s s')
  then show ?case
  proof (induction rule: governance_step.induct)
    case (step_create g t a b c now)
    then show ?case by (simp add: governance_ok_create)
  next
    case (step_vote i voter opt w g r g')
    then show ?case
      by (auto simp: cast_vote_def governance_ok_def hm.wf_insert split: option.splits if_splits)
  qed
next
  case (2 s)
  then show ?case by (simp add: governance_ok_def governance_new_def hm.wf_empty)
qed

section \<open>Weights\<close>

text \<open>The weight of an option as a natural number, without wrapping.\<close>

definition exact_weight :: "vote_option \<Rightarrow> governance_vote list \<Rightarrow> nat" where
  "exact_weight opt vs = sum_list (map (\<lambda>v. if gv_vote_option v = opt then unat (gv_stake_weight v) else 0) vs)"

lemma weight_of_exact: "weight_of opt vs = of_nat (exact_weight opt vs)"
proof -
  have "fold (\<lambda>v acc. if gv_vote_option v = opt then acc + gv_stake_weight v else acc) vs a = a + of_nat (exact_weight opt vs)" for a
    by (induction vs arbitrary: a) (auto simp: exact_weight_def)
  then show ?thesis by (simp add: weight_of_def)
qed

section \<open>Properties\<close>

text \<open>In every state reached by creating proposals and voting, a new proposal gets an id that is not in use, every
  proposal is stored under its id with the votes cast for it and can be tallied; and every proposal stays open: no
  operation closes it, so a vote is accepted at any time, also from the same voter again.\<close>

theorem proposals_stay_open:
  assumes "governance_step\<^sup>*\<^sup>* governance_new g"
  shows "map_of (go_proposals g) (fst (create_proposal t a b c now g)) = None \<and>
    (map_of (go_proposals g) i = Some p \<longrightarrow> pr_id p = i \<and> pr_status p = Voting \<and> tally i g \<noteq> Panic \<and>
       (\<forall>voter opt w. \<exists>g'. cast_vote i voter opt w g = Return (Inr (), g')))"
proof -
  have ok: "governance_ok g" by (rule governance_run.reachable_inv [OF assms refl])
  have "map_of (go_proposals g) (go_next_proposal_id g) = None"
    using ok by (cases "map_of (go_proposals g) (go_next_proposal_id g)") (auto simp: governance_ok_def)
  moreover have "\<exists>vs. map_of (go_votes g) i = Some vs" if "map_of (go_proposals g) i = Some p"
    using ok that by (cases "map_of (go_votes g) i") (auto simp: governance_ok_def)
  ultimately show ?thesis using ok
    by (auto simp: create_proposal_def governance_ok_def tally_def cast_vote_def Let_def)
qed

theorem proposals_stay_open_witness:
  "let g = snd (create_proposal (SoftwareUpgrade []) [] [] [] 5 governance_new)
   in \<exists>g'. cast_vote 1 [7] Yes 10 g = Return (Inr (), g') \<and> tally 1 g \<noteq> Panic"
proof -
  let ?g = "snd (create_proposal (SoftwareUpgrade []) [] [] [] 5 governance_new)"
  have "governance_step governance_new ?g" by (rule step_create) (simp add: governance_new_def)
  from proposals_stay_open [OF r_into_rtranclp [of governance_step, OF this], of _ _ _ _ _ 1]
  show ?thesis by (simp add: create_proposal_def governance_new_def Let_def)
qed

text \<open>C34. As long as the product of the total weight with the threshold stays below \<open>2 ^ 64\<close>, the tally returns the exact
  weights, and a proposal passes exactly when the total reaches the quorum and the approvals reach 66.7 percent of the
  total, rounded down.\<close>

theorem tally_exact:
  assumes "map_of (go_votes g) i = Some vs" "go_params g = go_params governance_new"
  defines "y \<equiv> exact_weight Yes vs" and "n \<equiv> exact_weight No vs" and "a \<equiv> exact_weight Abstain vs"
  assumes "(y + n + a) * 667000000 < 2 ^ 64"
  shows "tally i g = Return (of_nat y, of_nat n, of_nat a,
    if 500000000 \<le> y + n + a then (if (y + n + a) * 667 div 1000 \<le> y then Passed else ProposalRejected) else Voting)"
proof -
  have lt: "y + n + a < 2 ^ 64" using assms(6) by (rule le_less_trans [rotated]) simp
  let ?t = "of_nat y + of_nat n + of_nat a :: u64"
  have t: "?t = of_nat (y + n + a)" by simp
  have ut: "unat ?t = y + n + a" unfolding t by (rule unat_of_nat_small) (use lt in simp)
  have "unat (?t * 667000000) = (y + n + a) * 667000000"
    using assms(6) by (subst unat_mult_no_wrap) (simp_all add: ut)
  then have p: "unat (?t * 667000000 div 1000000000) = (y + n + a) * 667 div 1000" by (simp add: unat_div)
  have uy: "unat (of_nat y :: u64) = y" by (rule unat_of_nat_small) (use lt in simp)
  have q: "500000000 \<le> ?t \<longleftrightarrow> 500000000 \<le> y + n + a" using ut by (simp add: word_le_nat_alt)
  have r: "?t * 667000000 div 1000000000 \<le> of_nat y \<longleftrightarrow> (y + n + a) * 667 div 1000 \<le> y" using p uy by (simp add: word_le_nat_alt)
  have params: "gp_quorum (go_params g) = 500000000" "gp_threshold (go_params g) = 667000000" using assms(2) by (simp_all add: governance_new_def)
  show ?thesis unfolding tally_def assms(1) Let_def option.case weight_of_exact y_def [symmetric] n_def [symmetric] a_def [symmetric]
      params q r by auto
qed

theorem tally_exact_witness:
  "let v = \<lambda>w opt. \<lparr>gv_voter = [], gv_proposal_id = 1, gv_vote_option = opt, gv_stake_weight = w\<rparr>;
       g = governance_new\<lparr>go_votes := [(1, [v 700000000 Yes, v 300000000 No])]\<rparr>
   in tally 1 g = Return (700000000, 300000000, 0, Passed)"
proof -
  let ?v = "\<lambda>w opt. \<lparr>gv_voter = [], gv_proposal_id = 1, gv_vote_option = opt, gv_stake_weight = w\<rparr>"
  let ?g = "governance_new\<lparr>go_votes := [(1, [?v 700000000 Yes, ?v 300000000 No])]\<rparr>"
  have "map_of (go_votes ?g) 1 = Some [?v 700000000 Yes, ?v 300000000 No]" by simp
  from tally_exact [OF this] show ?thesis by (simp add: exact_weight_def Let_def)
qed

text \<open>Above that bound the product wraps: a proposal with no approval at all passes when its total weight is right.\<close>

theorem rejected_by_all_passes:
  "tally 1 (governance_new\<lparr>go_votes := [(1, [\<lparr>gv_voter = [], gv_proposal_id = 1, gv_vote_option = No, gv_stake_weight = 27656287967\<rparr>])]\<rparr>)
     = Return (0, 27656287967, 0, Passed)"
  by (simp add: tally_def weight_of_def governance_new_def Let_def)

end
