(* ===== verification/ChainSync.thy ===== *)
theory ChainSync
  imports Ledger
begin

text \<open>
  Pruning of archived blocks, \<open>crates/truth/src/pruning.rs\<close>, and catching up with the chain,
  \<open>crates/truth/src/sync.rs\<close>: requests, the headers and blocks received so far, the heights still missing, and the
  summaries light clients compare. The hash of a block (blake3 over bincode) is an argument.
\<close>

section \<open>Pruning\<close>

definition DEFAULT_RETENTION_LIMIT :: u64 where
  "DEFAULT_RETENTION_LIMIT = 10000"

record pruning_config =
  pg_enabled :: bool
  pg_retention_blocks :: u64
  pg_min_height_to_prune :: u64
  pg_batch_size :: nat

definition pruning_config_default :: pruning_config where
  "pruning_config_default =
     \<lparr>pg_enabled = True, pg_retention_blocks = DEFAULT_RETENTION_LIMIT, pg_min_height_to_prune = 100, pg_batch_size = 1000\<rparr>"

definition with_retention :: "u64 \<Rightarrow> pruning_config \<Rightarrow> pruning_config" where
  "with_retention blocks c = c\<lparr>pg_retention_blocks := blocks\<rparr>"

definition pruning_disabled :: "pruning_config \<Rightarrow> pruning_config" where
  "pruning_disabled c = c\<lparr>pg_enabled := False\<rparr>"

record block_archive =
  ba_height :: u64
  ba_hash :: bytes32
  ba_state_root :: bytes32
  ba_block_size_bytes :: u64
  ba_tx_count :: u32

record archive_stats =
  as_total_blocks :: u64
  as_total_size_bytes :: u64
  as_earliest_height :: u64
  as_latest_height :: u64

record state_pruner =
  sp_config :: pruning_config
  sp_blocks :: "(u64 \<times> block_archive) list"
  sp_heights :: "u64 list"

definition state_pruner_new :: "pruning_config \<Rightarrow> state_pruner" where
  "state_pruner_new config = \<lparr>sp_config = config, sp_blocks = [], sp_heights = []\<rparr>"

definition archive_block :: "u64 \<Rightarrow> bytes32 \<Rightarrow> bytes32 \<Rightarrow> u64 \<Rightarrow> u32 \<Rightarrow> state_pruner \<Rightarrow> state_pruner" where
  "archive_block height hash state_root block_size tx_count s =
     s\<lparr>sp_blocks := hm_insert height \<lparr>ba_height = height, ba_hash = hash, ba_state_root = state_root,
         ba_block_size_bytes = block_size, ba_tx_count = tx_count\<rparr> (sp_blocks s),
       sp_heights := (if height \<in> set (sp_heights s) then sp_heights s else sp_heights s @ [height])\<rparr>"

definition retention_height :: "u64 \<Rightarrow> state_pruner \<Rightarrow> u64" where
  "retention_height current_height s = saturating_sub current_height (pg_retention_blocks (sp_config s))"

definition should_prune :: "u64 \<Rightarrow> state_pruner \<Rightarrow> bool" where
  "should_prune current_height s =
     (if \<not> pg_enabled (sp_config s) then False
      else pg_min_height_to_prune (sp_config s) < saturating_sub current_height (pg_retention_blocks (sp_config s)))"

definition get_blocks_to_prune :: "u64 \<Rightarrow> state_pruner \<Rightarrow> u64 list" where
  "get_blocks_to_prune current_height s =
     (if \<not> should_prune current_height s then []
      else let cutoff = saturating_sub current_height (pg_retention_blocks (sp_config s))
           in [h \<leftarrow> sp_heights s. h < cutoff])"

text \<open>The loop of \<open>prune\<close>; \<open>remove1\<close> is the removal at the first position of the height.\<close>

fun prune_heights :: "u64 list \<Rightarrow> nat \<Rightarrow> state_pruner \<Rightarrow> nat \<times> state_pruner" where
  "prune_heights [] n s = (n, s)"
| "prune_heights (h # hs) n s =
     (case map_of (sp_blocks s) h of
        None \<Rightarrow> prune_heights hs n s
      | Some _ \<Rightarrow> prune_heights hs (n + 1) (s\<lparr>sp_blocks := hm_remove h (sp_blocks s), sp_heights := remove1 h (sp_heights s)\<rparr>))"

definition prune :: "u64 list \<Rightarrow> state_pruner \<Rightarrow> nat \<times> state_pruner" where
  "prune heights s = prune_heights heights 0 s"

definition get_archive :: "state_pruner \<Rightarrow> u64 \<Rightarrow> block_archive option" where
  "get_archive s h = map_of (sp_blocks s) h"

definition get_stats :: "state_pruner \<Rightarrow> archive_stats" where
  "get_stats s =
     \<lparr>as_total_blocks = of_nat (length (sp_blocks s)), as_total_size_bytes = total ba_block_size_bytes (sp_blocks s),
      as_earliest_height = (if sp_heights s = [] then 0 else hd (sp_heights s)),
      as_latest_height = (if sp_heights s = [] then 0 else last (sp_heights s))\<rparr>"

definition verify_archive :: "state_pruner \<Rightarrow> u64 \<Rightarrow> bytes32 \<Rightarrow> bool" where
  "verify_archive s h expected = (case map_of (sp_blocks s) h of None \<Rightarrow> False | Some a \<Rightarrow> ba_hash a = expected)"

section \<open>Synchronization\<close>

datatype sync_request_type = Headers | Blocks | StateOnly | AllParts

record sync_request =
  sr_start_height :: u64
  sr_end_height :: u64
  sr_peer_id :: bytes32
  sr_request_type :: sync_request_type

definition sync_request_new :: "u64 \<Rightarrow> u64 \<Rightarrow> bytes32 \<Rightarrow> sync_request_type \<Rightarrow> sync_request" where
  "sync_request_new start_height end_height peer_id t =
     \<lparr>sr_start_height = start_height, sr_end_height = end_height, sr_peer_id = peer_id, sr_request_type = t\<rparr>"

definition request_headers :: "u64 \<Rightarrow> bytes32 \<Rightarrow> sync_request" where
  "request_headers height peer_id =
     \<lparr>sr_start_height = height, sr_end_height = height + 100, sr_peer_id = peer_id, sr_request_type = Headers\<rparr>"

definition request_state :: "u64 \<Rightarrow> bytes32 \<Rightarrow> sync_request" where
  "request_state height peer_id =
     \<lparr>sr_start_height = height, sr_end_height = height, sr_peer_id = peer_id, sr_request_type = StateOnly\<rparr>"

record sync_header =
  sh_height :: u64
  sh_hash :: bytes32
  sh_parent_hash :: bytes32
  sh_timestamp :: u64
  sh_validator_set_hash :: bytes32

definition header_from_block :: "(block \<Rightarrow> bytes32) \<Rightarrow> block \<Rightarrow> sync_header" where
  "header_from_block block_hash b =
     \<lparr>sh_height = bh_height (b_header b), sh_hash = block_hash b, sh_parent_hash = bh_parent_hash (b_header b),
      sh_timestamp = bh_timestamp (b_header b), sh_validator_set_hash = bh_validator_set_hash (b_header b)\<rparr>"

record state_sync =
  ss_pending_requests :: "(u64 \<times> sync_request) list"
  ss_received_headers :: "sync_header list"
  ss_received_blocks :: "block list"

definition state_sync_new :: state_sync where
  "state_sync_new = \<lparr>ss_pending_requests = [], ss_received_headers = [], ss_received_blocks = []\<rparr>"

definition request_sync :: "u64 \<Rightarrow> bytes32 \<Rightarrow> state_sync \<Rightarrow> sync_request \<times> state_sync" where
  "request_sync height peer_id s =
     (let r = request_headers height peer_id in (r, s\<lparr>ss_pending_requests := hm_insert height r (ss_pending_requests s)\<rparr>))"

text \<open>The loop both \<open>process_headers\<close> and \<open>process_blocks\<close> run: an item is kept when nothing of its height is there.\<close>

fun receive_items :: "('x \<Rightarrow> u64) \<Rightarrow> 'x list \<Rightarrow> 'x list \<Rightarrow> u64 list \<Rightarrow> 'x list \<times> u64 list" where
  "receive_items height [] received heights = (received, heights)"
| "receive_items height (x # xs) received heights =
     (if list_ex (\<lambda>y. height y = height x) received then receive_items height xs received heights
      else receive_items height xs (received @ [x]) (heights @ [height x]))"

definition process_headers :: "sync_header list \<Rightarrow> state_sync \<Rightarrow> u64 list \<times> state_sync" where
  "process_headers headers s =
     (let (received, heights) = receive_items sh_height headers (ss_received_headers s) []
      in (sort heights, s\<lparr>ss_received_headers := received\<rparr>))"

definition process_blocks :: "block list \<Rightarrow> state_sync \<Rightarrow> u64 list \<times> state_sync" where
  "process_blocks blocks s =
     (let (received, heights) = receive_items (\<lambda>b. bh_height (b_header b)) blocks (ss_received_blocks s) []
      in (sort heights, s\<lparr>ss_received_blocks := received\<rparr>))"

text \<open>\<open>(from..=to).filter(..)\<close>\<close>

definition get_missing_heights :: "u64 \<Rightarrow> u64 \<Rightarrow> state_sync \<Rightarrow> u64 list" where
  "get_missing_heights from_height to_height s =
     [h \<leftarrow> map of_nat [unat from_height..<Suc (unat to_height)]. h \<notin> sh_height ` set (ss_received_headers s)]"

definition is_synced :: "u64 \<Rightarrow> state_sync \<Rightarrow> bool" where
  "is_synced target_height s \<longleftrightarrow> target_height \<le> fold max (map sh_height (ss_received_headers s)) 0"

definition sync_clear :: "state_sync \<Rightarrow> state_sync" where
  "sync_clear s = s\<lparr>ss_received_headers := [], ss_received_blocks := [], ss_pending_requests := []\<rparr>"

record light_state =
  ls_height :: u64
  ls_hash :: bytes32
  ls_state_root :: bytes32
  ls_validator_set_hash :: bytes32
  ls_app_hash :: bytes32

definition light_state_new :: "(block \<Rightarrow> bytes32) \<Rightarrow> u64 \<Rightarrow> block \<Rightarrow> bytes32 \<Rightarrow> light_state" where
  "light_state_new block_hash height b app_hash =
     \<lparr>ls_height = height, ls_hash = block_hash b, ls_state_root = bh_state_root (b_header b),
      ls_validator_set_hash = bh_validator_set_hash (b_header b), ls_app_hash = app_hash\<rparr>"

definition light_verify :: "light_state \<Rightarrow> light_state \<Rightarrow> bool" where
  "light_verify a b \<longleftrightarrow> ls_height a = ls_height b \<and> ls_hash a = ls_hash b \<and> ls_state_root a = ls_state_root b"

section \<open>The archive\<close>

inductive pruner_step :: "state_pruner \<Rightarrow> state_pruner \<Rightarrow> bool" where
  step_archive: "pruner_step s (archive_block height hash root sz n s)"
| step_prune: "pruner_step s (snd (prune hs s))"

definition archive_ok :: "state_pruner \<Rightarrow> bool" where
  "archive_ok s \<longleftrightarrow> hm_wf (sp_blocks s) \<and> distinct (sp_heights s) \<and> set (sp_heights s) = dom (map_of (sp_blocks s)) \<and>
     (\<forall>h a. map_of (sp_blocks s) h = Some a \<longrightarrow> ba_height a = h)"

lemma prune_heights_effect:
  assumes "archive_ok s" "prune_heights hs n s = (m, s')"
  shows "archive_ok s' \<and> sp_config s' = sp_config s \<and> map_of (sp_blocks s') = map_of (sp_blocks s) |` (- set hs) \<and>
    m = n + card (set hs \<inter> set (sp_heights s)) \<and> sp_heights s' = [h \<leftarrow> sp_heights s. h \<notin> set hs]"
  using assms
proof (induction hs arbitrary: n s)
  case Nil
  then show ?case by (auto simp: fun_eq_iff restrict_map_def)
next
  case (Cons h hs)
  show ?case
  proof (cases "map_of (sp_blocks s) h")
    case None
    then have h: "h \<notin> set (sp_heights s)" using Cons.prems(1) by (auto simp: archive_ok_def)
    from Cons.IH [OF Cons.prems(1), of n] Cons.prems(2) None
    have "archive_ok s' \<and> sp_config s' = sp_config s \<and> map_of (sp_blocks s') = map_of (sp_blocks s) |` (- set hs) \<and>
      m = n + card (set hs \<inter> set (sp_heights s)) \<and> sp_heights s' = [h \<leftarrow> sp_heights s. h \<notin> set hs]" by simp
    then show ?thesis using None h by (auto simp: fun_eq_iff restrict_map_def intro: filter_cong)
  next
    case (Some a)
    define s1 where "s1 = s\<lparr>sp_blocks := hm_remove h (sp_blocks s), sp_heights := remove1 h (sp_heights s)\<rparr>"
    have h: "h \<in> set (sp_heights s)" using Some Cons.prems(1) by (auto simp: archive_ok_def)
    have d: "distinct (sp_heights s)" using Cons.prems(1) by (simp add: archive_ok_def)
    have ok: "archive_ok s1" using Cons.prems(1)
      by (auto simp: archive_ok_def s1_def hm.wf_remove set_remove1_eq split: if_splits)
    have hs1: "sp_heights s1 = [x \<leftarrow> sp_heights s. x \<noteq> h]" using d by (simp add: s1_def distinct_remove1_removeAll removeAll_filter_not_eq neq_commute)
    have "prune_heights hs (n + 1) s1 = (m, s')" using Cons.prems(2) Some by (simp add: s1_def)
    from Cons.IH [OF ok this] have r: "archive_ok s' \<and> sp_config s' = sp_config s1 \<and> map_of (sp_blocks s') = map_of (sp_blocks s1) |` (- set hs) \<and>
      m = n + 1 + card (set hs \<inter> set (sp_heights s1)) \<and> sp_heights s' = [h \<leftarrow> sp_heights s1. h \<notin> set hs]" .
    have "set (h # hs) \<inter> set (sp_heights s) = insert h (set hs \<inter> set (sp_heights s1))" using h hs1 by auto
    moreover have "h \<notin> set hs \<inter> set (sp_heights s1)" using hs1 by simp
    ultimately have c: "card (set (h # hs) \<inter> set (sp_heights s)) = 1 + card (set hs \<inter> set (sp_heights s1))" by simp
    have mp: "map_of (sp_blocks s1) |` (- set hs) = map_of (sp_blocks s) |` (- set (h # hs))"
      by (auto simp: fun_eq_iff restrict_map_def s1_def)
    have fl: "[x \<leftarrow> sp_heights s1. x \<notin> set hs] = [x \<leftarrow> sp_heights s. x \<notin> set (h # hs)]"
      by (simp add: hs1)
    have cfg: "sp_config s1 = sp_config s" by (simp add: s1_def)
    from r show ?thesis unfolding mp fl cfg c by (simp only: add.assoc simp_thms)
  qed
qed

interpretation archive_run: transition_system pruner_step archive_ok "\<lambda>s. \<exists>c. s = state_pruner_new c"
proof (unfold_locales, goal_cases)
  case (1 s s')
  then show ?case
  proof (induction rule: pruner_step.induct)
    case (step_archive s height hash root sz n)
    then show ?case by (auto simp: archive_ok_def archive_block_def hm.wf_insert split: if_splits)
  next
    case (step_prune s hs)
    then show ?case using prune_heights_effect [of s hs 0 _ "snd (prune hs s)"] by (metis prune_def prod.collapse)
  qed
next
  case (2 s)
  then show ?case by (auto simp: archive_ok_def state_pruner_new_def hm.wf_empty)
qed

section \<open>Received items\<close>

lemma receive_items_effect:
  assumes "receive_items f xs received heights = (received', heights')" "distinct (map f received)"
  shows "\<exists>new. received' = received @ new \<and> heights' = heights @ map f new \<and> distinct (map f received') \<and>
    f ` set received' = f ` set received \<union> f ` set xs \<and> set new \<subseteq> set xs"
  using assms
proof (induction xs arbitrary: received heights)
  case Nil
  then show ?case by auto
next
  case (Cons x xs)
  show ?case
  proof (cases "list_ex (\<lambda>y. f y = f x) received")
    case True
    then have "f x \<in> f ` set received" by (auto simp: list_ex_iff intro: rev_image_eqI)
    with Cons True show ?thesis by (fastforce simp: insert_absorb)
  next
    case False
    then have "f x \<notin> f ` set received" by (auto simp: list_ex_iff)
    with Cons.prems(2) have "distinct (map f (received @ [x]))" by simp
    from Cons.IH [OF _ this, of "heights @ [f x]"] Cons.prems(1) False obtain new where "received' = (received @ [x]) @ new" "heights' = (heights @ [f x]) @ map f new"
      "distinct (map f received')" "f ` set received' = f ` set (received @ [x]) \<union> f ` set xs" "set new \<subseteq> set xs" by auto
    then show ?thesis by (intro exI [of _ "x # new"]) auto
  qed
qed

inductive sync_step :: "state_sync \<Rightarrow> state_sync \<Rightarrow> bool" where
  "sync_step s (snd (request_sync h p s))"
| "sync_step s (snd (process_headers hs s))"
| "sync_step s (snd (process_blocks bs s))"
| "sync_step s (sync_clear s)"

definition sync_ok :: "state_sync \<Rightarrow> bool" where
  "sync_ok s \<longleftrightarrow> distinct (map sh_height (ss_received_headers s)) \<and> distinct (map (\<lambda>b. bh_height (b_header b)) (ss_received_blocks s))"

interpretation sync_run: transition_system sync_step sync_ok "\<lambda>s. s = state_sync_new"
proof (unfold_locales, goal_cases)
  case (1 s s')
  then show ?case
    by (induction rule: sync_step.induct)
      (auto simp: sync_ok_def request_sync_def process_headers_def process_blocks_def sync_clear_def Let_def
        split: prod.splits dest!: receive_items_effect)
next
  case (2 s)
  then show ?case by (simp add: sync_ok_def state_sync_new_def)
qed

section \<open>Properties\<close>

text \<open>Pruning what the pruner proposes keeps exactly the blocks at or above the retention height, when pruning is
  due, and everything otherwise; it reports the number of blocks it removed, and the stored archives are unchanged.\<close>

theorem prune_keeps_recent:
  assumes "pruner_step\<^sup>*\<^sup>* (state_pruner_new c) s" "prune (get_blocks_to_prune current s) s = (n, s')"
  shows "get_archive s' h = (if should_prune current s \<and> h < retention_height current s then None else get_archive s h) \<and>
    n = card {h. get_archive s h \<noteq> None \<and> get_archive s' h = None}"
proof -
  let ?hs = "get_blocks_to_prune current s"
  have ok: "archive_ok s" using archive_run.reachable_inv [OF assms(1)] by blast
  have hs: "set ?hs = {h. should_prune current s \<and> h < retention_height current s \<and> get_archive s h \<noteq> None}"
    using ok by (auto simp: get_blocks_to_prune_def retention_height_def archive_ok_def get_archive_def Let_def)
  from prune_heights_effect [OF ok, of ?hs 0 n s'] assms(2)
  have r: "map_of (sp_blocks s') = map_of (sp_blocks s) |` (- set ?hs)" "n = card (set ?hs \<inter> set (sp_heights s))"
    by (simp_all add: prune_def)
  have a: "get_archive s' h = (if should_prune current s \<and> h < retention_height current s then None else get_archive s h)" for h
    by (auto simp: get_archive_def r(1) hs restrict_map_def)
  have "set ?hs \<inter> set (sp_heights s) = {h. get_archive s h \<noteq> None \<and> get_archive s' h = None}"
    using ok by (auto simp: hs a archive_ok_def) (auto simp: get_archive_def)
  with a r(2) show ?thesis by simp
qed

theorem prune_keeps_recent_witness:
  "let s = archive_block 950 [2] [] 0 0 (archive_block 7 [1] [] 0 0 (state_pruner_new (with_retention 100 pruning_config_default)));
       s' = snd (prune (get_blocks_to_prune 1000 s) s)
   in get_archive s' 7 = None \<and> get_archive s' 950 \<noteq> None"
proof -
  let ?c = "with_retention 100 pruning_config_default"
  let ?s = "archive_block 950 [2] [] 0 0 (archive_block 7 [1] [] 0 0 (state_pruner_new ?c))"
  have "pruner_step\<^sup>*\<^sup>* (state_pruner_new ?c) ?s"
    by (rule converse_rtranclp_into_rtranclp [of pruner_step, OF step_archive], rule r_into_rtranclp [of pruner_step, OF step_archive])
  from prune_keeps_recent [OF this prod.collapse [symmetric], of 1000 7] prune_keeps_recent [OF this prod.collapse [symmetric], of 1000 950]
  show ?thesis
    by (simp add: Let_def should_prune_def retention_height_def archive_block_def state_pruner_new_def with_retention_def
        pruning_config_default_def saturating_sub_def get_archive_def)
qed

text \<open>After any headers are processed, the heights reported are the new ones, sorted and without repetition, the
  first header of each height is kept, and the missing heights of a range are exactly those for which no header was
  received.\<close>

theorem missing_heights_exact:
  assumes "sync_step\<^sup>*\<^sup>* state_sync_new s" "process_headers headers s = (heights, s')"
  shows "sorted heights \<and> distinct heights \<and> set heights = sh_height ` set headers - sh_height ` set (ss_received_headers s) \<and>
    (\<exists>new. ss_received_headers s' = ss_received_headers s @ new \<and> set new \<subseteq> set headers) \<and>
    set (get_missing_heights a b s') = {a..b} - sh_height ` (set (ss_received_headers s) \<union> set headers)"
proof -
  have "sync_ok s" by (rule sync_run.reachable_inv [OF assms(1) refl])
  then have d: "distinct (map sh_height (ss_received_headers s))" by (simp add: sync_ok_def)
  obtain rcv hts where rc: "receive_items sh_height headers (ss_received_headers s) [] = (rcv, hts)" by fastforce
  with assms(2) have e: "heights = sort hts" "ss_received_headers s' = rcv" by (auto simp: process_headers_def)
  from receive_items_effect [OF rc d] obtain new where new: "rcv = ss_received_headers s @ new" "hts = map sh_height new"
    "distinct (map sh_height rcv)" "sh_height ` set rcv = sh_height ` set (ss_received_headers s) \<union> sh_height ` set headers"
    "set new \<subseteq> set headers" by auto
  have "of_nat ` {unat a..<Suc (unat b)} = {a..b}"
  proof (rule set_eqI)
    fix x :: u64
    have "x \<in> {a..b} \<longleftrightarrow> unat x \<in> {unat a..<Suc (unat b)}" by (auto simp: word_le_nat_alt)
    moreover have "y \<in> {unat a..<Suc (unat b)} \<Longrightarrow> unat (of_nat y :: u64) = y" for y
      using le_less_trans [OF _ unat_lt_u64 [of b], of y] by (intro unat_of_nat_small) simp
    ultimately show "x \<in> of_nat ` {unat a..<Suc (unat b)} \<longleftrightarrow> x \<in> {a..b}" by (auto intro: image_eqI [of x _ "unat x"])
  qed
  then have m: "set (get_missing_heights a b s') = {a..b} - sh_height ` (set (ss_received_headers s) \<union> set headers)"
    using new(4) by (auto simp: get_missing_heights_def e(2) image_Un simp del: upt_Suc)
  have "set hts = sh_height ` set headers - sh_height ` set (ss_received_headers s)" using new by (auto simp: image_Un)
  with new e m show ?thesis by auto
qed

theorem missing_heights_exact_witness:
  "let h = \<lparr>sh_height = 3, sh_hash = [], sh_parent_hash = [], sh_timestamp = 0, sh_validator_set_hash = []\<rparr>
   in set (get_missing_heights 2 4 (snd (process_headers [h, h] state_sync_new))) = {2, 4}"
proof -
  let ?h = "\<lparr>sh_height = 3, sh_hash = [], sh_parent_hash = [], sh_timestamp = 0, sh_validator_set_hash = []\<rparr>"
  have "{2..4} - {3 :: u64} = {2, 4}"
  proof (rule set_eqI)
    fix x :: u64
    have "x \<in> {2..4} \<longleftrightarrow> unat x \<in> {2, 3, 4}" by (auto simp: word_le_nat_alt)
    then show "x \<in> {2..4} - {3} \<longleftrightarrow> x \<in> {2, 4}" by (auto simp: word_unat_eq_iff)
  qed
  with missing_heights_exact [OF rtranclp.rtrancl_refl prod.collapse [symmetric], of "[?h, ?h]" 2 4] show ?thesis
    by (simp add: Let_def state_sync_new_def)
qed

text \<open>The test for being synchronized looks at the highest header only: one header of the target height is enough,
  whatever is missing below it.\<close>

theorem synced_with_gaps:
  "let h = \<lparr>sh_height = 1000, sh_hash = [], sh_parent_hash = [], sh_timestamp = 0, sh_validator_set_hash = []\<rparr>;
       s = snd (process_headers [h] state_sync_new)
   in is_synced 1000 s \<and> 1 \<in> set (get_missing_heights 1 1000 s)"
  by (simp add: process_headers_def state_sync_new_def is_synced_def get_missing_heights_def Let_def)
    (rule image_eqI [of _ _ 1], simp_all)

text \<open>The earliest and latest heights of the statistics are those archived first and last.\<close>

theorem stats_follow_insertion:
  "get_stats (archive_block 3 [] [] 0 0 (archive_block 8 [] [] 0 0 (state_pruner_new pruning_config_default))) =
     \<lparr>as_total_blocks = 2, as_total_size_bytes = 0, as_earliest_height = 8, as_latest_height = 3\<rparr>"
  by (simp add: get_stats_def archive_block_def state_pruner_new_def)

end
