(* ===== verification/Artifacts.thy ===== *)
theory Artifacts
  imports Prelude
begin

text \<open>
  The storage plane besides partitions and replicated data: the artifact store,
  \<open>crates/storage/src/artifact.rs\<close>, the compaction policies, \<open>compaction.rs\<close>, the memory plan,
  \<open>memory_model.rs\<close>, and the small partition table of \<open>partition.rs\<close>. The clock (in seconds) and the hash are
  arguments.
\<close>

section \<open>Artifacts\<close>

datatype storage_tier = Hot | Warm | Cold | Archived

record artifact =
  ar_id :: bytes32
  ar_content_hash :: bytes32
  ar_size :: u64
  ar_created_at :: u64
  ar_pinned :: bool
  ar_replication_factor :: u32
  ar_storage_tier :: storage_tier
  ar_access_count :: u64
  ar_last_accessed :: u64

record artifact_metadata =
  am_content_type :: string
  am_description :: "string option"
  am_tags :: "string list"
  am_custom :: "(string \<times> string) list"

definition artifact_metadata_default :: artifact_metadata where
  "artifact_metadata_default =
     \<lparr>am_content_type = ''application/octet-stream'', am_description = None, am_tags = [], am_custom = []\<rparr>"

record integrity_proof =
  ip_artifact_id :: bytes32
  ip_content_hash :: bytes32
  ip_size :: u64
  ip_proof_data :: bytes
  ip_timestamp :: u64

text \<open>\<open>proof_data[..8]\<close> panics when there are fewer than eight bytes.\<close>

definition integrity_proof_verify :: "(bytes \<Rightarrow> bytes32) \<Rightarrow> integrity_proof \<Rightarrow> bool rust" where
  "integrity_proof_verify hash p =
     (let computed = hash (ip_artifact_id p @ ip_content_hash p @ to_le_bytes 8 (ip_size p))
      in if length (ip_proof_data p) < 8 then Panic else Return (take 8 computed = take 8 (ip_proof_data p)))"

record artifact_store =
  st_artifacts :: "(bytes32 \<times> artifact) list"
  st_index :: "(bytes32 \<times> bytes32 list) list"
  st_metadata :: "(bytes32 \<times> artifact_metadata) list"
  st_integrity_proofs :: "(bytes32 \<times> integrity_proof) list"

definition artifact_store_new :: artifact_store where
  "artifact_store_new = \<lparr>st_artifacts = [], st_index = [], st_metadata = [], st_integrity_proofs = []\<rparr>"

definition artifact_store_put :: "u64 \<Rightarrow> bytes32 \<Rightarrow> bytes32 \<Rightarrow> u64 \<Rightarrow> artifact_store \<Rightarrow> artifact \<times> artifact_store" where
  "artifact_store_put now i content_hash sz s =
     (let a = \<lparr>ar_id = i, ar_content_hash = content_hash, ar_size = sz, ar_created_at = now, ar_pinned = False,
               ar_replication_factor = 3, ar_storage_tier = Hot, ar_access_count = 0, ar_last_accessed = 0\<rparr>
      in (a, s\<lparr>st_artifacts := hm_insert i a (st_artifacts s), st_index := hm_push content_hash i (st_index s)\<rparr>))"

definition store_with_metadata ::
    "u64 \<Rightarrow> bytes32 \<Rightarrow> bytes32 \<Rightarrow> u64 \<Rightarrow> artifact_metadata \<Rightarrow> (string, artifact, artifact_store) op" where
  "store_with_metadata now i content_hash sz metadata s =
     (let a = \<lparr>ar_id = i, ar_content_hash = content_hash, ar_size = sz, ar_created_at = now, ar_pinned = False,
               ar_replication_factor = 3, ar_storage_tier = Hot, ar_access_count = 0, ar_last_accessed = now\<rparr>;
          p = \<lparr>ip_artifact_id = i, ip_content_hash = content_hash, ip_size = sz, ip_proof_data = replicate 8 0, ip_timestamp = now\<rparr>;
          s' = s\<lparr>st_artifacts := hm_insert i a (st_artifacts s), st_index := hm_push content_hash i (st_index s),
                 st_metadata := hm_insert i metadata (st_metadata s), st_integrity_proofs := hm_insert i p (st_integrity_proofs s)\<rparr>
      in case map_of (st_artifacts s') i of None \<Rightarrow> (Inl ''Artifact not found'', s') | Some b \<Rightarrow> (Inr b, s'))"

definition store_get :: "artifact_store \<Rightarrow> bytes32 \<Rightarrow> artifact option" where
  "store_get s i = map_of (st_artifacts s) i"

definition find_by_hash :: "bytes32 \<Rightarrow> artifact_store \<Rightarrow> artifact list" where
  "find_by_hash h s =
     (case map_of (st_index s) h of None \<Rightarrow> [] | Some ids \<Rightarrow> List.map_filter (map_of (st_artifacts s)) ids)"

text \<open>\<open>if let Some(artifact) = self.artifacts.get_mut(id)\<close> with a change, the shape of the four setters.\<close>

definition modify_artifact :: "(artifact \<Rightarrow> artifact) \<Rightarrow> bytes32 \<Rightarrow> (string, unit, artifact_store) op" where
  "modify_artifact f i s =
     (case map_of (st_artifacts s) i of
        Some a \<Rightarrow> (Inr (), s\<lparr>st_artifacts := hm_insert i (f a) (st_artifacts s)\<rparr>)
      | None \<Rightarrow> (Inl ''Artifact not found'', s))"

definition pin :: "bytes32 \<Rightarrow> (string, unit, artifact_store) op" where
  "pin = modify_artifact (\<lambda>a. a\<lparr>ar_pinned := True\<rparr>)"

definition unpin :: "bytes32 \<Rightarrow> (string, unit, artifact_store) op" where
  "unpin = modify_artifact (\<lambda>a. a\<lparr>ar_pinned := False\<rparr>)"

definition set_storage_tier :: "storage_tier \<Rightarrow> bytes32 \<Rightarrow> (string, unit, artifact_store) op" where
  "set_storage_tier tier = modify_artifact (\<lambda>a. a\<lparr>ar_storage_tier := tier\<rparr>)"

definition update_access :: "u64 \<Rightarrow> bytes32 \<Rightarrow> (string, unit, artifact_store) op" where
  "update_access now = modify_artifact (\<lambda>a. a\<lparr>ar_access_count := ar_access_count a + 1, ar_last_accessed := now\<rparr>)"

text \<open>What \<open>get_mut\<close> returns, and the store after the caller wrote through the reference.\<close>

definition store_get_mut :: "(artifact \<Rightarrow> artifact) \<Rightarrow> bytes32 \<Rightarrow> artifact_store \<Rightarrow> artifact option \<times> artifact_store" where
  "store_get_mut f i s =
     (case map_of (st_artifacts s) i of
        None \<Rightarrow> (None, s)
      | Some a \<Rightarrow> (Some a, s\<lparr>st_artifacts := hm_insert i (f a) (st_artifacts s)\<rparr>))"

definition get_by_tier :: "storage_tier \<Rightarrow> artifact_store \<Rightarrow> artifact list" where
  "get_by_tier tier s = [a \<leftarrow> map snd (st_artifacts s). ar_storage_tier a = tier]"

definition get_metadata :: "artifact_store \<Rightarrow> bytes32 \<Rightarrow> artifact_metadata option" where
  "get_metadata s i = map_of (st_metadata s) i"

definition store_verify_integrity :: "(bytes \<Rightarrow> bytes32) \<Rightarrow> bytes32 \<Rightarrow> artifact_store \<Rightarrow> bool rust" where
  "store_verify_integrity hash i s =
     (case map_of (st_artifacts s) i of
        None \<Rightarrow> Return False
      | Some a \<Rightarrow>
          (case map_of (st_integrity_proofs s) i of
             None \<Rightarrow> Return False
           | Some p \<Rightarrow>
               (case integrity_proof_verify hash p of
                  Panic \<Rightarrow> Panic
                | Return ok \<Rightarrow> Return (ok \<and> ip_content_hash p = ar_content_hash a))))"

definition get_integrity_proof :: "artifact_store \<Rightarrow> bytes32 \<Rightarrow> integrity_proof option" where
  "get_integrity_proof s i = map_of (st_integrity_proofs s) i"

definition evict_artifact :: "bytes32 \<Rightarrow> (string, artifact, artifact_store) op" where
  "evict_artifact i s =
     (case map_of (st_artifacts s) i of
        None \<Rightarrow> (Inl ''Artifact not found'', s)
      | Some a \<Rightarrow>
          (Inr a, s\<lparr>st_artifacts := hm_remove i (st_artifacts s),
            st_index := (case map_of (st_index s) (ar_content_hash a) of
                           None \<Rightarrow> st_index s
                         | Some ids \<Rightarrow> hm_insert (ar_content_hash a) [j \<leftarrow> ids. j \<noteq> i] (st_index s)),
            st_metadata := hm_remove i (st_metadata s),
            st_integrity_proofs := hm_remove i (st_integrity_proofs s)\<rparr>))"

definition list_pinned :: "artifact_store \<Rightarrow> artifact list" where
  "list_pinned s = [a \<leftarrow> map snd (st_artifacts s). ar_pinned a]"

definition list_unpinned :: "artifact_store \<Rightarrow> artifact list" where
  "list_unpinned s = [a \<leftarrow> map snd (st_artifacts s). \<not> ar_pinned a]"

definition get_eviction_candidates :: "nat \<Rightarrow> artifact_store \<Rightarrow> bytes32 list" where
  "get_eviction_candidates n s =
     map fst (take n (sort_key (\<lambda>(i, a). ar_last_accessed a)
       [(i, a) \<leftarrow> st_artifacts s. \<not> ar_pinned a \<and> ar_storage_tier a = Hot]))"

definition store_total_size :: "artifact_store \<Rightarrow> u64" where
  "store_total_size s = total ar_size (st_artifacts s)"

section \<open>Compaction\<close>

datatype compaction_tier = CHot | CWarm | CCold | CArchive

record compaction_policy =
  cp_tier :: compaction_tier
  cp_max_size_gb :: u64
  cp_min_age_blocks :: u64
  cp_compression :: bool

definition policy_hot :: compaction_policy where
  "policy_hot = \<lparr>cp_tier = CHot, cp_max_size_gb = 100, cp_min_age_blocks = 0, cp_compression = False\<rparr>"

definition policy_warm :: compaction_policy where
  "policy_warm = \<lparr>cp_tier = CWarm, cp_max_size_gb = 500, cp_min_age_blocks = 100, cp_compression = True\<rparr>"

definition policy_cold :: compaction_policy where
  "policy_cold = \<lparr>cp_tier = CCold, cp_max_size_gb = 2000, cp_min_age_blocks = 1000, cp_compression = True\<rparr>"

definition policy_archive :: compaction_policy where
  "policy_archive = \<lparr>cp_tier = CArchive, cp_max_size_gb = - 1, cp_min_age_blocks = 10000, cp_compression = True\<rparr>"

definition compactor_new :: "compaction_policy list" where
  "compactor_new = [policy_hot, policy_warm, policy_cold, policy_archive]"

definition should_compact :: "compaction_policy list \<Rightarrow> u64 \<Rightarrow> u64 \<Rightarrow> bool" where
  "should_compact c age_blocks current_size_gb = True"

definition select_tier :: "compaction_policy list \<Rightarrow> u64 \<Rightarrow> compaction_policy" where
  "select_tier c age_blocks =
     (if age_blocks < 100 then c ! 0 else if age_blocks < 1000 then c ! 1 else if age_blocks < 10000 then c ! 2 else c ! 3)"

section \<open>The memory plan\<close>

datatype memory_type = Ephemeral | RegionalMemory | Committed

datatype eviction_policy = LRU | LFU | FIFO

record memory_config =
  mc_memory_type :: memory_type
  mc_max_size_gb :: u64
  mc_eviction_policy :: eviction_policy

definition config_ephemeral :: memory_config where
  "config_ephemeral = \<lparr>mc_memory_type = Ephemeral, mc_max_size_gb = 16, mc_eviction_policy = LRU\<rparr>"

definition config_regional :: memory_config where
  "config_regional = \<lparr>mc_memory_type = RegionalMemory, mc_max_size_gb = 64, mc_eviction_policy = LFU\<rparr>"

definition config_committed :: memory_config where
  "config_committed = \<lparr>mc_memory_type = Committed, mc_max_size_gb = 256, mc_eviction_policy = FIFO\<rparr>"

record dual_plane_memory =
  dp_ephemeral :: memory_config
  dp_regional :: memory_config
  dp_committed :: memory_config

definition dual_plane_memory_new :: dual_plane_memory where
  "dual_plane_memory_new = \<lparr>dp_ephemeral = config_ephemeral, dp_regional = config_regional, dp_committed = config_committed\<rparr>"

fun config_for :: "dual_plane_memory \<Rightarrow> memory_type \<Rightarrow> memory_config" where
  "config_for m Ephemeral = dp_ephemeral m"
| "config_for m RegionalMemory = dp_regional m"
| "config_for m Committed = dp_committed m"

section \<open>The partition table\<close>

datatype table_partition_status = TActive | TMigrating | TQuarantined | TDeleted

record table_partition =
  tp_id :: u32
  tp_state_root :: bytes32
  tp_size :: u64
  tp_validator_count :: u32
  tp_status :: table_partition_status

type_synonym partition_table = "(u32 \<times> table_partition) list"

definition table_create :: "u32 \<Rightarrow> partition_table \<Rightarrow> partition_table" where
  "table_create i t =
     hm_insert i \<lparr>tp_id = i, tp_state_root = zero32, tp_size = 0, tp_validator_count = 0, tp_status = TActive\<rparr> t"

definition table_get :: "partition_table \<Rightarrow> u32 \<Rightarrow> table_partition option" where
  "table_get t i = map_of t i"

definition table_migrate :: "u32 \<Rightarrow> u32 \<Rightarrow> (string, unit, partition_table) op" where
  "table_migrate i target t =
     (case map_of t i of
        None \<Rightarrow> (Inl ''Partition not found'', t)
      | Some p \<Rightarrow>
          (let t1 = hm_insert target (p\<lparr>tp_id := target, tp_status := TMigrating\<rparr>) (hm_remove i t);
               t2 = (case map_of t1 target of None \<Rightarrow> t1 | Some q \<Rightarrow> hm_insert target (q\<lparr>tp_status := TActive\<rparr>) t1)
           in (Inr (), t2)))"

definition table_delete :: "u32 \<Rightarrow> (string, unit, partition_table) op" where
  "table_delete i t =
     (case map_of t i of
        Some p \<Rightarrow> (Inr (), hm_remove i (hm_insert i (p\<lparr>tp_status := TDeleted\<rparr>) t))
      | None \<Rightarrow> (Inl ''Partition not found'', t))"

section \<open>Runs of the store\<close>

text \<open>The calls, where the caller of \<open>get_mut\<close> leaves the id and the content hash as they are.\<close>

inductive store_step :: "artifact_store \<Rightarrow> artifact_store \<Rightarrow> bool" where
  step_put: "store_step s (snd (artifact_store_put now i h sz s))"
| step_meta: "store_step s (snd (store_with_metadata now i h sz md s))"
| step_pin: "store_step s (snd (pin i s))"
| step_unpin: "store_step s (snd (unpin i s))"
| step_tier: "store_step s (snd (set_storage_tier tier i s))"
| step_access: "store_step s (snd (update_access now i s))"
| step_mut: "(\<And>a. ar_id (f a) = ar_id a \<and> ar_content_hash (f a) = ar_content_hash a) \<Longrightarrow> store_step s (snd (store_get_mut f i s))"
| step_evict: "store_step s (snd (evict_artifact i s))"

text \<open>Every artifact is stored under its id, listed in the index under its content hash, and metadata and proofs belong
  to stored artifacts.\<close>

definition store_ok :: "artifact_store \<Rightarrow> bool" where
  "store_ok s \<longleftrightarrow> hm_wf (st_artifacts s) \<and> hm_wf (st_index s) \<and>
     (\<forall>i a. map_of (st_artifacts s) i = Some a \<longrightarrow> ar_id a = i \<and> i \<in> set (hm_lookup_list (st_index s) (ar_content_hash a))) \<and>
     (\<forall>i. map_of (st_artifacts s) i = None \<longrightarrow> map_of (st_metadata s) i = None \<and> map_of (st_integrity_proofs s) i = None)"

lemma store_ok_modify:
  assumes "store_ok s" "\<And>a. ar_id (f a) = ar_id a \<and> ar_content_hash (f a) = ar_content_hash a"
  shows "store_ok (snd (modify_artifact f i s))"
  using assms by (auto simp: store_ok_def modify_artifact_def hm.wf_insert split: option.splits)

lemma store_get_mut_modify: "snd (store_get_mut f i s) = snd (modify_artifact f i s)"
  by (simp add: store_get_mut_def modify_artifact_def split: option.split)

lemma store_ok_evict: "store_ok s \<Longrightarrow> store_ok (snd (evict_artifact i s))"
  by (auto simp: store_ok_def evict_artifact_def hm.wf_insert hm.wf_remove hm_lookup_list_def split: option.splits)
    (metis option.inject)

lemma store_ok_put: "store_ok s \<Longrightarrow> store_ok (snd (artifact_store_put now i h sz s))"
  by (auto simp: store_ok_def artifact_store_put_def Let_def hm.wf_insert lookup_list_push)

lemma store_ok_meta: "store_ok s \<Longrightarrow> store_ok (snd (store_with_metadata now i h sz md s))"
  by (auto simp: store_ok_def store_with_metadata_def Let_def hm.wf_insert lookup_list_push)

interpretation store_run: transition_system store_step store_ok "\<lambda>s. s = artifact_store_new"
proof (unfold_locales, goal_cases)
  case (1 s s')
  then show ?case
    by (induction rule: store_step.induct)
      (auto simp: store_ok_put store_ok_meta store_ok_evict pin_def unpin_def set_storage_tier_def update_access_def store_get_mut_modify
        intro: store_ok_modify)
next
  case (2 s)
  then show ?case by (simp add: store_ok_def artifact_store_new_def hm.wf_empty)
qed

lemma in_map_filter: "y \<in> set (List.map_filter f xs) \<longleftrightarrow> (\<exists>x \<in> set xs. f x = Some y)"
  by (induction xs) (auto simp: List.map_filter_simps split: option.splits)

lemma find_by_hash_iff: "a \<in> set (find_by_hash h s) \<longleftrightarrow> (\<exists>i \<in> set (hm_lookup_list (st_index s) h). store_get s i = Some a)"
  by (auto simp: find_by_hash_def hm_lookup_list_def in_map_filter store_get_def split: option.splits)

lemma map_filter_evicted:
  "(\<And>j a. m j = Some a \<Longrightarrow> ar_id a = j) \<Longrightarrow>
   List.map_filter (m(i := None)) ids = [a \<leftarrow> List.map_filter m ids. ar_id a \<noteq> i]"
  "List.map_filter (m(i := None)) [j \<leftarrow> ids. j \<noteq> i] = List.map_filter (m(i := None)) ids"
  by (induction ids) (auto simp: List.map_filter_simps split: option.splits)

lemma find_by_hash_evicted:
  assumes "store_ok s" "store_get s i = Some a"
  shows "find_by_hash h (snd (evict_artifact i s)) = [b \<leftarrow> find_by_hash h s. ar_id b \<noteq> i]"
proof -
  have ids: "ar_id b = j" if "map_of (st_artifacts s) j = Some b" for j b using assms(1) that by (simp add: store_ok_def)
  note gone = map_filter_evicted(1) [of "map_of (st_artifacts s)", OF ids]
  have "[b \<leftarrow> List.map_filter (map_of (st_artifacts s)) [j \<leftarrow> js. j \<noteq> i]. ar_id b \<noteq> i] =
      [b \<leftarrow> List.map_filter (map_of (st_artifacts s)) js. ar_id b \<noteq> i]" for js
    by (simp only: gone [symmetric] map_filter_evicted(2))
  with assms(2) show ?thesis
    by (auto simp: find_by_hash_def evict_artifact_def store_get_def gone split: option.splits)
qed

section \<open>Properties\<close>

text \<open>C32. In every store reached by its operations, with the references of \<open>get_mut\<close> leaving ids and content hashes alone,
  an artifact is stored under its id and found by its content hash. Evicting it takes it, its metadata and its proof
  away, and every search by hash then finds what it found before less this artifact; an index entry of an earlier
  content hash may stay, and leads to nothing.\<close>

theorem stored_artifact_found:
  assumes "store_step\<^sup>*\<^sup>* artifact_store_new s" "store_get s i = Some a"
  shows "ar_id a = i \<and> a \<in> set (find_by_hash (ar_content_hash a) s) \<and>
    (\<exists>s'. evict_artifact i s = (Inr a, s') \<and> store_get s' i = None \<and> get_metadata s' i = None \<and>
      get_integrity_proof s' i = None \<and> (\<forall>j. j \<noteq> i \<longrightarrow> store_get s' j = store_get s j) \<and>
      (\<forall>h. find_by_hash h s' = [b \<leftarrow> find_by_hash h s. ar_id b \<noteq> i]))"
proof -
  have ok: "store_ok s" by (rule store_run.reachable_inv [OF assms(1) refl])
  then have a: "ar_id a = i" "i \<in> set (hm_lookup_list (st_index s) (ar_content_hash a))"
    using assms(2) by (auto simp: store_ok_def store_get_def)
  define s' where "s' = snd (evict_artifact i s)"
  have e: "evict_artifact i s = (Inr a, s')" using assms(2) by (simp add: s'_def evict_artifact_def store_get_def)
  have g: "store_get s' i = None" "get_metadata s' i = None" "get_integrity_proof s' i = None"
    "\<forall>j. j \<noteq> i \<longrightarrow> store_get s' j = store_get s j"
    using e by (auto simp: evict_artifact_def store_get_def get_metadata_def get_integrity_proof_def split: option.splits)
  have "\<forall>h. find_by_hash h s' = [b \<leftarrow> find_by_hash h s. ar_id b \<noteq> i]"
    unfolding s'_def using find_by_hash_evicted [OF ok assms(2)] by blast
  with a assms(2) e g show ?thesis by (auto simp: find_by_hash_iff)
qed

theorem stored_artifact_found_witness:
  "let s = snd (artifact_store_put 5 [1] [2] 10 artifact_store_new)
   in \<exists>a. store_get s [1] = Some a \<and> a \<in> set (find_by_hash [2] s)"
proof -
  let ?s = "snd (artifact_store_put 5 [1] [2] 10 artifact_store_new)"
  obtain a where a: "store_get ?s [1] = Some a" "ar_content_hash a = [2]"
    by (simp add: artifact_store_put_def artifact_store_new_def store_get_def Let_def)
  from stored_artifact_found [OF r_into_rtranclp [of store_step, OF step_put] a(1)] a show ?thesis by (simp add: Let_def)
qed

text \<open>The eviction candidates are distinct stored artifacts, hot and not pinned, at most as many as asked for and
  exactly that many where there are enough, and no artifact left out was accessed longer ago than a candidate.\<close>

theorem eviction_candidates_oldest:
  assumes "store_step\<^sup>*\<^sup>* artifact_store_new s"
  defines "evictable \<equiv> {i. \<exists>a. store_get s i = Some a \<and> \<not> ar_pinned a \<and> ar_storage_tier a = Hot}"
  defines "accessed \<equiv> \<lambda>i. case store_get s i of None \<Rightarrow> 0 | Some a \<Rightarrow> ar_last_accessed a"
  shows "distinct (get_eviction_candidates n s) \<and> set (get_eviction_candidates n s) \<subseteq> evictable \<and>
    length (get_eviction_candidates n s) = min n (card evictable) \<and>
    (\<forall>i \<in> set (get_eviction_candidates n s). \<forall>j \<in> evictable - set (get_eviction_candidates n s). accessed i \<le> accessed j)"
proof -
  have "store_ok s" by (rule store_run.reachable_inv [OF assms(1) refl])
  then have w: "hm_wf (st_artifacts s)" by (simp add: store_ok_def)
  let ?c = "[(i, a) \<leftarrow> st_artifacts s. \<not> ar_pinned a \<and> ar_storage_tier a = Hot]"
  let ?l = "sort_key (\<lambda>(i, a). ar_last_accessed a) ?c"
  have ev: "fst ` set ?c = evictable"
    using hm.entry_iff [OF w] by (auto simp: evictable_def store_get_def image_iff Bex_def)
  have dc: "distinct (map fst ?c)" using w by (simp add: hm_wf_def distinct_map_filter)
  then have dl: "distinct (map fst ?l)" unfolding distinct_map set_sort distinct_sort .
  have cand: "get_eviction_candidates n s = take n (map fst ?l)" by (simp add: get_eviction_candidates_def take_map)
  have card: "card evictable = length ?l" using distinct_card [OF dc] ev by simp
  have acc: "accessed i = ar_last_accessed a" if "(i, a) \<in> set ?c" for i a
    using that hm.entry_iff [OF w] by (auto simp: accessed_def store_get_def)
  have srt: "sorted (map (\<lambda>(i, a). ar_last_accessed a) (take n ?l @ drop n ?l))"
    unfolding append_take_drop_id by (rule sorted_sort_key)
  have "accessed i \<le> accessed j" if i: "i \<in> set (take n (map fst ?l))" and j: "j \<in> evictable - set (take n (map fst ?l))" for i j
  proof -
    obtain a where a: "(i, a) \<in> set (take n ?l)" using i by (auto simp: take_map)
    have "j \<in> fst ` set ?l" using j ev by simp
    then obtain b where "(j, b) \<in> set (take n ?l @ drop n ?l)" unfolding append_take_drop_id by auto
    moreover have "(j, b) \<notin> set (take n ?l)" using j by (force simp: take_map)
    ultimately have b: "(j, b) \<in> set (drop n ?l)" unfolding set_append by blast
    have "ar_last_accessed a \<le> ar_last_accessed b" using srt a b unfolding map_append sorted_append by fastforce
    then show ?thesis using acc [of i a] acc [of j b] in_set_takeD [OF a] in_set_dropD [OF b] by simp
  qed
  moreover have "set (take n (map fst ?l)) \<subseteq> evictable"
    using set_take_subset [of n "map fst ?l"] unfolding set_map set_sort ev .
  ultimately show ?thesis unfolding cand using dl card by (auto simp: min.commute)
qed

theorem eviction_candidates_oldest_witness:
  "length (get_eviction_candidates 5 (snd (artifact_store_put 5 [1] [2] 10 artifact_store_new))) = 1"
proof -
  let ?s = "snd (artifact_store_put 5 [1] [2] 10 artifact_store_new)"
  have "{i. \<exists>a. store_get ?s i = Some a \<and> \<not> ar_pinned a \<and> ar_storage_tier a = Hot} = {[1]}"
    by (auto simp: artifact_store_put_def artifact_store_new_def store_get_def Let_def split: if_splits)
  moreover have "store_step\<^sup>*\<^sup>* artifact_store_new ?s" by (rule r_into_rtranclp, rule step_put)
  ultimately show ?thesis using eviction_candidates_oldest [of ?s 5] by simp
qed

text \<open>The integrity check of a freshly stored artifact compares with eight zero bytes, so it fails unless the hash
  happens to begin with them.\<close>

theorem fresh_integrity_check:
  assumes "store_with_metadata now i h sz md s = (r, s')"
  shows "store_verify_integrity hash i s' = Return (take 8 (hash (i @ h @ to_le_bytes 8 sz)) = replicate 8 0)"
  using assms by (auto simp: store_with_metadata_def store_verify_integrity_def integrity_proof_verify_def Let_def)

text \<open>Storing an id again leaves it in the index under its old content hash, and pinning does not keep an artifact from
  being evicted.\<close>

theorem restored_artifact_found_by_old_hash:
  "let s = snd (artifact_store_put 5 [1] [3] 10 (snd (artifact_store_put 5 [1] [2] 10 artifact_store_new)))
   in map ar_content_hash (find_by_hash [2] s) = [[3]]"
  by (simp add: artifact_store_put_def artifact_store_new_def find_by_hash_def hm_push_def List.map_filter_def Let_def)

text \<open>A content hash changed through \<open>get_mut\<close> is not followed by the index: the artifact is not found by its new hash.\<close>

theorem rewritten_hash_not_found:
  "let s = snd (store_get_mut (\<lambda>a. a\<lparr>ar_content_hash := [3]\<rparr>) [1] (snd (artifact_store_put 5 [1] [2] 10 artifact_store_new)))
   in map_option ar_content_hash (store_get s [1]) = Some [3] \<and> find_by_hash [3] s = []"
  by (simp add: artifact_store_put_def artifact_store_new_def find_by_hash_def hm_push_def store_get_mut_def store_get_def Let_def)

theorem pinned_artifact_evicted:
  assumes "pin i s = (Inr (), s1)"
  shows "\<exists>a s2. evict_artifact i s1 = (Inr a, s2) \<and> ar_pinned a"
  using assms by (auto simp: pin_def modify_artifact_def evict_artifact_def split: option.splits)

text \<open>The compaction tier of an age is the oldest policy whose minimal age it has reached.\<close>

theorem select_tier_minimal_age:
  "cp_min_age_blocks (select_tier compactor_new age) \<le> age \<and>
   (\<forall>p \<in> set compactor_new. cp_min_age_blocks p \<le> age \<longrightarrow> cp_min_age_blocks p \<le> cp_min_age_blocks (select_tier compactor_new age))"
  by (auto simp: select_tier_def compactor_new_def policy_hot_def policy_warm_def policy_cold_def policy_archive_def
      word_less_nat_alt word_le_nat_alt)

end
