(* ===== verification/Merkle.thy ===== *)
theory Merkle
  imports Prelude
begin

text \<open>
  Keys, Merkle trees and key rotation, \<open>crates/truth/src/cryptography.rs\<close>. blake3 is the argument \<open>hash\<close>; Ed25519 is
  a record of the functions the source calls. The root of a tree is compared with a recursive definition by halves,
  in which a missing right half repeats the left one. The field \<open>height\<close> of the tree, which nothing reads, is left
  out.
\<close>

section \<open>Keys and signatures\<close>

text \<open>The functions of \<open>ed25519_dalek\<close>: the verifying key of a signing key, signing, the checks of \<open>from_bytes\<close> and
  \<open>from_slice\<close>, and verification.\<close>

record ed25519 =
  ed_verifying_key :: "bytes32 \<Rightarrow> bytes32"
  ed_sign :: "bytes32 \<Rightarrow> bytes \<Rightarrow> bytes"
  ed_key_ok :: "bytes32 \<Rightarrow> bool"
  ed_signature_ok :: "bytes \<Rightarrow> bool"
  ed_verify :: "bytes32 \<Rightarrow> bytes \<Rightarrow> bytes \<Rightarrow> bool"

record key_pair =
  kp_signing_key :: bytes32
  kp_verifying_key :: bytes32

definition key_pair_from_seed :: "ed25519 \<Rightarrow> bytes32 \<Rightarrow> key_pair" where
  "key_pair_from_seed ed seed = \<lparr>kp_signing_key = seed, kp_verifying_key = ed_verifying_key ed seed\<rparr>"

text \<open>\<open>generate\<close> takes the bytes of the signing key from the operating system.\<close>

definition key_pair_generate :: "ed25519 \<Rightarrow> bytes32 \<Rightarrow> key_pair" where
  "key_pair_generate ed random = \<lparr>kp_signing_key = random, kp_verifying_key = ed_verifying_key ed random\<rparr>"

definition key_pair_verify :: "ed25519 \<Rightarrow> key_pair \<Rightarrow> bytes \<Rightarrow> bytes \<Rightarrow> bool" where
  "key_pair_verify ed kp message signature =
     (if \<not> ed_signature_ok ed signature then False else ed_verify ed (kp_verifying_key kp) message signature)"

definition key_pair_sign :: "ed25519 \<Rightarrow> key_pair \<Rightarrow> bytes \<Rightarrow> bytes" where
  "key_pair_sign ed kp message = ed_sign ed (kp_signing_key kp) message"

definition public_key :: "key_pair \<Rightarrow> bytes32" where
  "public_key kp = kp_verifying_key kp"

definition verify_signature :: "ed25519 \<Rightarrow> bytes32 \<Rightarrow> bytes \<Rightarrow> bytes \<Rightarrow> bool" where
  "verify_signature ed pubkey message signature =
     (if \<not> ed_key_ok ed pubkey then False
      else if \<not> ed_signature_ok ed signature then False
      else ed_verify ed pubkey message signature)"

definition truth_hash_serializable :: "(bytes \<Rightarrow> bytes32) \<Rightarrow> ('a \<Rightarrow> bytes option) \<Rightarrow> 'a \<Rightarrow> bytes32" where
  "truth_hash_serializable hash serialize x =
     (case serialize x of Some encoded \<Rightarrow> hash encoded | None \<Rightarrow> zero32)"

definition verify_serializable_signature :: "ed25519 \<Rightarrow> ('a \<Rightarrow> bytes option) \<Rightarrow> bytes32 \<Rightarrow> 'a \<Rightarrow> bytes \<Rightarrow> bool" where
  "verify_serializable_signature ed serialize pubkey x signature =
     (case serialize x of Some encoded \<Rightarrow> verify_signature ed pubkey encoded signature | None \<Rightarrow> False)"

section \<open>Merkle trees\<close>

record merkle_node =
  mn_hash :: bytes32
  mn_is_left :: bool

record merkle_proof =
  mp_leaf_hash :: bytes32
  mp_path :: "merkle_node list"
  mp_root_hash :: bytes32

record hash_tree =
  ht_leaves :: "bytes32 list"
  ht_nodes :: "bytes32 list"

definition combine_hashes :: "(bytes \<Rightarrow> bytes32) \<Rightarrow> bytes32 \<Rightarrow> bytes32 \<Rightarrow> bytes32" where
  "combine_hashes hash left right = hash (left @ right)"

text \<open>One level: the loop over \<open>chunks(2)\<close>.\<close>

fun next_level :: "(bytes \<Rightarrow> bytes32) \<Rightarrow> bytes32 list \<Rightarrow> bytes32 list" where
  "next_level hash [] = []"
| "next_level hash [a] = [combine_hashes hash a a]"
| "next_level hash (a # b # r) = combine_hashes hash a b # next_level hash r"

lemma length_next_level [simp]: "length (next_level hash xs) = (length xs + 1) div 2"
  by (induction hash xs rule: next_level.induct) auto

text \<open>The levels from \<open>current_level\<close> on.\<close>

function levels_from :: "(bytes \<Rightarrow> bytes32) \<Rightarrow> bytes32 list \<Rightarrow> bytes32 list list" where
  "levels_from hash xs = (if 1 < length xs then xs # levels_from hash (next_level hash xs) else [xs])"
  by auto
termination
  by (relation "measure (length \<circ> snd)") auto

declare levels_from.simps [simp del]

definition hash_tree_new :: "(bytes \<Rightarrow> bytes32) \<Rightarrow> bytes32 list \<Rightarrow> hash_tree" where
  "hash_tree_new hash leaves =
     (if leaves = [] then \<lparr>ht_leaves = [], ht_nodes = []\<rparr>
      else \<lparr>ht_leaves = leaves, ht_nodes = concat (levels_from hash leaves)\<rparr>)"

definition hash_tree_root :: "hash_tree \<Rightarrow> bytes32 option" where
  "hash_tree_root t = (if ht_nodes t = [] then None else Some (last (ht_nodes t)))"

text \<open>One pass of the loop of \<open>proof\<close>, then the loop.\<close>

definition proof_node :: "bytes32 list \<Rightarrow> nat \<Rightarrow> merkle_node" where
  "proof_node level_leaves current_idx =
     (let is_left = (current_idx mod 2 = 1);
          sibling_idx = (if is_left then current_idx + 1 else if 0 < current_idx then current_idx - 1 else current_idx);
          sibling = (if sibling_idx < length level_leaves \<and> sibling_idx \<noteq> current_idx
                     then level_leaves ! sibling_idx else level_leaves ! current_idx)
      in \<lparr>mn_hash = sibling, mn_is_left = is_left\<rparr>)"

function proof_loop :: "(bytes \<Rightarrow> bytes32) \<Rightarrow> bytes32 list \<Rightarrow> nat \<Rightarrow> merkle_node list" where
  "proof_loop hash level_leaves i =
     (if 1 < length level_leaves
      then proof_node level_leaves i # proof_loop hash (next_level hash level_leaves) (i div 2) else [])"
  by auto
termination
  by (relation "measure (\<lambda>(hash, xs, i). length xs)") auto

declare proof_loop.simps [simp del]

definition hash_tree_proof :: "(bytes \<Rightarrow> bytes32) \<Rightarrow> hash_tree \<Rightarrow> nat \<Rightarrow> merkle_proof option" where
  "hash_tree_proof hash t index =
     (if length (ht_leaves t) \<le> index then None
      else case hash_tree_root t of None \<Rightarrow> None
      | Some root \<Rightarrow> Some \<lparr>mp_leaf_hash = ht_leaves t ! index, mp_path = proof_loop hash (ht_leaves t) index,
                          mp_root_hash = root\<rparr>)"

definition fold_node :: "(bytes \<Rightarrow> bytes32) \<Rightarrow> merkle_node \<Rightarrow> bytes32 \<Rightarrow> bytes32" where
  "fold_node hash node current =
     (if mn_is_left node then combine_hashes hash (mn_hash node) current
      else combine_hashes hash current (mn_hash node))"

definition tree_verify_proof :: "(bytes \<Rightarrow> bytes32) \<Rightarrow> merkle_proof \<Rightarrow> bool" where
  "tree_verify_proof hash p \<longleftrightarrow> fold (fold_node hash) (mp_path p) (mp_leaf_hash p) = mp_root_hash p"

section \<open>Key rotation\<close>

datatype key_rotation_type = Regular | Emergency | RotationSlashing

record key_rotation_record =
  kr_old_key :: bytes32
  kr_new_key :: bytes32
  kr_height :: u64
  kr_rotation_type :: key_rotation_type

record key_manager =
  km_current_key :: bytes32
  km_rotation_history :: "key_rotation_record list"

definition key_manager_new :: "bytes32 \<Rightarrow> key_manager" where
  "key_manager_new initial_key = \<lparr>km_current_key = initial_key, km_rotation_history = []\<rparr>"

definition key_rotate :: "bytes32 \<Rightarrow> u64 \<Rightarrow> key_rotation_type \<Rightarrow> key_manager \<Rightarrow> key_manager" where
  "key_rotate new_key height t km =
     km\<lparr>km_rotation_history := km_rotation_history km @
          [\<lparr>kr_old_key = km_current_key km, kr_new_key = new_key, kr_height = height, kr_rotation_type = t\<rparr>],
        km_current_key := new_key\<rparr>"

definition current_key :: "key_manager \<Rightarrow> bytes32" where
  "current_key km = km_current_key km"

text \<open>The loop over the history from the newest record on.\<close>

fun key_search :: "u64 \<Rightarrow> bytes32 \<Rightarrow> key_rotation_record list \<Rightarrow> bytes32" where
  "key_search height key [] = key"
| "key_search height key (r # rs) = (if kr_height r \<le> height then key else key_search height (kr_old_key r) rs)"

definition get_key_at_height :: "u64 \<Rightarrow> key_manager \<Rightarrow> bytes32 option" where
  "get_key_at_height height km = Some (key_search height (km_current_key km) (rev (km_rotation_history km)))"

section \<open>Lemmas\<close>

text \<open>The reference: the root over \<open>2 ^ k\<close> places, by halves.\<close>

fun half_root :: "(bytes \<Rightarrow> bytes32) \<Rightarrow> nat \<Rightarrow> bytes32 list \<Rightarrow> bytes32" where
  "half_root hash 0 xs = hd xs"
| "half_root hash (Suc k) xs =
     (if length xs \<le> 2 ^ k then hash (half_root hash k xs @ half_root hash k xs)
      else hash (half_root hash k (take (2 ^ k) xs) @ half_root hash k (drop (2 ^ k) xs)))"

text \<open>The path an honest prover sends: the other child of each parent, on its side.\<close>

definition sibling_node :: "bytes32 list \<Rightarrow> nat \<Rightarrow> merkle_node" where
  "sibling_node xs i =
     (if odd i then \<lparr>mn_hash = xs ! (i - 1), mn_is_left = True\<rparr>
      else \<lparr>mn_hash = (if i + 1 < length xs then xs ! (i + 1) else xs ! i), mn_is_left = False\<rparr>)"

function sibling_path :: "(bytes \<Rightarrow> bytes32) \<Rightarrow> bytes32 list \<Rightarrow> nat \<Rightarrow> merkle_node list" where
  "sibling_path hash xs i =
     (if 1 < length xs then sibling_node xs i # sibling_path hash (next_level hash xs) (i div 2) else [])"
  by auto
termination
  by (relation "measure (\<lambda>(hash, xs, i). length xs)") auto

declare sibling_path.simps [simp del]

text \<open>The inputs a tree hashes.\<close>

fun level_inputs :: "bytes32 list \<Rightarrow> bytes list" where
  "level_inputs [] = []"
| "level_inputs [a] = [a @ a]"
| "level_inputs (a # b # r) = (a @ b) # level_inputs r"

definition tree_inputs :: "(bytes \<Rightarrow> bytes32) \<Rightarrow> bytes32 list \<Rightarrow> bytes set" where
  "tree_inputs hash xs = (\<Union>l \<in> set (butlast (levels_from hash xs)). set (level_inputs l))"

lemma next_level_Nil [simp]: "next_level hash xs = [] \<longleftrightarrow> xs = []"
  by (cases "(hash, xs)" rule: next_level.cases) auto

lemma next_level_take: "next_level hash (take (2 * m) xs) = take m (next_level hash xs)"
proof (induction hash xs arbitrary: m rule: next_level.induct)
  case (2 hash a)
  then show ?case by (cases m) auto
next
  case (3 hash a b r)
  then show ?case by (cases m) auto
qed simp

lemma next_level_drop: "next_level hash (drop (2 * m) xs) = drop m (next_level hash xs)"
proof (induction hash xs arbitrary: m rule: next_level.induct)
  case (2 hash a)
  then show ?case by (cases m) auto
next
  case (3 hash a b r)
  then show ?case by (cases m) auto
qed simp

lemma half_root_level: "xs \<noteq> [] \<Longrightarrow> half_root hash (Suc k) xs = half_root hash k (next_level hash xs)"
proof (induction k arbitrary: xs)
  case 0
  then show ?case
    by (cases "(hash, xs)" rule: next_level.cases) (auto simp: combine_hashes_def not_le)
next
  case (Suc k)
  show ?case
  proof (cases "length xs \<le> 2 ^ Suc k")
    case True
    then have "length (next_level hash xs) \<le> 2 ^ k" by simp
    with True Suc show ?thesis by (simp del: half_root.simps(2) add: half_root.simps(2) [of _ "Suc k"] half_root.simps(2) [of _ k "next_level hash xs"])
  next
    case False
    then have "\<not> length (next_level hash xs) \<le> 2 ^ k" by simp
    moreover
    have "take (2 ^ Suc k) xs \<noteq> []" "drop (2 ^ Suc k) xs \<noteq> []" using False Suc.prems by auto
    then have "half_root hash (Suc k) (take (2 ^ Suc k) xs) = half_root hash k (take (2 ^ k) (next_level hash xs))"
      "half_root hash (Suc k) (drop (2 ^ Suc k) xs) = half_root hash k (drop (2 ^ k) (next_level hash xs))"
      using Suc.IH next_level_take [of hash "2 ^ k" xs] next_level_drop [of hash "2 ^ k" xs]
      by (metis power_Suc)+
    ultimately show ?thesis
      using False by (simp only: half_root.simps(2) [of _ "Suc k"] half_root.simps(2) [of _ k "next_level hash xs"] if_False)
  qed
qed

lemma levels_ne [simp]: "levels_from hash xs \<noteq> []"
  by (subst levels_from.simps) simp

lemma levels_last: "xs \<noteq> [] \<Longrightarrow> \<exists>r. last (levels_from hash xs) = [r]"
proof (induction hash xs rule: levels_from.induct)
  case (1 hash xs)
  then show ?case by (cases "1 < length xs") (auto simp: levels_from.simps [of hash xs] not_less length_Suc_conv le_Suc_eq)
qed

definition top_hash :: "(bytes \<Rightarrow> bytes32) \<Rightarrow> bytes32 list \<Rightarrow> bytes32" where
  "top_hash hash xs = hd (last (levels_from hash xs))"

lemma root_top: "xs \<noteq> [] \<Longrightarrow> hash_tree_root (hash_tree_new hash xs) = Some (top_hash hash xs)"
proof -
  assume "xs \<noteq> []"
  with levels_last [of xs hash] obtain r ys where "levels_from hash xs = ys @ [[r]]"
    by (metis append_butlast_last_id levels_ne)
  with \<open>xs \<noteq> []\<close> show ?thesis by (simp add: hash_tree_root_def hash_tree_new_def top_hash_def)
qed

lemma leaves_new [simp]: "ht_leaves (hash_tree_new hash xs) = xs"
  by (simp add: hash_tree_new_def)

lemma top_single [simp]: "top_hash hash [a] = a"
  by (simp add: top_hash_def levels_from.simps [of hash "[a]"])

lemma top_next: "1 < length xs \<Longrightarrow> top_hash hash xs = top_hash hash (next_level hash xs)"
  by (simp add: top_hash_def levels_from.simps [of hash xs])

lemma top_half_root: "xs \<noteq> [] \<Longrightarrow> length xs \<le> 2 ^ k \<Longrightarrow> 2 ^ k < 2 * length xs \<Longrightarrow> top_hash hash xs = half_root hash k xs"
proof (induction k arbitrary: xs)
  case 0
  then show ?case by (cases xs) auto
next
  case (Suc k)
  then have "1 < length xs" by (cases k) auto
  with Suc show ?case by (simp add: top_next half_root_level del: half_root.simps)
qed

lemma sibling_node_shift: "i < length r \<Longrightarrow> sibling_node (a # b # r) (Suc (Suc i)) = sibling_node r i"
  by (cases i) (auto simp: sibling_node_def)

lemma next_level_nth: "i < length xs \<Longrightarrow> fold_node hash (sibling_node xs i) (xs ! i) = next_level hash xs ! (i div 2)"
proof (induction hash xs arbitrary: i rule: next_level.induct)
  case (2 hash a)
  then show ?case by (simp add: fold_node_def sibling_node_def)
next
  case (3 hash a b r)
  consider "i = 0" | "i = 1" | j where "i = Suc (Suc j)" by (metis One_nat_def nat.exhaust)
  then show ?case
  proof cases
    case (3 j)
    with "3.prems" "3.IH" [of j] show ?thesis by (simp add: sibling_node_shift)
  qed (simp_all add: fold_node_def sibling_node_def)
qed simp

lemma sibling_path_top: "i < length xs \<Longrightarrow> fold (fold_node hash) (sibling_path hash xs i) (xs ! i) = top_hash hash xs"
proof (induction hash xs i rule: sibling_path.induct)
  case (1 hash xs i)
  show ?case
  proof (cases "1 < length xs")
    case True
    with 1 show ?thesis by (simp add: sibling_path.simps [of hash xs] next_level_nth top_next)
  next
    case False
    with "1.prems" obtain a where "xs = [a]" "i = 0" by (cases xs) auto
    then show ?thesis by (simp add: sibling_path.simps [of hash "[a]"])
  qed
qed

lemma level_inputs_hash: "next_level hash xs = map hash (level_inputs xs)"
  by (induction hash xs rule: next_level.induct) (auto simp: combine_hashes_def)

lemma level_inputs_inject:
  "length xs = length ys \<Longrightarrow> \<forall>h \<in> set xs \<union> set ys. length h = 32 \<Longrightarrow> level_inputs xs = level_inputs ys \<Longrightarrow> xs = ys"
proof (induction xs arbitrary: ys rule: level_inputs.induct)
  case (2 a)
  then show ?case by (cases ys rule: level_inputs.cases) auto
next
  case (3 a b r)
  then show ?case by (cases ys rule: level_inputs.cases) auto
qed simp

lemma tree_inputs_next: "1 < length xs \<Longrightarrow>
    tree_inputs hash xs = set (level_inputs xs) \<union> tree_inputs hash (next_level hash xs)"
  by (simp add: tree_inputs_def levels_from.simps [of hash xs])

lemma map_eq_collision: "map f xs = map f ys \<Longrightarrow> xs \<noteq> ys \<Longrightarrow> \<exists>u \<in> set xs. \<exists>v \<in> set ys. u \<noteq> v \<and> f u = f v"
proof (induction xs arbitrary: ys)
  case (Cons x xs)
  then obtain y zs where ys: "ys = y # zs" by (cases ys) auto
  show ?case
  proof (cases "x = y")
    case True
    with Cons.prems ys Cons.IH [of zs] show ?thesis by auto
  qed (use Cons.prems ys in auto)
qed simp

lemma equal_tops_collide:
  "length xs = length ys \<Longrightarrow> xs \<noteq> ys \<Longrightarrow> \<forall>h \<in> set xs \<union> set ys. length h = 32 \<Longrightarrow> \<forall>d. length (hash d) = 32 \<Longrightarrow>
    top_hash hash xs = top_hash hash ys \<Longrightarrow> \<exists>u \<in> tree_inputs hash xs. \<exists>v \<in> tree_inputs hash ys. u \<noteq> v \<and> hash u = hash v"
proof (induction hash xs arbitrary: ys rule: levels_from.induct)
  case (1 hash xs)
  show ?case
  proof (cases "1 < length xs")
    case False
    with 1(2-) have False by (cases xs; cases ys) auto
    then show ?thesis ..
  next
    case True
    then have y: "1 < length ys" using 1(2) by simp
    show ?thesis
    proof (cases "next_level hash xs = next_level hash ys")
      case same: True
      with level_inputs_inject 1(2-4) have "level_inputs xs \<noteq> level_inputs ys" by blast
      with same map_eq_collision show ?thesis
        unfolding level_inputs_hash tree_inputs_next [OF True] tree_inputs_next [OF y] by blast
    next
      case False
      have "\<forall>h \<in> set (next_level hash xs) \<union> set (next_level hash ys). length h = 32"
        using 1(5) by (auto simp: level_inputs_hash)
      from 1(1) [OF True _ False this] 1(2,5,6) True y show ?thesis
        by (fastforce simp: tree_inputs_next top_next)
    qed
  qed
qed

lemma key_search_append: "key_search height key (rs @ [r]) =
    (if \<exists>q \<in> set rs. kr_height q \<le> height then key_search height key rs
     else if kr_height r \<le> height then key_search height key rs else kr_old_key r)"
  by (induction height key rs rule: key_search.induct) auto

section \<open>Properties\<close>

text \<open>C29. The root a tree is built with, level by level with an odd last node repeated, is the root defined by
  halves: over \<open>2 ^ k\<close> places, where \<open>2 ^ k\<close> is the least power of two that holds the leaves, the left half and the
  right half are hashed together, and where there is no right half the left one is repeated.\<close>

theorem merkle_root_exact:
  assumes "leaves \<noteq> []" "length leaves \<le> 2 ^ k" "2 ^ k < 2 * length leaves"
  shows "hash_tree_root (hash_tree_new hash leaves) = Some (half_root hash k leaves)"
  using root_top [OF assms(1)] top_half_root [OF assms] by simp

definition example_digest :: "bytes \<Rightarrow> bytes32" where
  "example_digest d = take 32 (rev d @ zero32)"

theorem merkle_root_exact_witness:
  "hash_tree_root (hash_tree_new example_digest [[1], [2], [3]]) = Some (half_root example_digest 2 [[1], [2], [3]])"
  by (rule merkle_root_exact) simp_all

text \<open>C13. Two lists of as many 32-byte leaves with the same root are the same list, or two different inputs that were
  hashed in building the two trees have the same digest.\<close>

theorem merkle_root_binds:
  assumes "length xs = length ys" "\<forall>h \<in> set xs \<union> set ys. length h = 32" "\<forall>d. length (hash d) = 32"
    and "hash_tree_root (hash_tree_new hash xs) = hash_tree_root (hash_tree_new hash ys)"
  shows "xs = ys \<or> (\<exists>u \<in> tree_inputs hash xs. \<exists>v \<in> tree_inputs hash ys. u \<noteq> v \<and> hash u = hash v)"
proof (cases "xs = []")
  case False
  then have "ys \<noteq> []" using assms(1) by auto
  with False assms root_top equal_tops_collide [OF assms(1) _ assms(2,3)] show ?thesis by (metis option.inject)
qed (use assms(1) in simp)

theorem merkle_root_binds_witness:
  "let xs = [zero32, zero32]; ys = [replicate 32 1, zero32] in
   hash_tree_root (hash_tree_new (\<lambda>d. zero32) xs) = hash_tree_root (hash_tree_new (\<lambda>d. zero32) ys) \<and>
   (\<exists>u \<in> tree_inputs (\<lambda>d. zero32) xs. \<exists>v \<in> tree_inputs (\<lambda>d. zero32) ys. u \<noteq> v)"
proof -
  let ?xs = "[zero32, zero32]" and ?ys = "[replicate 32 1, zero32 :: bytes32]"
  have "hash_tree_root (hash_tree_new (\<lambda>d. zero32) ?xs) = hash_tree_root (hash_tree_new (\<lambda>d. zero32) ?ys)"
    by (simp add: root_top top_next combine_hashes_def)
  moreover have "?xs \<noteq> ?ys" by (simp add: replicate_eq_replicate)
  ultimately show ?thesis using merkle_root_binds [of ?xs ?ys "\<lambda>d. zero32"] by auto
qed

text \<open>Verification accepts, for every leaf of a tree, the leaf with the other child of each node on its way to the
  root.\<close>

theorem sibling_path_verifies:
  assumes "i < length leaves" "hash_tree_root (hash_tree_new hash leaves) = Some root"
  shows "tree_verify_proof hash \<lparr>mp_leaf_hash = leaves ! i, mp_path = sibling_path hash leaves i, mp_root_hash = root\<rparr>"
proof -
  have "leaves \<noteq> []" using assms(1) by auto
  with assms show ?thesis by (simp add: tree_verify_proof_def sibling_path_top root_top)
qed

theorem sibling_path_verifies_witness:
  "tree_verify_proof example_digest
     \<lparr>mp_leaf_hash = [2], mp_path = sibling_path example_digest [[1], [2], [3]] 1,
      mp_root_hash = top_hash example_digest [[1], [2], [3]]\<rparr>"
  using sibling_path_verifies [of 1 "[[1], [2], [3]]" example_digest] root_top [of "[[1], [2], [3]]" example_digest]
  by simp

text \<open>The proofs the tree itself produces are not these: for two leaves each leaf is paired with itself, so the
  proof of either leaf is accepted only if the two leaves, or a digest of two different inputs, coincide.\<close>

theorem two_leaf_proofs:
  "((case hash_tree_proof hash (hash_tree_new hash [a, b]) 0 of None \<Rightarrow> False | Some p \<Rightarrow> tree_verify_proof hash p) \<longleftrightarrow>
     hash (a @ a) = hash (a @ b)) \<and>
   ((case hash_tree_proof hash (hash_tree_new hash [a, b]) 1 of None \<Rightarrow> False | Some p \<Rightarrow> tree_verify_proof hash p) \<longleftrightarrow>
     hash (b @ b) = hash (a @ b))"
  by (simp add: hash_tree_proof_def root_top top_next proof_loop.simps [of hash "[a, b]"]
      proof_loop.simps [of hash "[c]" for c] proof_node_def tree_verify_proof_def
      fold_node_def combine_hashes_def)

text \<open>Repeating the last of an odd number of at least three leaves does not change the root, so a root does not
  determine how many leaves there are.\<close>

theorem repeated_leaf_same_root:
  assumes "odd (length leaves)" "3 \<le> length leaves"
  shows "hash_tree_root (hash_tree_new hash (leaves @ [last leaves])) = hash_tree_root (hash_tree_new hash leaves)"
proof -
  have "odd (length xs) \<Longrightarrow> next_level hash (xs @ [last xs]) = next_level hash xs" for xs
    by (induction hash xs rule: next_level.induct) auto
  with assms top_next [of "leaves @ [last leaves]" hash] top_next [of leaves hash] le_Suc_ex [OF assms(2)]
  have "top_hash hash (leaves @ [last leaves]) = top_hash hash leaves" by fastforce
  moreover have "leaves \<noteq> []" using assms(2) by auto
  ultimately show ?thesis by (simp add: root_top)
qed

theorem repeated_leaf_same_root_witness:
  "hash_tree_root (hash_tree_new example_digest [[1], [2], [3], [3]]) =
   hash_tree_root (hash_tree_new example_digest [[1], [2], [3]])"
  using repeated_leaf_same_root [of "[[1], [2], [3]]" example_digest] by simp

text \<open>After any rotations, the key at a height is that of the last rotation whose height is not above it, and the
  initial key if there is none.\<close>

theorem key_at_height:
  "get_key_at_height height (fold (\<lambda>(k, h, t). key_rotate k h t) rotations (key_manager_new initial_key)) =
     Some (last (initial_key # [k. (k, h, t) \<leftarrow> rotations, h \<le> height]))"
proof (induction rotations rule: rev_induct)
  case Nil
  show ?case by (simp add: get_key_at_height_def key_manager_new_def)
next
  case (snoc r rs)
  obtain k h t where "r = (k, h, t)" by (cases r)
  with snoc show ?case by (simp add: get_key_at_height_def key_rotate_def)
qed

text \<open>What a key pair signs verifies with the pair and with its public key, and verification with the public key
  accepts nothing else than the pair does, given that signing produces well-formed signatures that Ed25519 accepts and
  verifying keys are well-formed.\<close>

theorem signatures_verify:
  assumes "\<And>k. ed_key_ok ed (ed_verifying_key ed k)" "\<And>k m. ed_signature_ok ed (ed_sign ed k m)"
    and "\<And>k m. ed_verify ed (ed_verifying_key ed k) m (ed_sign ed k m)"
  shows "let kp = key_pair_from_seed ed seed in
    key_pair_verify ed kp m (key_pair_sign ed kp m) \<and>
    (\<forall>sig. verify_signature ed (public_key kp) m sig = key_pair_verify ed kp m sig)"
  using assms by (simp add: key_pair_from_seed_def key_pair_verify_def key_pair_sign_def verify_signature_def public_key_def)

theorem signatures_verify_witness:
  "let ed = \<lparr>ed_verifying_key = id, ed_sign = (\<lambda>k m. k @ m), ed_key_ok = (\<lambda>k. True), ed_signature_ok = (\<lambda>s. True),
             ed_verify = (\<lambda>k m s. s = k @ m)\<rparr>;
       kp = key_pair_from_seed ed [7]
   in key_pair_verify ed kp [1] (key_pair_sign ed kp [1]) \<and>
      (\<forall>sig. verify_signature ed (public_key kp) [1] sig = key_pair_verify ed kp [1] sig)"
  unfolding Let_def by (rule signatures_verify [unfolded Let_def]) simp_all

end
