(* ===== verification/Auditing.thy ===== *)
theory Auditing
  imports Prelude "HOL-Library.Char_ord"
begin

text \<open>
  Redaction of logged data, the hash-chained audit trail and replay bundles: \<open>crates/observability/src/redaction.rs\<close>
  and \<open>replay.rs\<close>. A string is the list of its UTF-8 bytes, so slicing it off a character boundary panics. blake3,
  \<open>hex\<close>, \<open>serde_json\<close>, \<open>bincode\<close>, the Unicode tables behind \<open>to_lowercase\<close> and the clock are arguments.
\<close>

section \<open>Strings\<close>

definition str_bytes :: "string \<Rightarrow> bytes" where
  "str_bytes s = map of_char s"

text \<open>\<open>contains\<close> with a string pattern.\<close>

fun str_contains :: "string \<Rightarrow> string \<Rightarrow> bool" where
  "str_contains pat [] \<longleftrightarrow> pat = []"
| "str_contains pat (c # s) \<longleftrightarrow> take (length pat) (c # s) = pat \<or> str_contains pat s"

text \<open>Slicing at a byte index needs a boundary: the ends, or a byte that does not continue a character.\<close>

definition is_char_boundary :: "string \<Rightarrow> nat \<Rightarrow> bool" where
  "is_char_boundary s i \<longleftrightarrow>
     i = 0 \<or> i = length s \<or> (i < length s \<and> ((of_char (s ! i) :: nat) < 128 \<or> 192 \<le> (of_char (s ! i) :: nat)))"

text \<open>Decimal output of an unsigned integer.\<close>

fun dec_string :: "nat \<Rightarrow> string" where
  "dec_string n = (if n < 10 then [char_of (48 + n)] else dec_string (n div 10) @ [char_of (48 + n mod 10)])"

declare dec_string.simps [simp del]

text \<open>\<open>iter().map(..).collect()\<close> where a pass may panic.\<close>

definition rust_bind :: "'a rust \<Rightarrow> ('a \<Rightarrow> 'b rust) \<Rightarrow> 'b rust" where
  "rust_bind m f = (case m of Panic \<Rightarrow> Panic | Return x \<Rightarrow> f x)"

lemma rust_bind_simps [simp]: "rust_bind (Return x) f = f x" "rust_bind Panic f = Panic"
  by (simp_all add: rust_bind_def)

lemma rust_bind_cong [fundef_cong]: "m = n \<Longrightarrow> (\<And>x. n = Return x \<Longrightarrow> f x = g x) \<Longrightarrow> rust_bind m f = rust_bind n g"
  by (cases n) auto

fun rust_map :: "('a \<Rightarrow> 'b rust) \<Rightarrow> 'a list \<Rightarrow> 'b list rust" where
  "rust_map f [] = Return []"
| "rust_map f (x # xs) = rust_bind (f x) (\<lambda>y. rust_bind (rust_map f xs) (\<lambda>ys. Return (y # ys)))"

lemma rust_map_cong [fundef_cong]: "xs = ys \<Longrightarrow> (\<And>x. x \<in> set ys \<Longrightarrow> f x = g x) \<Longrightarrow> rust_map f xs = rust_map g ys"
  by (induction ys arbitrary: xs) (auto cong: rust_bind_cong)

section \<open>Redaction\<close>

text \<open>\<open>serde_json::Value\<close>; a number is kept as its text, an object as its entries in the order of the keys.\<close>

datatype json = JNull | JBool bool | JNumber string | JString string | JArray "json list" | JObject "(string \<times> json) list"

datatype redaction_type = Hashed | Removed | Masked

record redact_env =
  re_lower :: "string \<Rightarrow> string"
  re_hex :: "bytes \<Rightarrow> string"
  re_hash :: "bytes \<Rightarrow> bytes32"

record redactor =
  rx_sensitive_fields :: "(string \<times> redaction_type) list"
  rx_custom_rules :: "((string \<Rightarrow> bool) \<times> redaction_type) list"

definition redactor_new :: redactor where
  "redactor_new =
     \<lparr>rx_sensitive_fields = fold (\<lambda>(k, t). hm_insert k t)
        [(''password'', Removed), (''api_key'', Removed), (''secret'', Removed), (''private_key'', Removed),
         (''token'', Removed), (''prompt'', Hashed), (''input'', Hashed), (''user_data'', Hashed), (''email'', Masked),
         (''phone'', Masked), (''address'', Masked)] [],
      rx_custom_rules = []\<rparr>"

definition add_sensitive_field :: "string \<Rightarrow> redaction_type \<Rightarrow> redactor \<Rightarrow> redactor" where
  "add_sensitive_field field t r = r\<lparr>rx_sensitive_fields := hm_insert field t (rx_sensitive_fields r)\<rparr>"

definition add_pattern_rule :: "(string \<Rightarrow> bool) \<Rightarrow> redaction_type \<Rightarrow> redactor \<Rightarrow> redactor" where
  "add_pattern_rule pattern t r = r\<lparr>rx_custom_rules := rx_custom_rules r @ [(pattern, t)]\<rparr>"

definition get_redaction_type :: "redact_env \<Rightarrow> redactor \<Rightarrow> string \<Rightarrow> redaction_type" where
  "get_redaction_type env r field_name =
     (case map_of (rx_sensitive_fields r) field_name of Some t \<Rightarrow> t
      | None \<Rightarrow>
        let lower = re_lower env field_name
        in if str_contains ''password'' lower \<or> str_contains ''secret'' lower \<or> str_contains ''key'' lower then Removed
           else if str_contains ''token'' lower \<or> str_contains ''private'' lower then Removed
           else Hashed)"

definition should_redact :: "redact_env \<Rightarrow> redactor \<Rightarrow> string \<Rightarrow> bool" where
  "should_redact env r field_name =
     (if map_of (rx_sensitive_fields r) field_name \<noteq> None then True
      else if list_ex (\<lambda>(pattern, t). pattern field_name) (rx_custom_rules r) then True
      else let lower = re_lower env field_name
           in str_contains ''secret'' lower \<or> str_contains ''key'' lower \<or> str_contains ''password'' lower \<or>
              str_contains ''token'' lower \<or> str_contains ''private'' lower)"

definition hash_string :: "redact_env \<Rightarrow> string \<Rightarrow> string" where
  "hash_string env input = re_hex env (take 8 (re_hash env (str_bytes input)))"

definition mask_string :: "string \<Rightarrow> string rust" where
  "mask_string input =
     (if length input \<le> 4 then Return (replicate (length input) (CHR ''*''))
      else let masked_len = length input - 2 - 2
           in if is_char_boundary input 2 \<and> is_char_boundary input (length input - 2)
              then Return (take 2 input @ ''**'' @ dec_string masked_len @ ''**'' @ drop (length input - 2) input)
              else Panic)"

fun as_str :: "json \<Rightarrow> string" where
  "as_str (JString s) = s"
| "as_str _ = []"

definition redact_value :: "redact_env \<Rightarrow> redactor \<Rightarrow> string \<Rightarrow> json \<Rightarrow> json rust" where
  "redact_value env r field_name v =
     (case get_redaction_type env r field_name of
        Removed \<Rightarrow> Return (JString ''[REDACTED]'')
      | Hashed \<Rightarrow> Return (JString (''[HASH:'' @ hash_string env (as_str v) @ '']''))
      | Masked \<Rightarrow> rust_bind (mask_string (as_str v)) (\<lambda>s. Return (JString s)))"

function redact_json :: "redact_env \<Rightarrow> redactor \<Rightarrow> json \<Rightarrow> json rust" where
  "redact_json env r (JObject m) =
     rust_bind (rust_map (\<lambda>e. rust_bind (if should_redact env r (fst e) then redact_value env r (fst e) (snd e)
                                        else redact_json env r (snd e)) (\<lambda>v. Return (fst e, v))) m)
       (\<lambda>es. Return (JObject (fold (\<lambda>(k, v). bt_insert k v) es [])))"
| "redact_json env r (JArray xs) = rust_bind (rust_map (redact_json env r) xs) (\<lambda>ys. Return (JArray ys))"
| "redact_json env r JNull = Return JNull"
| "redact_json env r (JBool b) = Return (JBool b)"
| "redact_json env r (JNumber n) = Return (JNumber n)"
| "redact_json env r (JString s) = Return (JString s)"
  by pat_completeness auto
termination
proof (relation "measure (\<lambda>(env, r, j). size j)", goal_cases)
  case (2 env r m e)
  then have "size (snd e) < Suc (size_list (size_prod (\<lambda>_. 0) size) m)"
    by (induction m) auto
  then show ?case by simp
next
  case (3 env r xs x)
  then show ?case by (simp add: less_Suc_eq_le size_list_estimation')
qed simp

definition redact_string :: "redact_env \<Rightarrow> (string \<Rightarrow> json option) \<Rightarrow> (json \<Rightarrow> string option) \<Rightarrow> redactor \<Rightarrow> string \<Rightarrow> string rust" where
  "redact_string env from_str to_str r input =
     rust_bind (redact_json env r (case from_str input of Some v \<Rightarrow> v | None \<Rightarrow> JString input))
       (\<lambda>redacted. Return (case to_str redacted of Some s \<Rightarrow> s | None \<Rightarrow> input))"

section \<open>The audit trail\<close>

record audit_entry =
  au_timestamp_ms :: u64
  au_event_type :: string
  au_actor :: "string option"
  au_action :: string
  au_details :: "(string \<times> json) list"
  au_hash :: "bytes32 option"

record audit_trail =
  at_entries :: "audit_entry list"
  at_immutability_enabled :: bool

definition audit_trail_new :: audit_trail where
  "audit_trail_new = \<lparr>at_entries = [], at_immutability_enabled = True\<rparr>"

definition with_immutability :: "bool \<Rightarrow> audit_trail \<Rightarrow> audit_trail" where
  "with_immutability enabled t = t\<lparr>at_immutability_enabled := enabled\<rparr>"

text \<open>The data hashed for an entry, after the hash of the entry before it.\<close>

definition entry_input :: "bytes32 \<Rightarrow> audit_entry \<Rightarrow> bytes" where
  "entry_input prev_hash e =
     prev_hash @ to_le_bytes 8 (au_timestamp_ms e) @ str_bytes (au_event_type e) @ str_bytes (au_action e) @
     (case au_actor e of Some actor \<Rightarrow> str_bytes actor | None \<Rightarrow> [])"

fun recompute_from :: "(bytes \<Rightarrow> bytes32) \<Rightarrow> bytes32 \<Rightarrow> audit_entry list \<Rightarrow> audit_entry list" where
  "recompute_from hash prev_hash [] = []"
| "recompute_from hash prev_hash (e # es) =
     (let h = hash (entry_input prev_hash e) in e\<lparr>au_hash := Some h\<rparr> # recompute_from hash h es)"

definition recompute_hashes :: "(bytes \<Rightarrow> bytes32) \<Rightarrow> audit_trail \<Rightarrow> audit_trail" where
  "recompute_hashes hash t = t\<lparr>at_entries := recompute_from hash zero32 (at_entries t)\<rparr>"

definition audit_append ::
    "(bytes \<Rightarrow> bytes32) \<Rightarrow> u64 \<Rightarrow> string \<Rightarrow> string \<Rightarrow> string option \<Rightarrow> (string \<times> json) list \<Rightarrow> audit_trail \<Rightarrow> audit_trail" where
  "audit_append hash timestamp_ms event_type action actor details t =
     (let entry = \<lparr>au_timestamp_ms = timestamp_ms, au_event_type = event_type, au_actor = actor, au_action = action,
                   au_details = details, au_hash = None\<rparr>;
          t' = t\<lparr>at_entries := at_entries t @ [entry]\<rparr>
      in if at_immutability_enabled t' then recompute_hashes hash t' else t')"

definition append_slashing_event :: "(bytes \<Rightarrow> bytes32) \<Rightarrow> u64 \<Rightarrow> string \<Rightarrow> string \<Rightarrow> string \<Rightarrow> audit_trail \<Rightarrow> audit_trail" where
  "append_slashing_event hash now validator_id reason evidence t =
     audit_append hash now ''slashing'' ''validator_slashed'' (Some ''system'')
       (fold (\<lambda>(k, v). hm_insert k (JString v))
          [(''validator_id'', validator_id), (''reason'', reason), (''evidence'', evidence)] []) t"

definition append_fraud_proof :: "(bytes \<Rightarrow> bytes32) \<Rightarrow> u64 \<Rightarrow> string \<Rightarrow> string \<Rightarrow> string \<Rightarrow> audit_trail \<Rightarrow> audit_trail" where
  "append_fraud_proof hash now job_id fraud_type proof_data t =
     audit_append hash now ''fraud'' ''fraud_proof_submitted'' (Some ''system'')
       (fold (\<lambda>(k, v). hm_insert k (JString v))
          [(''job_id'', job_id), (''fraud_type'', fraud_type), (''proof_data'', proof_data)] []) t"

definition append_governance_action :: "(bytes \<Rightarrow> bytes32) \<Rightarrow> u64 \<Rightarrow> string \<Rightarrow> (string \<times> json) list \<Rightarrow> audit_trail \<Rightarrow> audit_trail" where
  "append_governance_action hash now action params t =
     audit_append hash now ''governance'' action (Some ''governance'') params t"

definition append_partition_migration :: "(bytes \<Rightarrow> bytes32) \<Rightarrow> u64 \<Rightarrow> string \<Rightarrow> string \<Rightarrow> string \<Rightarrow> audit_trail \<Rightarrow> audit_trail" where
  "append_partition_migration hash now partition_id from_node to_node t =
     audit_append hash now ''partition'' ''migration'' (Some ''system'')
       (fold (\<lambda>(k, v). hm_insert k (JString v))
          [(''partition_id'', partition_id), (''from_node'', from_node), (''to_node'', to_node)] []) t"

fun verify_from :: "(bytes \<Rightarrow> bytes32) \<Rightarrow> bytes32 \<Rightarrow> audit_entry list \<Rightarrow> bool" where
  "verify_from hash expected_prev_hash [] = True"
| "verify_from hash expected_prev_hash (e # es) =
     (case au_hash e of
        None \<Rightarrow> verify_from hash expected_prev_hash es
      | Some h \<Rightarrow> if hash (entry_input expected_prev_hash e) \<noteq> h then False else verify_from hash h es)"

definition audit_verify :: "(bytes \<Rightarrow> bytes32) \<Rightarrow> audit_trail \<Rightarrow> bool" where
  "audit_verify hash t = verify_from hash zero32 (at_entries t)"

text \<open>The public calls on a trail.\<close>

inductive audit_step :: "(bytes \<Rightarrow> bytes32) \<Rightarrow> audit_trail \<Rightarrow> audit_trail \<Rightarrow> bool" for hash where
  "audit_step hash t (audit_append hash now event_type action actor details t)"
| "audit_step hash t (append_slashing_event hash now validator_id reason evidence t)"
| "audit_step hash t (append_fraud_proof hash now job_id fraud_type proof_data t)"
| "audit_step hash t (append_governance_action hash now action details t)"
| "audit_step hash t (append_partition_migration hash now partition_id from_node to_node t)"
| "audit_step hash t (with_immutability enabled t)"

section \<open>Replay\<close>

record replay_limits =
  rl_max_gpu_cycles :: u64
  rl_max_cpu_cycles :: u64
  rl_max_memory_bytes :: u64
  rl_max_execution_time_ms :: u64

definition replay_limits_default :: replay_limits where
  "replay_limits_default = \<lparr>rl_max_gpu_cycles = - 1, rl_max_cpu_cycles = - 1,
     rl_max_memory_bytes = 64 * 1024 * 1024 * 1024, rl_max_execution_time_ms = 300000\<rparr>"

record replay_kernel_version =
  kv_major :: u16
  kv_minor :: u16
  kv_patch :: u16

definition kernel_version_to_tuple :: "replay_kernel_version \<Rightarrow> u16 \<times> u16 \<times> u16" where
  "kernel_version_to_tuple v = (kv_major v, kv_minor v, kv_patch v)"

record replay_bundle =
  rb_version :: u16
  rb_job_id :: bytes32
  rb_kernel_id :: bytes32
  rb_kernel_version :: replay_kernel_version
  rb_deterministic_seed :: bytes32
  rb_input_hash :: bytes32
  rb_input_bytes :: bytes
  rb_initial_state_hash :: "bytes32 option"
  rb_execution_context :: bytes
  rb_expected_output_hash :: bytes32
  rb_resource_caps :: replay_limits
  rb_capture_timestamp_ms :: u64
  rb_capture_signature :: "bytes option"

definition replay_bundle_new ::
    "(bytes \<Rightarrow> bytes32) \<Rightarrow> u64 \<Rightarrow> bytes32 \<Rightarrow> bytes32 \<Rightarrow> replay_kernel_version \<Rightarrow> bytes32 \<Rightarrow> bytes \<Rightarrow> bytes32 option \<Rightarrow> bytes
      \<Rightarrow> replay_limits \<Rightarrow> replay_bundle" where
  "replay_bundle_new hash now job_id kernel_id kernel_version deterministic_seed input_bytes initial_state_hash
       execution_context resource_caps =
     \<lparr>rb_version = 1, rb_job_id = job_id, rb_kernel_id = kernel_id, rb_kernel_version = kernel_version,
      rb_deterministic_seed = deterministic_seed, rb_input_hash = hash input_bytes, rb_input_bytes = input_bytes,
      rb_initial_state_hash = initial_state_hash, rb_execution_context = execution_context,
      rb_expected_output_hash = zero32, rb_resource_caps = resource_caps, rb_capture_timestamp_ms = now,
      rb_capture_signature = None\<rparr>"

definition with_expected_output :: "bytes32 \<Rightarrow> replay_bundle \<Rightarrow> replay_bundle" where
  "with_expected_output output_hash b = b\<lparr>rb_expected_output_hash := output_hash\<rparr>"

definition with_signature :: "bytes \<Rightarrow> replay_bundle \<Rightarrow> replay_bundle" where
  "with_signature signature b = b\<lparr>rb_capture_signature := Some signature\<rparr>"

definition compute_bundle_hash :: "(bytes \<Rightarrow> bytes32) \<Rightarrow> replay_bundle \<Rightarrow> bytes32" where
  "compute_bundle_hash hash b =
     hash (to_le_bytes 2 (rb_version b) @ rb_job_id b @ rb_kernel_id b @ to_le_bytes 2 (kv_major (rb_kernel_version b)) @
       to_le_bytes 2 (kv_minor (rb_kernel_version b)) @ to_le_bytes 2 (kv_patch (rb_kernel_version b)) @
       rb_deterministic_seed b @ rb_input_hash b @ rb_input_bytes b @
       (case rb_initial_state_hash b of Some state_hash \<Rightarrow> state_hash | None \<Rightarrow> []) @ rb_execution_context b @
       rb_expected_output_hash b @ to_le_bytes 8 (rl_max_gpu_cycles (rb_resource_caps b)) @
       to_le_bytes 8 (rl_max_cpu_cycles (rb_resource_caps b)) @ to_le_bytes 8 (rl_max_memory_bytes (rb_resource_caps b)) @
       to_le_bytes 8 (rl_max_execution_time_ms (rb_resource_caps b)) @ to_le_bytes 8 (rb_capture_timestamp_ms b))"

datatype replay_error = InvalidVersion | InputHashMismatch | OutputHashMismatch | ExecutionTimeout | ResourceExceeded
  | NetworkRequired | DeterminismViolation | SignatureInvalid | ReplayStorageError string

definition bundle_verify :: "(bytes \<Rightarrow> bytes32) \<Rightarrow> replay_bundle \<Rightarrow> replay_error + unit" where
  "bundle_verify hash b =
     (if rb_version b = 0 then Inl InvalidVersion
      else if rb_input_hash b \<noteq> hash (rb_input_bytes b) then Inl InputHashMismatch
      else Inr ())"

definition to_canonical_bytes :: "(replay_bundle \<Rightarrow> bytes option) \<Rightarrow> replay_bundle \<Rightarrow> bytes" where
  "to_canonical_bytes serialize b = (case serialize b of Some bs \<Rightarrow> bs | None \<Rightarrow> [])"

record replay_usage =
  ru_gpu_cycles_used :: u64
  ru_cpu_cycles_used :: u64
  ru_memory_bytes_used :: u64

record replay_result =
  rr_job_id :: bytes32
  rr_execution_output_hash :: bytes32
  rr_execution_time_ms :: u64
  rr_resource_usage :: replay_usage
  rr_success :: bool
  rr_error_message :: "string option"

record replay_engine =
  rn_bundles :: "(bytes32 \<times> replay_bundle) list"
  rn_retention_window_blocks :: u64

definition replay_engine_new :: "u64 \<Rightarrow> replay_engine" where
  "replay_engine_new retention_window_blocks = \<lparr>rn_bundles = [], rn_retention_window_blocks = retention_window_blocks\<rparr>"

definition capture :: "(bytes \<Rightarrow> bytes32) \<Rightarrow> replay_bundle \<Rightarrow> (replay_error, bytes32, replay_engine) op" where
  "capture hash b s =
     (case bundle_verify hash b of Inl e \<Rightarrow> (Inl e, s)
      | Inr _ \<Rightarrow> (Inr (compute_bundle_hash hash b), s\<lparr>rn_bundles := hm_insert (rb_job_id b) b (rn_bundles s)\<rparr>))"

definition get_bundle :: "bytes32 \<Rightarrow> replay_engine \<Rightarrow> replay_bundle option" where
  "get_bundle job_id s = map_of (rn_bundles s) job_id"

definition verify_replay :: "bytes32 \<Rightarrow> bytes32 \<Rightarrow> replay_usage \<Rightarrow> replay_engine \<Rightarrow> replay_error + replay_result" where
  "verify_replay job_id output_hash usage s =
     (case map_of (rn_bundles s) job_id of
        None \<Rightarrow> Inl (ReplayStorageError ''Bundle not found'')
      | Some b \<Rightarrow>
          if output_hash \<noteq> rb_expected_output_hash b then
            Inr \<lparr>rr_job_id = job_id, rr_execution_output_hash = output_hash, rr_execution_time_ms = 0,
                 rr_resource_usage = usage, rr_success = False,
                 rr_error_message = Some ''Output hash mismatch - fraud detected''\<rparr>
          else if rl_max_gpu_cycles (rb_resource_caps b) < ru_gpu_cycles_used usage then Inl ResourceExceeded
          else if rl_max_cpu_cycles (rb_resource_caps b) < ru_cpu_cycles_used usage then Inl ResourceExceeded
          else if rl_max_memory_bytes (rb_resource_caps b) < ru_memory_bytes_used usage then Inl ResourceExceeded
          else Inr \<lparr>rr_job_id = job_id, rr_execution_output_hash = output_hash, rr_execution_time_ms = 0,
                    rr_resource_usage = usage, rr_success = True, rr_error_message = None\<rparr>)"

definition prune_old_bundles :: "u64 \<Rightarrow> u64 \<Rightarrow> replay_engine \<Rightarrow> replay_engine" where
  "prune_old_bundles current_block_height safe_window s =
     (let threshold = saturating_sub current_block_height safe_window
      in s\<lparr>rn_bundles := [e \<leftarrow> rn_bundles s. threshold < rb_capture_timestamp_ms (snd e) div 15000]\<rparr>)"

definition export_bundle :: "(replay_bundle \<Rightarrow> bytes option) \<Rightarrow> bytes32 \<Rightarrow> replay_engine \<Rightarrow> bytes option" where
  "export_bundle serialize job_id s = map_option (to_canonical_bytes serialize) (map_of (rn_bundles s) job_id)"

definition import_bundle ::
    "(bytes \<Rightarrow> bytes32) \<Rightarrow> (bytes \<Rightarrow> string + replay_bundle) \<Rightarrow> bytes \<Rightarrow> (replay_error, bytes32, replay_engine) op" where
  "import_bundle hash deserialize data s =
     (case deserialize data of Inl e \<Rightarrow> (Inl (ReplayStorageError e), s)
      | Inr b \<Rightarrow>
          (case bundle_verify hash b of Inl e \<Rightarrow> (Inl e, s)
           | Inr _ \<Rightarrow> (Inr (compute_bundle_hash hash b), s\<lparr>rn_bundles := hm_insert (rb_job_id b) b (rn_bundles s)\<rparr>)))"

definition seed_to_u64 :: "bytes32 \<Rightarrow> u64" where
  "seed_to_u64 seed = from_le_bytes (take 8 seed)"

definition deterministic_execute ::
    "bytes32 \<Rightarrow> bytes \<Rightarrow> replay_limits \<Rightarrow> (bytes \<Rightarrow> u64 \<Rightarrow> bytes) \<Rightarrow> replay_error + bytes" where
  "deterministic_execute seed input resource_caps f = Inr (f input (seed_to_u64 seed))"

inductive replay_step :: "(bytes \<Rightarrow> bytes32) \<Rightarrow> (bytes \<Rightarrow> string + replay_bundle) \<Rightarrow> replay_engine \<Rightarrow> replay_engine \<Rightarrow> bool"
  for hash deserialize where
  "replay_step hash deserialize s (snd (capture hash b s))"
| "replay_step hash deserialize s (snd (import_bundle hash deserialize data s))"
| "replay_step hash deserialize s (prune_old_bundles height window s)"

section \<open>Lemmas\<close>

text \<open>Two documents that differ only below fields that are removed.\<close>

definition removed_field :: "redact_env \<Rightarrow> redactor \<Rightarrow> string \<Rightarrow> bool" where
  "removed_field env r k \<longleftrightarrow> should_redact env r k \<and> get_redaction_type env r k = Removed"

inductive same_public :: "redact_env \<Rightarrow> redactor \<Rightarrow> json \<Rightarrow> json \<Rightarrow> bool" for env r where
  same_leaf: "same_public env r j j"
| same_array: "list_all2 (same_public env r) xs ys \<Longrightarrow> same_public env r (JArray xs) (JArray ys)"
| same_object: "list_all2 (\<lambda>e f. fst e = fst f \<and> (removed_field env r (fst e) \<or> same_public env r (snd e) (snd f))) m n \<Longrightarrow>
    same_public env r (JObject m) (JObject n)"

lemma rust_map_eq: "list_all2 (\<lambda>x y. f x = f y) xs ys \<Longrightarrow> rust_map f xs = rust_map f ys"
  by (induction rule: list_all2_induct) auto

lemma redact_removed: "removed_field env r k \<Longrightarrow> redact_value env r k v = Return (JString ''[REDACTED]'')"
  by (simp add: removed_field_def redact_value_def)

lemma same_public_str: "same_public env r j k \<Longrightarrow> as_str j = as_str k"
  by (erule same_public.cases) auto

lemma redact_same_str: "as_str u = as_str v \<Longrightarrow> redact_value env r k u = redact_value env r k v"
  by (auto simp: redact_value_def split: redaction_type.split)

lemma redact_entry:
  assumes "removed_field env r k \<or> same_public env r u v \<and> redact_json env r u = redact_json env r v"
  shows "(if should_redact env r k then redact_value env r k u else redact_json env r u) =
    (if should_redact env r k then redact_value env r k v else redact_json env r v)"
  using assms
proof
  assume "removed_field env r k"
  then show ?thesis by (simp add: redact_removed) (simp add: removed_field_def)
next
  assume a: "same_public env r u v \<and> redact_json env r u = redact_json env r v"
  then have "redact_value env r k u = redact_value env r k v" by (blast intro: redact_same_str same_public_str)
  with a show ?thesis by simp
qed

text \<open>The recomputed prefix of a trail; entries after it have no hash.\<close>

definition audit_ok :: "(bytes \<Rightarrow> bytes32) \<Rightarrow> audit_trail \<Rightarrow> bool" where
  "audit_ok hash t \<longleftrightarrow>
     (\<exists>es fs. at_entries t = recompute_from hash zero32 es @ fs \<and> (\<forall>e \<in> set fs. au_hash e = None))"

lemma verify_none: "\<forall>e \<in> set es. au_hash e = None \<Longrightarrow> verify_from hash h es"
  by (induction es) auto

lemma entry_input_hash [simp]: "entry_input h (e\<lparr>au_hash := x\<rparr>) = entry_input h e"
  by (simp add: entry_input_def)

lemma verify_recomputed:
  "\<forall>e \<in> set fs. au_hash e = None \<Longrightarrow> verify_from hash h (recompute_from hash h es @ fs)"
  by (induction es arbitrary: h) (auto simp: Let_def verify_none)

lemma audit_ok_append: "audit_ok hash t \<Longrightarrow> audit_ok hash (audit_append hash now event_type action actor details t)"
proof -
  let ?e = "\<lparr>au_timestamp_ms = now, au_event_type = event_type, au_actor = actor, au_action = action,
    au_details = details, au_hash = None\<rparr>"
  assume "audit_ok hash t"
  then obtain es fs where "at_entries t = recompute_from hash zero32 es @ fs" "\<forall>e \<in> set fs. au_hash e = None"
    by (auto simp: audit_ok_def)
  then have "at_entries t @ [?e] = recompute_from hash zero32 es @ fs @ [?e]" "\<forall>e \<in> set (fs @ [?e]). au_hash e = None"
    by auto
  then have "\<exists>es fs. at_entries t @ [?e] = recompute_from hash zero32 es @ fs \<and> (\<forall>e \<in> set fs. au_hash e = None)"
    by blast
  moreover have "\<exists>es fs. recompute_from hash zero32 xs = recompute_from hash zero32 es @ fs \<and> (\<forall>e \<in> set fs. au_hash e = None)" for xs
    by (intro exI [of _ xs] exI [of _ "[]"]) simp
  ultimately show ?thesis unfolding audit_ok_def audit_append_def Let_def recompute_hashes_def by simp
qed

lemma audit_step_ok: "audit_step hash t t' \<Longrightarrow> audit_ok hash t \<Longrightarrow> audit_ok hash t'"
  by (induction rule: audit_step.induct)
    (auto simp: audit_ok_append append_slashing_event_def append_fraud_proof_def append_governance_action_def
      append_partition_migration_def, simp add: audit_ok_def with_immutability_def)

lemma audit_ok_new: "audit_ok hash audit_trail_new"
  by (auto simp: audit_ok_def audit_trail_new_def intro: exI [of _ "[]"])

interpretation audit_run: transition_system "audit_step hash" "audit_ok hash" "\<lambda>t. t = audit_trail_new" for hash
  by unfold_locales (auto intro: audit_step_ok simp: audit_ok_new)

text \<open>The last hash of a trail, the inputs it hashed, and the text of an entry that the hash covers.\<close>

definition trail_tip :: "bytes32 \<Rightarrow> audit_entry list \<Rightarrow> bytes32" where
  "trail_tip h es = (if es = [] then h else the (au_hash (last es)))"

fun trail_inputs :: "bytes32 \<Rightarrow> audit_entry list \<Rightarrow> bytes list" where
  "trail_inputs h [] = []"
| "trail_inputs h (e # es) = entry_input h e # trail_inputs (the (au_hash e)) es"

definition covered :: "audit_entry \<Rightarrow> u64 \<times> bytes" where
  "covered e = (au_timestamp_ms e, str_bytes (au_event_type e) @ str_bytes (au_action e) @
     (case au_actor e of Some actor \<Rightarrow> str_bytes actor | None \<Rightarrow> []))"

lemma trail_tip_simps [simp]:
  "trail_tip h [] = h" "trail_tip h (e # es) = trail_tip (the (au_hash e)) es" "trail_tip h (es @ [e]) = the (au_hash e)"
  by (simp_all add: trail_tip_def)

lemma trail_inputs_snoc: "trail_inputs h (es @ [e]) = trail_inputs h es @ [entry_input (trail_tip h es) e]"
  by (induction es arbitrary: h) simp_all

lemma verify_snoc: "\<forall>e \<in> set (es @ [e]). au_hash e \<noteq> None \<Longrightarrow>
    verify_from hash h (es @ [e]) \<longleftrightarrow> verify_from hash h es \<and> au_hash e = Some (hash (entry_input (trail_tip h es) e))"
proof (induction es arbitrary: h)
  case (Cons a es)
  then obtain x where "au_hash a = Some x" by auto
  with Cons.IH [of x] Cons.prems show ?case by simp
qed auto

lemma trail_tip_length:
  "\<forall>d. length (hash d) = 32 \<Longrightarrow> \<forall>e \<in> set es. au_hash e \<noteq> None \<Longrightarrow> verify_from hash zero32 es \<Longrightarrow> length (trail_tip zero32 es) = 32"
  by (cases es rule: rev_cases) (simp_all add: verify_snoc)

lemma to_le_bytes_inject_u64: "to_le_bytes 8 (a :: u64) = to_le_bytes 8 b \<Longrightarrow> a = b"
  by (metis from_to_le_u64)

lemma entry_input_inject:
  "length h = length h' \<Longrightarrow> entry_input h e = entry_input h' f \<Longrightarrow> h = h' \<and> covered e = covered f"
  by (auto simp: entry_input_def covered_def dest: to_le_bytes_inject_u64)

lemma trails_agree:
  assumes "\<forall>d. length (hash d) = 32"
  shows "\<forall>e \<in> set es \<union> set fs. au_hash e \<noteq> None \<Longrightarrow>
    verify_from hash zero32 es \<Longrightarrow> verify_from hash zero32 fs \<Longrightarrow> trail_tip zero32 es = trail_tip zero32 fs \<Longrightarrow>
    map covered es = map covered fs \<or>
    (\<exists>u \<in> set (trail_inputs zero32 es). \<exists>v \<in> set (trail_inputs zero32 fs). u \<noteq> v \<and> hash u = hash v) \<or>
    (\<exists>u \<in> set (trail_inputs zero32 es) \<union> set (trail_inputs zero32 fs). hash u = zero32)"
proof (induction es arbitrary: fs rule: rev_induct)
  case Nil
  then show ?case by (cases fs rule: rev_cases) (auto simp: trail_inputs_snoc verify_snoc)
next
  case (snoc e es)
  show ?case
  proof (cases fs rule: rev_cases)
    case Nil
    with snoc.prems show ?thesis by (auto simp: trail_inputs_snoc verify_snoc)
  next
    case fs: (snoc fs' f)
    let ?u = "entry_input (trail_tip zero32 es) e" and ?v = "entry_input (trail_tip zero32 fs') f"
    have v: "verify_from hash zero32 es" "verify_from hash zero32 fs'" "hash ?u = hash ?v"
      using snoc.prems by (simp_all add: fs verify_snoc)
    show ?thesis
    proof (cases "?u = ?v")
      case True
      then have "trail_tip zero32 es = trail_tip zero32 fs'" "covered e = covered f"
        using entry_input_inject [OF _ True] trail_tip_length [OF assms _ v(1)] trail_tip_length [OF assms _ v(2)] snoc.prems(1)
        by (simp_all add: fs)
      with snoc.IH [OF _ v(1,2)] snoc.prems(1) show ?thesis by (auto simp: fs trail_inputs_snoc)
    qed (use v(3) in \<open>auto simp: fs trail_inputs_snoc\<close>)
  qed
qed

text \<open>The entries that carry a hash: verification skips the other ones.\<close>

definition hashed_entries :: "audit_trail \<Rightarrow> audit_entry list" where
  "hashed_entries t = [e \<leftarrow> at_entries t. au_hash e \<noteq> None]"

lemma verify_hashed: "verify_from hash h [e \<leftarrow> es. au_hash e \<noteq> None] = verify_from hash h es"
  by (induction es arbitrary: h) (auto split: option.split)

definition replay_ok :: "(bytes \<Rightarrow> bytes32) \<Rightarrow> replay_engine \<Rightarrow> bool" where
  "replay_ok hash s \<longleftrightarrow> hm_wf (rn_bundles s) \<and>
     (\<forall>(k, b) \<in> set (rn_bundles s). rb_job_id b = k \<and> bundle_verify hash b = Inr ())"

lemma replay_ok_put: "replay_ok hash s \<Longrightarrow> bundle_verify hash b = Inr () \<Longrightarrow>
    replay_ok hash (s\<lparr>rn_bundles := hm_insert (rb_job_id b) b (rn_bundles s)\<rparr>)"
  by (auto simp: replay_ok_def hm.wf_insert hm.set_insert)

lemma replay_step_ok: "replay_step hash deserialize s s' \<Longrightarrow> replay_ok hash s \<Longrightarrow> replay_ok hash s'"
  by (induction rule: replay_step.induct)
    (auto simp: capture_def import_bundle_def replay_ok_put split: sum.splits,
     auto simp: replay_ok_def prune_old_bundles_def hm_wf_def Let_def intro: distinct_map_filter)

interpretation replay_run: transition_system "replay_step hash deserialize" "replay_ok hash"
    "\<lambda>s. \<exists>w. s = replay_engine_new w" for hash deserialize
proof unfold_locales
  show "replay_step hash deserialize s s' \<Longrightarrow> replay_ok hash s \<Longrightarrow> replay_ok hash s'" for s s'
    by (rule replay_step_ok)
qed (auto simp: replay_ok_def replay_engine_new_def hm_wf_def)

section \<open>Properties\<close>

text \<open>C24. Nothing of a removed field reaches the redacted document: two documents that differ only in what stands below
  removed fields, however deep, have the same redaction.\<close>

theorem removed_fields_do_not_leak:
  "same_public env r j k \<Longrightarrow> redact_json env r j = redact_json env r k"
proof (induction rule: same_public.induct)
  case (same_array xs ys)
  then have "list_all2 (\<lambda>x y. redact_json env r x = redact_json env r y) xs ys" by (auto elim: list_all2_mono)
  then show ?case by (simp add: rust_map_eq)
next
  case (same_object m n)
  then have "list_all2 (\<lambda>e f. rust_bind (if should_redact env r (fst e) then redact_value env r (fst e) (snd e)
        else redact_json env r (snd e)) (\<lambda>v. Return (fst e, v)) =
      rust_bind (if should_redact env r (fst f) then redact_value env r (fst f) (snd f)
        else redact_json env r (snd f)) (\<lambda>v. Return (fst f, v))) m n"
    by (rule list_all2_mono) (elim conjE, drule redact_entry, simp only:)
  then show ?case unfolding redact_json.simps by (simp only: rust_map_eq)
qed simp

definition example_env :: redact_env where
  "example_env = \<lparr>re_lower = id, re_hex = map (\<lambda>b. char_of (unat b)), re_hash = (\<lambda>d. take 32 (d @ zero32))\<rparr>"

theorem removed_fields_do_not_leak_witness:
  "redact_json example_env redactor_new (JArray [JObject [(''password'', JString ''a''), (''user'', JNumber ''1'')]]) =
   redact_json example_env redactor_new (JArray [JObject [(''password'', JNull), (''user'', JNumber ''1'')]])"
  by (rule removed_fields_do_not_leak)
    (simp add: same_public.intros(1) same_array same_object removed_field_def should_redact_def get_redaction_type_def redactor_new_def)

text \<open>The redaction type given with a pattern rule has no effect: a field that only the pattern names is hashed.\<close>

theorem pattern_rule_type_ignored:
  "redact_value env (add_pattern_rule pattern t r) field_name v = redact_value env r field_name v \<and>
   (pattern field_name \<longrightarrow> should_redact env (add_pattern_rule pattern t r) field_name)"
  by (simp add: redact_value_def get_redaction_type_def add_pattern_rule_def should_redact_def)

theorem pattern_rule_type_ignored_witness:
  "should_redact example_env (add_pattern_rule (\<lambda>f. f = ''ssn'') Removed redactor_new) ''ssn'' \<and>
   redact_value example_env (add_pattern_rule (\<lambda>f. f = ''ssn'') Removed redactor_new) ''ssn'' JNull =
   Return (JString (''[HASH:'' @ hash_string example_env [] @ '']''))"
  using pattern_rule_type_ignored [of example_env "\<lambda>f. f = ''ssn''" Removed redactor_new "''ssn''" JNull]
  by (simp add: redact_value_def get_redaction_type_def redactor_new_def example_env_def)

text \<open>Masking panics on a string whose third byte is inside a character: three bytes that encode one character,
  twice, under an email field.\<close>

theorem masking_panics:
  "let s = map char_of [0xE6 :: nat, 0x97, 0xA5, 0xE6, 0x97, 0xA5] in
   redact_json example_env redactor_new (JObject [(''email'', JString s)]) = Panic"
  by (simp add: should_redact_def redact_value_def get_redaction_type_def redactor_new_def mask_string_def
      is_char_boundary_def of_char_of)

text \<open>A trail written by its own operations verifies, with recomputing switched on and off at any time.\<close>

theorem audit_trail_verifies:
  "(audit_step hash)\<^sup>*\<^sup>* audit_trail_new t \<Longrightarrow> audit_verify hash t"
  using audit_run.reachable_inv [of hash audit_trail_new t] by (auto simp: audit_ok_def audit_verify_def verify_recomputed)

theorem audit_trail_verifies_witness:
  "let t = append_fraud_proof id 2 ''job'' ''kind'' ''data'' (append_slashing_event id 1 ''v'' ''why'' ''proof'' audit_trail_new)
   in length (at_entries t) = 2 \<and> audit_verify id t"
proof -
  let ?t1 = "append_slashing_event id 1 ''v'' ''why'' ''proof'' audit_trail_new"
  let ?t2 = "append_fraud_proof id 2 ''job'' ''kind'' ''data'' ?t1"
  have "(audit_step id)\<^sup>*\<^sup>* audit_trail_new ?t2"
    by (rule converse_rtranclp_into_rtranclp [of "audit_step id", OF audit_step.intros(2)])
      (rule r_into_rtranclp [of "audit_step id", OF audit_step.intros(3)])
  from audit_trail_verifies [OF this] show ?thesis
    by (simp add: append_fraud_proof_def append_slashing_event_def audit_append_def recompute_hashes_def
        audit_trail_new_def Let_def)
qed

text \<open>C23. Two verified trails with the same last stored hash have equally many hashed entries, with the same times and, entry
  by entry, the same event type, action and actor read as one run-together text; or two different inputs hashed on the
  way have the same digest, or one of them has the all-zero digest of an empty trail. Entries without a hash and the
  details are not bound.\<close>

theorem audit_trail_binds:
  assumes "\<forall>d. length (hash d) = 32" and "audit_verify hash t" "audit_verify hash u"
    and "trail_tip zero32 (hashed_entries t) = trail_tip zero32 (hashed_entries u)"
  shows "map covered (hashed_entries t) = map covered (hashed_entries u) \<or>
    (\<exists>a \<in> set (trail_inputs zero32 (hashed_entries t)). \<exists>b \<in> set (trail_inputs zero32 (hashed_entries u)).
       a \<noteq> b \<and> hash a = hash b) \<or>
    (\<exists>a \<in> set (trail_inputs zero32 (hashed_entries t)) \<union> set (trail_inputs zero32 (hashed_entries u)). hash a = zero32)"
proof (rule trails_agree [OF assms(1) _ _ _ assms(4)])
  show "\<forall>e \<in> set (hashed_entries t) \<union> set (hashed_entries u). au_hash e \<noteq> None" by (auto simp: hashed_entries_def)
qed (use assms(2,3) in \<open>simp_all only: hashed_entries_def verify_hashed audit_verify_def\<close>)

text \<open>With a constant hash: an entry appended while recomputing is off is not bound, and a different time goes unseen
  because two different inputs have the same digest.\<close>

theorem audit_trail_binds_witness:
  "let h = (\<lambda>d. replicate 32 1); t = audit_append h 1 ''a'' ''b'' None [] audit_trail_new;
       u = audit_append h 2 ''c'' ''d'' None [] (with_immutability False t);
       w = audit_append h 2 ''a'' ''b'' None [] audit_trail_new
   in length (at_entries u) = 2 \<and> map covered (hashed_entries t) = map covered (hashed_entries u) \<and>
      map covered (hashed_entries t) \<noteq> map covered (hashed_entries w) \<and>
      (\<exists>a \<in> set (trail_inputs zero32 (hashed_entries t)). \<exists>b \<in> set (trail_inputs zero32 (hashed_entries w)). a \<noteq> b)"
proof -
  let ?h = "\<lambda>d. replicate 32 (1 :: u8)"
  let ?t = "audit_append ?h 1 ''a'' ''b'' None [] audit_trail_new"
  let ?u = "audit_append ?h 2 ''c'' ''d'' None [] (with_immutability False ?t)"
  let ?w = "audit_append ?h 2 ''a'' ''b'' None [] audit_trail_new"
  note defs = audit_verify_def audit_append_def audit_trail_new_def recompute_hashes_def covered_def hashed_entries_def with_immutability_def
  have z: "replicate 32 (1 :: u8) \<noteq> zero32" by (simp add: replicate_eq_replicate)
  have v: "audit_verify ?h ?t" "audit_verify ?h ?u" "audit_verify ?h ?w" "length (at_entries ?u) = 2"
    "map covered (hashed_entries ?t) \<noteq> map covered (hashed_entries ?w)"
    "trail_tip zero32 (hashed_entries ?t) = trail_tip zero32 (hashed_entries ?u)"
    "trail_tip zero32 (hashed_entries ?t) = trail_tip zero32 (hashed_entries ?w)"
    "set (trail_inputs zero32 (hashed_entries ?t)) = set (trail_inputs zero32 (hashed_entries ?u))"
    by (simp_all add: defs del: replicate.simps)
  have u: "map covered (hashed_entries ?t) = map covered (hashed_entries ?u)"
    using audit_trail_binds [OF _ v(1,2,6)] z by (auto simp: defs simp del: replicate.simps)
  have "\<exists>a \<in> set (trail_inputs zero32 (hashed_entries ?t)). \<exists>b \<in> set (trail_inputs zero32 (hashed_entries ?w)). a \<noteq> b"
    using audit_trail_binds [OF _ v(1,3,7)] v(5) z by auto
  with v(4,5) u show ?thesis by (simp add: Let_def del: replicate.simps)
qed

text \<open>Verification does not read the details, and an append hides every change made before it: it hashes the whole
  trail again.\<close>

theorem audit_changes_hidden:
  "audit_verify hash (t\<lparr>at_entries := map (\<lambda>e. e\<lparr>au_details := d e\<rparr>) (at_entries t)\<rparr>) = audit_verify hash t \<and>
   audit_verify hash (audit_append hash now event_type action actor details \<lparr>at_entries = es, at_immutability_enabled = True\<rparr>)"
proof -
  have "verify_from hash h (map (\<lambda>e. e\<lparr>au_details := d e\<rparr>) es) = verify_from hash h es" for h es
    by (induction es arbitrary: h) (auto simp: entry_input_def split: option.split)
  moreover have "verify_from hash h (recompute_from hash h es)" for h es
    using verify_recomputed [of "[]" hash h es] by simp
  ultimately show ?thesis by (simp add: audit_verify_def audit_append_def recompute_hashes_def)
qed

text \<open>Every bundle an engine holds verifies and is kept under its job; replaying with a job's expected output succeeds
  exactly within its three caps, any other output is reported as a failed replay, and a job without a bundle is an
  error.\<close>

theorem replay_exact:
  assumes "(replay_step hash deserialize)\<^sup>*\<^sup>* (replay_engine_new w) s" "get_bundle job_id s = Some b"
  shows "rb_job_id b = job_id \<and> bundle_verify hash b = Inr () \<and>
    (case verify_replay job_id output_hash usage s of
       Inl e \<Rightarrow> e = ResourceExceeded \<and> output_hash = rb_expected_output_hash b \<and>
         (rl_max_gpu_cycles (rb_resource_caps b) < ru_gpu_cycles_used usage \<or>
          rl_max_cpu_cycles (rb_resource_caps b) < ru_cpu_cycles_used usage \<or>
          rl_max_memory_bytes (rb_resource_caps b) < ru_memory_bytes_used usage)
     | Inr r \<Rightarrow> rr_job_id r = job_id \<and> (rr_success r \<longleftrightarrow> output_hash = rb_expected_output_hash b) \<and>
         (rr_success r \<longrightarrow> ru_gpu_cycles_used usage \<le> rl_max_gpu_cycles (rb_resource_caps b) \<and>
          ru_cpu_cycles_used usage \<le> rl_max_cpu_cycles (rb_resource_caps b) \<and>
          ru_memory_bytes_used usage \<le> rl_max_memory_bytes (rb_resource_caps b)))"
proof -
  have "replay_ok hash s" using replay_run.reachable_inv [OF assms(1)] by blast
  moreover have "(job_id, b) \<in> set (rn_bundles s)" using assms(2) by (simp add: get_bundle_def map_of_SomeD)
  ultimately show ?thesis using assms(2) by (auto simp: replay_ok_def verify_replay_def get_bundle_def)
qed

text \<open>The bundle of the examples below.\<close>

definition example_bundle :: "bytes32 option \<Rightarrow> bytes \<Rightarrow> replay_bundle" where
  "example_bundle state context = replay_bundle_new id 15000 [1] [2] \<lparr>kv_major = 1, kv_minor = 0, kv_patch = 0\<rparr> [3] [4] state context replay_limits_default"

theorem replay_exact_witness:
  "let s = snd (capture id (example_bundle None []) (replay_engine_new 100));
       usage = \<lparr>ru_gpu_cycles_used = 1, ru_cpu_cycles_used = 1, ru_memory_bytes_used = 1\<rparr>
   in get_bundle [1] s = Some (example_bundle None []) \<and>
      (case verify_replay [1] [9] usage s of Inl e \<Rightarrow> False | Inr r \<Rightarrow> \<not> rr_success r)"
proof -
  let ?s = "snd (capture id (example_bundle None []) (replay_engine_new 100))"
  have r: "(replay_step id deserialize)\<^sup>*\<^sup>* (replay_engine_new 100) ?s" for deserialize
    by (rule r_into_rtranclp [of "replay_step id deserialize", OF replay_step.intros(1)])
  have b: "get_bundle [1] ?s = Some (example_bundle None [])"
    by (simp add: get_bundle_def capture_def bundle_verify_def example_bundle_def replay_bundle_new_def replay_engine_new_def)
  have "rb_expected_output_hash (example_bundle None []) \<noteq> [9]"
    by (auto simp: example_bundle_def replay_bundle_new_def dest: arg_cong [of _ _ length])
  then show ?thesis using replay_exact [OF r b, of "[9]" "\<lparr>ru_gpu_cycles_used = 1, ru_cpu_cycles_used = 1, ru_memory_bytes_used = 1\<rparr>"] b
    by (auto simp: Let_def split: sum.splits)
qed

text \<open>An exported bundle is imported as it was, with the same hash, given that bincode reads back what it wrote.\<close>

theorem bundle_export_import:
  assumes "(replay_step hash deserialize)\<^sup>*\<^sup>* (replay_engine_new w) s" "get_bundle job_id s = Some b"
    and "serialize b = Some bs" "deserialize bs = Inr b"
  shows "export_bundle serialize job_id s = Some bs \<and>
    fst (import_bundle hash deserialize bs s') = Inr (compute_bundle_hash hash b) \<and>
    get_bundle job_id (snd (import_bundle hash deserialize bs s')) = Some b"
proof -
  have "replay_ok hash s" using replay_run.reachable_inv [OF assms(1)] by blast
  moreover have "(job_id, b) \<in> set (rn_bundles s)" using assms(2) by (simp add: get_bundle_def map_of_SomeD)
  ultimately have "rb_job_id b = job_id" "bundle_verify hash b = Inr ()" by (auto simp: replay_ok_def)
  with assms(2-) show ?thesis
    by (auto simp: export_bundle_def get_bundle_def to_canonical_bytes_def import_bundle_def)
qed

theorem bundle_export_import_witness:
  "export_bundle (\<lambda>b. Some [7]) [1] (snd (capture id (example_bundle None []) (replay_engine_new 100))) = Some [7]"
proof -
  let ?s = "snd (capture id (example_bundle None []) (replay_engine_new 100))"
  have r: "(replay_step id (\<lambda>d. Inr (example_bundle None [])))\<^sup>*\<^sup>* (replay_engine_new 100) ?s"
    by (rule r_into_rtranclp [of "replay_step id (\<lambda>d. Inr (example_bundle None []))", OF replay_step.intros(1)])
  have b: "get_bundle [1] ?s = Some (example_bundle None [])"
    by (simp add: get_bundle_def capture_def bundle_verify_def example_bundle_def replay_bundle_new_def replay_engine_new_def)
  show ?thesis using bundle_export_import [OF r b, of "\<lambda>b. Some [7]" "[7]"] by simp
qed

text \<open>The hash of a bundle does not separate an initial state from the start of the execution context, and does not
  cover the signature.\<close>

theorem bundle_hash_ambiguous:
  "compute_bundle_hash hash (example_bundle (Some h) c) = compute_bundle_hash hash (example_bundle None (h @ c)) \<and>
   compute_bundle_hash hash (with_signature sig b) = compute_bundle_hash hash b"
  by (simp add: compute_bundle_hash_def example_bundle_def replay_bundle_new_def with_signature_def)

end
