(* ===== verification/Telemetry.thy ===== *)
theory Telemetry
  imports Auditing
begin

text \<open>
  Health, metrics, traces and logs: \<open>health.rs\<close>, \<open>metrics.rs\<close>, \<open>tracing.rs\<close> and \<open>logging.rs\<close> of
  \<open>crates/observability/src\<close>. The lock of the tracer is a state of its own, so that waiting for a lock the caller
  itself holds is a value. The clock, random numbers, blake3 and \<open>hex\<close> are arguments; the text of the Prometheus and
  JSON exports is left out, and \<open>f64\<close> values are kept as their bits.
\<close>

section \<open>Health\<close>

datatype health_status = Healthy | Degraded | Unhealthy | Unknown

record health_check =
  hc_component :: string
  hc_status :: health_status
  hc_message :: "string option"
  hc_last_check :: u64
  hc_checks :: "(string \<times> health_status) list"

definition health_check_new :: "string \<Rightarrow> health_check" where
  "health_check_new component =
     \<lparr>hc_component = component, hc_status = Unknown, hc_message = None, hc_last_check = 0, hc_checks = []\<rparr>"

text \<open>The loop over the statuses that sets \<open>has_unhealthy\<close> and \<open>has_degraded\<close>.\<close>

definition scan_statuses :: "health_status list \<Rightarrow> bool \<times> bool" where
  "scan_statuses ss = fold (\<lambda>s (has_unhealthy, has_degraded).
     (case s of Unhealthy \<Rightarrow> (True, has_degraded) | Degraded \<Rightarrow> (has_unhealthy, True) | _ \<Rightarrow> (has_unhealthy, has_degraded)))
     ss (False, False)"

definition compute_overall_status :: "health_check \<Rightarrow> health_status" where
  "compute_overall_status h =
     (if hc_checks h = [] then Unknown
      else let (has_unhealthy, has_degraded) = scan_statuses (map snd (hc_checks h))
           in if has_unhealthy then Unhealthy else if has_degraded then Degraded else Healthy)"

definition health_check_update :: "u64 \<Rightarrow> string \<Rightarrow> health_status \<Rightarrow> string option \<Rightarrow> health_check \<Rightarrow> health_check" where
  "health_check_update now check_name status message h =
     (let h1 = h\<lparr>hc_checks := hm_insert check_name status (hc_checks h), hc_message := message, hc_last_check := now\<rparr>
      in h1\<lparr>hc_status := compute_overall_status h1\<rparr>)"

definition check_is_healthy :: "health_check \<Rightarrow> bool" where
  "check_is_healthy h \<longleftrightarrow> hc_status h = Healthy"

record health_report =
  hr_node_id :: bytes32
  hr_timestamp :: u64
  hr_truth_plane_status :: health_status
  hr_intelligence_plane_status :: health_status
  hr_network_status :: health_status
  hr_storage_status :: health_status
  hr_overall_status :: health_status
  hr_message :: "string option"

definition health_report_new :: "bytes32 \<Rightarrow> health_report" where
  "health_report_new node_id =
     \<lparr>hr_node_id = node_id, hr_timestamp = 0, hr_truth_plane_status = Unknown, hr_intelligence_plane_status = Unknown,
      hr_network_status = Unknown, hr_storage_status = Unknown, hr_overall_status = Unknown, hr_message = None\<rparr>"

definition with_truth_plane :: "health_status \<Rightarrow> health_report \<Rightarrow> health_report" where
  "with_truth_plane status r = r\<lparr>hr_truth_plane_status := status\<rparr>"

definition with_intelligence_plane :: "health_status \<Rightarrow> health_report \<Rightarrow> health_report" where
  "with_intelligence_plane status r = r\<lparr>hr_intelligence_plane_status := status\<rparr>"

definition with_network :: "health_status \<Rightarrow> health_report \<Rightarrow> health_report" where
  "with_network status r = r\<lparr>hr_network_status := status\<rparr>"

definition with_storage :: "health_status \<Rightarrow> health_report \<Rightarrow> health_report" where
  "with_storage status r = r\<lparr>hr_storage_status := status\<rparr>"

definition report_compute :: "u64 \<Rightarrow> health_report \<Rightarrow> health_report" where
  "report_compute now r =
     (let (has_unhealthy, has_degraded) = scan_statuses
            [hr_truth_plane_status r, hr_intelligence_plane_status r, hr_network_status r, hr_storage_status r]
      in r\<lparr>hr_timestamp := now,
           hr_overall_status := (if has_unhealthy then Unhealthy else if has_degraded then Degraded else Healthy)\<rparr>)"

definition report_is_healthy :: "health_report \<Rightarrow> bool" where
  "report_is_healthy r \<longleftrightarrow> hr_overall_status r = Healthy"

text \<open>The monitor: its checks by component.\<close>

type_synonym health_monitor = "(string \<times> health_check) list"

definition health_monitor_new :: health_monitor where
  "health_monitor_new = []"

definition register_component :: "string \<Rightarrow> health_monitor \<Rightarrow> health_monitor" where
  "register_component component m = hm_insert component (health_check_new component) m"

definition monitor_update :: "u64 \<Rightarrow> string \<Rightarrow> string \<Rightarrow> health_status \<Rightarrow> string option \<Rightarrow> health_monitor \<Rightarrow> health_monitor" where
  "monitor_update now component check status message m =
     (case map_of m component of None \<Rightarrow> m
      | Some hc \<Rightarrow> hm_insert component (health_check_update now check status message hc) m)"

definition report_component :: "string \<times> health_check \<Rightarrow> health_report \<Rightarrow> health_report" where
  "report_component e r =
     (if fst e = ''truth'' then with_truth_plane (hc_status (snd e)) r
      else if fst e = ''intelligence'' then with_intelligence_plane (hc_status (snd e)) r
      else if fst e = ''network'' then with_network (hc_status (snd e)) r
      else if fst e = ''storage'' then with_storage (hc_status (snd e)) r
      else r)"

definition get_report :: "u64 \<Rightarrow> bytes32 \<Rightarrow> health_monitor \<Rightarrow> health_report" where
  "get_report now node_id m = report_compute now (fold report_component m (health_report_new node_id))"

definition monitor_overall_status :: "health_monitor \<Rightarrow> health_status" where
  "monitor_overall_status m =
     (let (has_unhealthy, has_degraded) = scan_statuses (map (hc_status \<circ> snd) m)
      in if has_unhealthy then Unhealthy else if has_degraded then Degraded else if m = [] then Unknown else Healthy)"

inductive monitor_step :: "health_monitor \<Rightarrow> health_monitor \<Rightarrow> bool" where
  "monitor_step m (register_component component m)"
| "monitor_step m (monitor_update now component check status message m)"

section \<open>Metrics\<close>

datatype metric_type = CounterMetric | GaugeMetric | HistogramMetric | SummaryMetric | BooleanMetric

record metric_definition =
  md_name :: string
  md_metric_type :: metric_type
  md_description :: string
  md_plane :: string
  md_component :: string

definition metric_definition_new :: "string \<Rightarrow> metric_type \<Rightarrow> string \<Rightarrow> string \<Rightarrow> string \<Rightarrow> metric_definition" where
  "metric_definition_new name t description plane component =
     \<lparr>md_name = ''lv.'' @ plane @ ''.'' @ component @ ''.'' @ name, md_metric_type = t, md_description = description,
      md_plane = plane, md_component = component\<rparr>"

datatype metric_value = Counter u64 | Gauge "64 word" | Histogram "u64 list" | Summary "(u64 \<times> u64) list" | Boolean bool

record metrics_registry =
  mr_metrics :: "(string \<times> metric_value) list"
  mr_definitions :: "(string \<times> metric_definition) list"

definition metrics_registry_new :: metrics_registry where
  "metrics_registry_new = \<lparr>mr_metrics = [], mr_definitions = []\<rparr>"

definition metric_register :: "metric_definition \<Rightarrow> metrics_registry \<Rightarrow> metrics_registry" where
  "metric_register d r = r\<lparr>mr_definitions := hm_insert (md_name d) d (mr_definitions r)\<rparr>"

definition metric_set :: "string \<Rightarrow> metric_value \<Rightarrow> metrics_registry \<Rightarrow> metrics_registry" where
  "metric_set name v r = r\<lparr>mr_metrics := hm_insert name v (mr_metrics r)\<rparr>"

definition metric_get :: "string \<Rightarrow> metrics_registry \<Rightarrow> metric_value option" where
  "metric_get name r = map_of (mr_metrics r) name"

text \<open>\<open>entry(name).or_insert(d)\<close> followed by a change of the entry.\<close>

definition change_entry :: "string \<Rightarrow> metric_value \<Rightarrow> (metric_value \<Rightarrow> metric_value) \<Rightarrow> metrics_registry \<Rightarrow> metrics_registry" where
  "change_entry name d f r =
     r\<lparr>mr_metrics := hm_insert name (f (case map_of (mr_metrics r) name of Some v \<Rightarrow> v | None \<Rightarrow> d)) (mr_metrics r)\<rparr>"

definition increment_counter :: "string \<Rightarrow> metrics_registry \<Rightarrow> metrics_registry" where
  "increment_counter name = change_entry name (Counter 0) (\<lambda>v. case v of Counter c \<Rightarrow> Counter (c + 1) | _ \<Rightarrow> v)"

definition decrement_counter :: "string \<Rightarrow> metrics_registry \<Rightarrow> metrics_registry" where
  "decrement_counter name = change_entry name (Counter 0) (\<lambda>v. case v of Counter c \<Rightarrow> Counter (saturating_sub c 1) | _ \<Rightarrow> v)"

definition set_gauge :: "string \<Rightarrow> 64 word \<Rightarrow> metrics_registry \<Rightarrow> metrics_registry" where
  "set_gauge name v r = r\<lparr>mr_metrics := hm_insert name (Gauge v) (mr_metrics r)\<rparr>"

definition record_histogram :: "string \<Rightarrow> u64 \<Rightarrow> metrics_registry \<Rightarrow> metrics_registry" where
  "record_histogram name x = change_entry name (Histogram [])
     (\<lambda>v. case v of Histogram vals \<Rightarrow>
            let vals' = vals @ [x] in Histogram (if 1000 < length vals' then tl vals' else vals')
          | _ \<Rightarrow> v)"

text \<open>\<open>register_metrics\<close>: the names and types registered for a plane and a component, with their descriptions.\<close>

definition core_metrics :: "string \<Rightarrow> string \<Rightarrow> (string \<times> metric_type \<times> string) list" where
  "core_metrics plane component =
     (if (plane, component) = (''truth'', ''consensus'') then
        [(''block_height'', GaugeMetric, ''Current block height''),
         (''block_time_ms'', HistogramMetric, ''Block production time in milliseconds''),
         (''vote_latency_ms'', HistogramMetric, ''Vote propagation latency''),
         (''view_number'', GaugeMetric, ''Current consensus view/round''),
         (''proposals_total'', CounterMetric, ''Total block proposals'')]
      else if (plane, component) = (''truth'', ''mempool'') then
        [(''size'', GaugeMetric, ''Mempool transaction count''),
         (''transactions_submitted'', CounterMetric, ''Total transactions submitted'')]
      else if (plane, component) = (''truth'', ''network'') then
        [(''peer_count'', GaugeMetric, ''Number of connected peers''),
         (''messages_received'', CounterMetric, ''Total messages received''),
         (''messages_sent'', CounterMetric, ''Total messages sent'')]
      else if (plane, component) = (''truth'', ''governance'') then
        [(''dispute_count'', CounterMetric, ''Total dispute count'')]
      else if (plane, component) = (''intel'', ''operator'') then
        [(''active_jobs'', GaugeMetric, ''Number of active jobs''),
         (''jobs_submitted'', CounterMetric, ''Total jobs submitted''),
         (''jobs_completed'', CounterMetric, ''Total jobs completed successfully''),
         (''jobs_failed'', CounterMetric, ''Total jobs failed''),
         (''gpu_cycles_used'', CounterMetric, ''GPU cycles consumed''),
         (''cpu_cycles_used'', CounterMetric, ''CPU cycles consumed'')]
      else if (plane, component) = (''intel'', ''verification'') then
        [(''jobs_sampled'', CounterMetric, ''Jobs sampled for verification''),
         (''verification_passed'', CounterMetric, ''Verifications passed''),
         (''verification_failed'', CounterMetric, ''Verifications failed''),
         (''receipt_failures'', CounterMetric, ''Receipt verification failures''),
         (''verification_pass_rate'', GaugeMetric, ''Verification pass rate (0-1)''),
         (''disputes_raised'', CounterMetric, ''Total disputes raised'')]
      else if (plane, component) = (''storage'', ''artifact'') then
        [(''artifact_count'', GaugeMetric, ''Total artifact count''),
         (''replication_factor'', GaugeMetric, ''Artifact replication factor''),
         (''storage_usage_bytes'', GaugeMetric, ''Storage usage in bytes''),
         (''gc_events'', CounterMetric, ''Garbage collection events'')]
      else [])"

definition register_metrics :: "string \<Rightarrow> string \<Rightarrow> metrics_registry \<Rightarrow> metrics_registry" where
  "register_metrics plane component =
     fold (\<lambda>(name, t, description). metric_register (metric_definition_new name t description plane component))
       (core_metrics plane component)"

definition register_all_metrics :: "metrics_registry \<Rightarrow> metrics_registry" where
  "register_all_metrics =
     fold (\<lambda>(plane, component). register_metrics plane component)
       [(''truth'', ''consensus''), (''truth'', ''mempool''), (''truth'', ''network''), (''truth'', ''governance''),
        (''intel'', ''operator''), (''intel'', ''verification''), (''storage'', ''artifact'')]"

text \<open>The texts of the registry; the decimal text and the JSON number of a floating-point value are arguments.\<close>

definition show_i64 :: "64 word \<Rightarrow> string" where
  "show_i64 v = (if sint v < 0 then ''-'' @ dec_string (nat (- sint v)) else dec_string (nat (sint v)))"

definition line_end :: string where
  "line_end = [CHR 0x0A]"

definition help_lines :: "string \<Rightarrow> string \<Rightarrow> metrics_registry \<Rightarrow> string" where
  "help_lines name kind r =
     (case map_of (mr_definitions r) name of None \<Rightarrow> []
      | Some d \<Rightarrow> ''# HELP '' @ name @ '' '' @ md_description d @ line_end @ ''# TYPE '' @ name @ '' '' @ kind @ line_end)"

fun metric_lines :: "(u64 \<Rightarrow> string) \<Rightarrow> metrics_registry \<Rightarrow> string \<Rightarrow> metric_value \<Rightarrow> string" where
  "metric_lines show_f64 r name (Counter v) = name @ '' '' @ dec_string (unat v) @ line_end"
| "metric_lines show_f64 r name (Gauge v) = name @ '' '' @ show_i64 v @ line_end"
| "metric_lines show_f64 r name (Histogram vals) =
     help_lines name ''histogram'' r @
     concat (map (\<lambda>(i, v). name @ ''_bucket{le=\"'' @ show_f64 v @ ''\"} '' @ dec_string (i + 1) @ line_end) (enumerate 0 vals))"
| "metric_lines show_f64 r name (Summary points) =
     help_lines name ''summary'' r @
     concat (map (\<lambda>(q, v). ''{{quantile=\"'' @ show_f64 q @ ''\"}} '' @ dec_string (unat v) @ line_end) points)"
| "metric_lines show_f64 r name (Boolean b) = name @ '' '' @ (if b then ''1'' else ''0'') @ line_end"

definition export_prometheus :: "(u64 \<Rightarrow> string) \<Rightarrow> metrics_registry \<Rightarrow> string" where
  "export_prometheus show_f64 r = concat (map (\<lambda>(name, v). metric_lines show_f64 r name v) (mr_metrics r))"

fun metric_json :: "(u64 \<Rightarrow> json) \<Rightarrow> metric_value \<Rightarrow> json" where
  "metric_json json_f64 (Counter v) = JNumber (dec_string (unat v))"
| "metric_json json_f64 (Gauge v) = JNumber (show_i64 v)"
| "metric_json json_f64 (Histogram vals) = JArray (map json_f64 vals)"
| "metric_json json_f64 (Summary points) =
     JArray (map (\<lambda>(q, v). JObject [(''quantile'', json_f64 q), (''value'', JNumber (dec_string (unat v)))]) points)"
| "metric_json json_f64 (Boolean b) = JBool b"

definition metrics_to_json :: "(u64 \<Rightarrow> json) \<Rightarrow> metrics_registry \<Rightarrow> json" where
  "metrics_to_json json_f64 r = JObject (map (\<lambda>(name, v). (name, metric_json json_f64 v)) (mr_metrics r))"

section \<open>Traces\<close>

record trace_context =
  tc_trace_id :: bytes32
  tc_span_id :: u64
  tc_parent_span_id :: "u64 option"

definition trace_id_new :: "(bytes \<Rightarrow> bytes32) \<Rightarrow> 128 word \<Rightarrow> bytes32 \<Rightarrow> bytes32" where
  "trace_id_new hash now_nanos random = hash (to_le_bytes 16 now_nanos @ random)"

definition trace_context_new :: "u64 \<Rightarrow> bytes32 \<Rightarrow> trace_context" where
  "trace_context_new random trace_id = \<lparr>tc_trace_id = trace_id, tc_span_id = random, tc_parent_span_id = None\<rparr>"

definition trace_new_child :: "u64 \<Rightarrow> trace_context \<Rightarrow> trace_context" where
  "trace_new_child random parent =
     \<lparr>tc_trace_id = tc_trace_id parent, tc_span_id = random, tc_parent_span_id = Some (tc_span_id parent)\<rparr>"

definition with_span_id :: "u64 \<Rightarrow> trace_context \<Rightarrow> trace_context" where
  "with_span_id span_id c = c\<lparr>tc_span_id := span_id\<rparr>"

definition with_parent :: "u64 \<Rightarrow> trace_context \<Rightarrow> trace_context" where
  "with_parent parent_span_id c = c\<lparr>tc_parent_span_id := Some parent_span_id\<rparr>"

record span_log =
  sl_timestamp_ms :: u64
  sl_message :: string

record span =
  sn_trace_context :: trace_context
  sn_operation_name :: string
  sn_start_timestamp_ms :: u64
  sn_end_timestamp_ms :: "u64 option"
  sn_tags :: "(string \<times> string) list"
  sn_logs :: "span_log list"

definition span_new :: "u64 \<Rightarrow> string \<Rightarrow> trace_context \<Rightarrow> span" where
  "span_new now operation_name context =
     \<lparr>sn_trace_context = context, sn_operation_name = operation_name, sn_start_timestamp_ms = now,
      sn_end_timestamp_ms = None, sn_tags = [], sn_logs = []\<rparr>"

definition span_finish :: "u64 \<Rightarrow> span \<Rightarrow> span" where
  "span_finish now s = s\<lparr>sn_end_timestamp_ms := Some now\<rparr>"

definition duration_ms :: "span \<Rightarrow> u64 option" where
  "duration_ms s = map_option (\<lambda>e. e - sn_start_timestamp_ms s) (sn_end_timestamp_ms s)"

definition with_tag :: "string \<Rightarrow> string \<Rightarrow> span \<Rightarrow> span" where
  "with_tag key v s = s\<lparr>sn_tags := hm_insert key v (sn_tags s)\<rparr>"

definition span_add_log :: "u64 \<Rightarrow> string \<Rightarrow> span \<Rightarrow> span" where
  "span_add_log now message s = s\<lparr>sn_logs := sn_logs s @ [\<lparr>sl_timestamp_ms = now, sl_message = message\<rparr>]\<rparr>"

text \<open>
  The tracer's \<open>RwLock\<close>: the guards that are out and the context. A request that does not fit the guards waits; where
  the caller itself holds the guard it waits for, it waits forever.
\<close>

datatype 'a awaited = Ready 'a | Blocked

record tracer =
  tr_readers :: nat
  tr_writer :: bool
  tr_context :: "trace_context option"

definition awaited_bind :: "'a awaited \<Rightarrow> ('a \<Rightarrow> 'b awaited) \<Rightarrow> 'b awaited" where
  "awaited_bind m f = (case m of Ready x \<Rightarrow> f x | Blocked \<Rightarrow> Blocked)"

definition acquire_read :: "tracer \<Rightarrow> tracer awaited" where
  "acquire_read t = (if tr_writer t then Blocked else Ready (t\<lparr>tr_readers := tr_readers t + 1\<rparr>))"

definition release_read :: "tracer \<Rightarrow> tracer" where
  "release_read t = t\<lparr>tr_readers := tr_readers t - 1\<rparr>"

definition acquire_write :: "tracer \<Rightarrow> tracer awaited" where
  "acquire_write t = (if tr_writer t \<or> 0 < tr_readers t then Blocked else Ready (t\<lparr>tr_writer := True\<rparr>))"

definition release_write :: "tracer \<Rightarrow> tracer" where
  "release_write t = t\<lparr>tr_writer := False\<rparr>"

definition tracer_new :: tracer where
  "tracer_new = \<lparr>tr_readers = 0, tr_writer = False, tr_context = None\<rparr>"

text \<open>\<open>*self.current_context.write().await = c\<close>: the guard lives for this statement.\<close>

definition write_context :: "trace_context option \<Rightarrow> tracer \<Rightarrow> tracer awaited" where
  "write_context c t = awaited_bind (acquire_write t) (\<lambda>t1. Ready (release_write (t1\<lparr>tr_context := c\<rparr>)))"

definition start_trace ::
    "(bytes \<Rightarrow> bytes32) \<Rightarrow> 128 word \<Rightarrow> u64 \<Rightarrow> bytes32 \<Rightarrow> u64 \<Rightarrow> string \<Rightarrow> tracer \<Rightarrow> (span \<times> tracer) awaited" where
  "start_trace hash now_nanos now random_id random operation_name t =
     (let context = trace_context_new random (trace_id_new hash now_nanos random_id)
      in awaited_bind (write_context (Some context) t) (\<lambda>t1. Ready (span_new now operation_name context, t1)))"

text \<open>The read guard \<open>context\<close> lives until the end of the function.\<close>

definition start_child_span :: "u64 \<Rightarrow> u64 \<Rightarrow> string \<Rightarrow> tracer \<Rightarrow> (span option \<times> tracer) awaited" where
  "start_child_span now random operation_name t =
     awaited_bind (acquire_read t) (\<lambda>t1.
       (case tr_context t1 of
          Some parent \<Rightarrow>
            let child = trace_new_child random parent
            in awaited_bind (write_context (Some child) t1)
                 (\<lambda>t2. Ready (Some (span_new now operation_name child), release_read t2))
        | None \<Rightarrow> Ready (None, release_read t1)))"

definition get_current_context :: "tracer \<Rightarrow> (trace_context option \<times> tracer) awaited" where
  "get_current_context t = awaited_bind (acquire_read t) (\<lambda>t1. Ready (tr_context t1, release_read t1))"

definition set_context :: "trace_context \<Rightarrow> tracer \<Rightarrow> tracer awaited" where
  "set_context c t = write_context (Some c) t"

definition clear_context :: "tracer \<Rightarrow> tracer awaited" where
  "clear_context t = write_context None t"

text \<open>\<open>f\<close> runs while the write guard is out; it may use the tracer.\<close>

definition with_context :: "trace_context \<Rightarrow> (tracer \<Rightarrow> ('r \<times> tracer) awaited) \<Rightarrow> tracer \<Rightarrow> ('r \<times> tracer) awaited" where
  "with_context c f t =
     awaited_bind (acquire_write t) (\<lambda>t1.
       let old_context = tr_context t1
       in awaited_bind (f (t1\<lparr>tr_context := Some c\<rparr>)) (\<lambda>(result, t2).
            Ready (result, release_write (t2\<lparr>tr_context := old_context\<rparr>))))"

definition propagate_trace_context :: "(bytes \<Rightarrow> string) \<Rightarrow> trace_context \<Rightarrow> (string \<times> string) list \<Rightarrow> (string \<times> string) list" where
  "propagate_trace_context hex_encode c headers =
     (let h = hm_insert ''x-span-id'' (dec_string (unat (tc_span_id c)))
                (hm_insert ''x-trace-id'' (hex_encode (tc_trace_id c)) headers)
      in case tc_parent_span_id c of Some parent \<Rightarrow> hm_insert ''x-parent-span-id'' (dec_string (unat parent)) h | None \<Rightarrow> h)"

text \<open>\<open>str::parse::<u64>\<close>: an optional plus sign, decimal digits, an error on overflow.\<close>

definition digit_of :: "char \<Rightarrow> nat option" where
  "digit_of c = (let v = of_char c :: nat in if 48 \<le> v \<and> v \<le> 57 then Some (v - 48) else None)"

fun parse_digits :: "nat \<Rightarrow> string \<Rightarrow> nat option" where
  "parse_digits acc [] = Some acc"
| "parse_digits acc (c # s) =
     (case digit_of c of None \<Rightarrow> None
      | Some d \<Rightarrow> if 2 ^ 64 \<le> acc * 10 + d then None else parse_digits (acc * 10 + d) s)"

definition parse_u64 :: "string \<Rightarrow> u64 option" where
  "parse_u64 s =
     (if s = [] then None
      else let t = (if 1 < length s \<and> hd s = CHR ''+'' then tl s else s)
           in map_option of_nat (parse_digits 0 t))"

definition extract_trace_context :: "(string \<Rightarrow> bytes option) \<Rightarrow> (string \<times> string) list \<Rightarrow> trace_context option rust" where
  "extract_trace_context hex_decode headers =
     (case Option.bind (map_of headers ''x-trace-id'') hex_decode of
        None \<Rightarrow> Return None
      | Some bs \<Rightarrow>
          if length bs < 32 then Panic
          else (case Option.bind (map_of headers ''x-span-id'') parse_u64 of
                  None \<Rightarrow> Return None
                | Some span_id \<Rightarrow>
                    Return (Some \<lparr>tc_trace_id = take 32 bs, tc_span_id = span_id,
                                 tc_parent_span_id = Option.bind (map_of headers ''x-parent-span-id'') parse_u64\<rparr>)))"

section \<open>Logs\<close>

datatype log_level = Debug | Info | Warn | Error

record log_entry =
  le_timestamp_ms :: u64
  le_level :: log_level
  le_component :: string
  le_event :: string
  le_block_height :: "u64 option"
  le_job_id :: "bytes32 option"
  le_correlation_id :: "bytes32 option"
  le_message :: string
  le_metadata :: "(string \<times> json) list"

definition log_entry_new :: "u64 \<Rightarrow> log_level \<Rightarrow> string \<Rightarrow> string \<Rightarrow> string \<Rightarrow> log_entry" where
  "log_entry_new now level component event message =
     \<lparr>le_timestamp_ms = now, le_level = level, le_component = component, le_event = event, le_block_height = None,
      le_job_id = None, le_correlation_id = None, le_message = message, le_metadata = []\<rparr>"

definition log_with_block_height :: "u64 \<Rightarrow> log_entry \<Rightarrow> log_entry" where
  "log_with_block_height height e = e\<lparr>le_block_height := Some height\<rparr>"

definition log_with_job_id :: "bytes32 \<Rightarrow> log_entry \<Rightarrow> log_entry" where
  "log_with_job_id job_id e = e\<lparr>le_job_id := Some job_id\<rparr>"

definition log_with_correlation_id :: "bytes32 \<Rightarrow> log_entry \<Rightarrow> log_entry" where
  "log_with_correlation_id i e = e\<lparr>le_correlation_id := Some i\<rparr>"

definition log_with_metadata :: "string \<Rightarrow> json \<Rightarrow> log_entry \<Rightarrow> log_entry" where
  "log_with_metadata key v e = e\<lparr>le_metadata := hm_insert key v (le_metadata e)\<rparr>"

record logger =
  lg_component :: string
  lg_min_level :: log_level

definition logger_new :: "string \<Rightarrow> logger" where
  "logger_new component = \<lparr>lg_component = component, lg_min_level = Info\<rparr>"

definition with_min_level :: "log_level \<Rightarrow> logger \<Rightarrow> logger" where
  "with_min_level level l = l\<lparr>lg_min_level := level\<rparr>"

fun level_order :: "log_level \<Rightarrow> nat" where
  "level_order Debug = 0"
| "level_order Info = 1"
| "level_order Warn = 2"
| "level_order Error = 3"

definition should_log :: "logger \<Rightarrow> log_entry \<Rightarrow> bool" where
  "should_log l e \<longleftrightarrow> level_order (lg_min_level l) \<le> level_order (le_level e)"

text \<open>A call at a level: the entry returned and what is printed.\<close>

definition log_at :: "log_level \<Rightarrow> u64 \<Rightarrow> string \<Rightarrow> string \<Rightarrow> logger \<Rightarrow> log_entry \<times> log_entry list" where
  "log_at level now event message l =
     (let e = log_entry_new now level (lg_component l) event message in (e, if should_log l e then [e] else []))"

definition log_debug :: "u64 \<Rightarrow> string \<Rightarrow> string \<Rightarrow> logger \<Rightarrow> log_entry \<times> log_entry list" where
  "log_debug = log_at Debug"

definition log_info :: "u64 \<Rightarrow> string \<Rightarrow> string \<Rightarrow> logger \<Rightarrow> log_entry \<times> log_entry list" where
  "log_info = log_at Info"

definition log_warn :: "u64 \<Rightarrow> string \<Rightarrow> string \<Rightarrow> logger \<Rightarrow> log_entry \<times> log_entry list" where
  "log_warn = log_at Warn"

definition log_error :: "u64 \<Rightarrow> string \<Rightarrow> string \<Rightarrow> logger \<Rightarrow> log_entry \<times> log_entry list" where
  "log_error = log_at Error"

section \<open>Lemmas\<close>

lemma scan_from: "fold (\<lambda>s (u, d). case s of Unhealthy \<Rightarrow> (True, d) | Degraded \<Rightarrow> (u, True) | _ \<Rightarrow> (u, d)) ss (u, d) =
    (u \<or> Unhealthy \<in> set ss, d \<or> Degraded \<in> set ss)"
  by (induction ss arbitrary: u d) (auto split: health_status.split)

lemma scan_statuses_iff [simp]: "scan_statuses ss = (Unhealthy \<in> set ss, Degraded \<in> set ss)"
  unfolding scan_statuses_def scan_from by simp

definition monitor_ok :: "health_monitor \<Rightarrow> bool" where
  "monitor_ok m \<longleftrightarrow> hm_wf m \<and>
     (\<forall>(c, h) \<in> set m. hc_component h = c \<and> hm_wf (hc_checks h) \<and> hc_status h = compute_overall_status h)"

lemma monitor_ok_put: "monitor_ok m \<Longrightarrow> hc_component h = c \<Longrightarrow> hm_wf (hc_checks h) \<Longrightarrow>
    hc_status h = compute_overall_status h \<Longrightarrow> monitor_ok (hm_insert c h m)"
  by (auto simp: monitor_ok_def hm.wf_insert hm.set_insert)

lemma overall_status_cong: "hc_checks h = hc_checks g \<Longrightarrow> compute_overall_status h = compute_overall_status g"
  by (simp add: compute_overall_status_def)

lemma monitor_ok_update: "monitor_ok m \<Longrightarrow> monitor_ok (monitor_update now c check status message m)"
proof (cases "map_of m c")
  case (Some h)
  assume m: "monitor_ok m"
  then have "hc_component h = c" "hm_wf (hc_checks h)" using map_of_SomeD [OF Some] by (auto simp: monitor_ok_def)
  with m show ?thesis unfolding monitor_update_def Some option.case
    by (intro monitor_ok_put) (auto simp: health_check_update_def Let_def hm.wf_insert intro: overall_status_cong)
qed (simp add: monitor_update_def)

lemma monitor_ok_register: "monitor_ok m \<Longrightarrow> monitor_ok (register_component c m)"
  unfolding register_component_def
  by (rule monitor_ok_put) (auto simp: health_check_new_def hm_wf_def compute_overall_status_def)

lemma monitor_step_ok: "monitor_step m m' \<Longrightarrow> monitor_ok m \<Longrightarrow> monitor_ok m'"
  by (induction rule: monitor_step.induct) (auto intro: monitor_ok_register monitor_ok_update)

interpretation monitor_run: transition_system monitor_step monitor_ok "\<lambda>m. m = health_monitor_new"
proof unfold_locales
  show "monitor_step m m' \<Longrightarrow> monitor_ok m \<Longrightarrow> monitor_ok m'" for m m' by (rule monitor_step_ok)
qed (auto simp: monitor_ok_def health_monitor_new_def hm_wf_def)

lemma report_component_fields:
  "hr_truth_plane_status (report_component e r) = (if fst e = ''truth'' then hc_status (snd e) else hr_truth_plane_status r)"
  "hr_intelligence_plane_status (report_component e r) = (if fst e = ''intelligence'' then hc_status (snd e) else hr_intelligence_plane_status r)"
  "hr_network_status (report_component e r) = (if fst e = ''network'' then hc_status (snd e) else hr_network_status r)"
  "hr_storage_status (report_component e r) = (if fst e = ''storage'' then hc_status (snd e) else hr_storage_status r)"
  by (simp_all add: report_component_def with_truth_plane_def with_intelligence_plane_def with_network_def with_storage_def)

definition status_of :: "health_monitor \<Rightarrow> string \<Rightarrow> health_status" where
  "status_of m c = (case map_of m c of Some h \<Rightarrow> hc_status h | None \<Rightarrow> Unknown)"

lemma fold_field:
  assumes "\<And>e r. sel (report_component e r) = (if fst e = k then hc_status (snd e) else sel r)" "hm_wf m"
  shows "sel (fold report_component m r) = (case map_of m k of Some h \<Rightarrow> hc_status h | None \<Rightarrow> sel r)"
  using assms(2)
proof (induction m arbitrary: r)
  case (Cons e m)
  then have "fst e = k \<Longrightarrow> map_of m k = None" by (auto simp: hm_wf_def map_of_eq_None_iff)
  with Cons show ?case by (cases e) (auto simp: assms(1) hm_wf_def split: option.split)
qed simp

lemma of_char_dec [simp]: "n < 256 \<Longrightarrow> (of_char (char_of n :: char) :: nat) = n"
  by (simp add: of_char_of)

lemma digit_of_dec: "n < 10 \<Longrightarrow> digit_of (char_of (48 + n)) = Some n"
  by (simp add: digit_of_def)

lemma parse_digits_append: "parse_digits a (s @ t) = Option.bind (parse_digits a s) (\<lambda>b. parse_digits b t)"
  by (induction s arbitrary: a) (auto split: option.split)

lemma parse_digits_dec: "n < 2 ^ 64 \<Longrightarrow> parse_digits 0 (dec_string n) = Some n"
proof (induction n rule: dec_string.induct)
  case (1 n)
  show ?case
  proof (cases "n < 10")
    case True
    with "1.prems" show ?thesis by (simp add: dec_string.simps [of n] digit_of_dec)
  next
    case False
    then have "parse_digits 0 (dec_string (n div 10)) = Some (n div 10)" using 1 by simp
    moreover have "n div 10 * 10 + n mod 10 = n" by simp
    ultimately show ?thesis
      using "1.prems" False digit_of_dec [of "n mod 10"] by (simp add: dec_string.simps [of n] parse_digits_append)
  qed
qed

lemma dec_string_digits: "c \<in> set (dec_string n) \<Longrightarrow> digit_of c \<noteq> None"
proof (induction n rule: dec_string.induct)
  case (1 n)
  then show ?case using digit_of_dec [of "n mod 10"] digit_of_dec [of n]
    by (auto simp: dec_string.simps [of n] split: if_splits)
qed

lemma dec_string_ne [simp]: "dec_string n \<noteq> []"
  by (subst dec_string.simps) simp

lemma parse_dec_u64: "parse_u64 (dec_string (unat v)) = Some v"
proof -
  have "digit_of (CHR ''+'') = None" by (simp add: digit_of_def)
  then have "hd (dec_string (unat v)) \<noteq> CHR ''+''" using dec_string_digits [OF hd_in_set [OF dec_string_ne]] by metis
  then show ?thesis using unsigned_less [of v] by (simp add: parse_u64_def parse_digits_dec)
qed

section \<open>Properties\<close>

text \<open>In every reachable monitor the status of a component is the worst of its checks, and a report shows the
  registered components; its overall status is unhealthy exactly if one of the four is, degraded exactly if one is
  and none is unhealthy, and healthy otherwise.\<close>

theorem report_exact:
  assumes "monitor_step\<^sup>*\<^sup>* health_monitor_new m" "r = get_report now node_id m"
    and "planes = map (status_of m) [''truth'', ''intelligence'', ''network'', ''storage'']"
  shows "(\<forall>c h. map_of m c = Some h \<longrightarrow> hc_checks h \<noteq> [] \<longrightarrow>
      hc_status h = (if Unhealthy \<in> snd ` set (hc_checks h) then Unhealthy
                     else if Degraded \<in> snd ` set (hc_checks h) then Degraded else Healthy)) \<and>
    [hr_truth_plane_status r, hr_intelligence_plane_status r, hr_network_status r, hr_storage_status r] = planes \<and>
    hr_overall_status r = (if Unhealthy \<in> set planes then Unhealthy else if Degraded \<in> set planes then Degraded else Healthy)"
proof -
  have ok: "monitor_ok m" using monitor_run.reachable_inv [OF assms(1)] by simp
  then have w: "hm_wf m" by (simp add: monitor_ok_def)
  have "\<forall>c h. map_of m c = Some h \<longrightarrow> hc_status h = compute_overall_status h"
    using ok by (auto simp: monitor_ok_def dest!: map_of_SomeD)
  moreover have "[hr_truth_plane_status r, hr_intelligence_plane_status r, hr_network_status r, hr_storage_status r] = planes"
    unfolding assms(2,3) get_report_def
    using fold_field [OF report_component_fields(1) w] fold_field [OF report_component_fields(2) w]
      fold_field [OF report_component_fields(3) w] fold_field [OF report_component_fields(4) w]
    by (simp add: report_compute_def status_of_def health_report_new_def split: option.split)
  moreover from this have "hr_overall_status r = (if Unhealthy \<in> set planes then Unhealthy else if Degraded \<in> set planes then Degraded else Healthy)"
    unfolding assms(2) get_report_def by (simp add: report_compute_def)
  ultimately show ?thesis by (simp add: compute_overall_status_def)
qed

theorem report_exact_witness:
  "let m = monitor_update 5 ''truth'' ''db'' Degraded None (register_component ''truth'' health_monitor_new)
   in hr_overall_status (get_report 6 [1] m) = Degraded"
proof -
  let ?m1 = "register_component ''truth'' health_monitor_new"
  let ?m2 = "monitor_update 5 ''truth'' ''db'' Degraded None ?m1"
  have "monitor_step\<^sup>*\<^sup>* health_monitor_new ?m2"
    by (rule converse_rtranclp_into_rtranclp [of monitor_step, OF monitor_step.intros(1)])
      (rule r_into_rtranclp [of monitor_step, OF monitor_step.intros(2)])
  from report_exact [OF this refl refl, of 6 "[1]"] show ?thesis
    by (simp add: Let_def status_of_def monitor_update_def register_component_def health_monitor_new_def
        health_check_update_def health_check_new_def compute_overall_status_def)
qed

text \<open>A report of a monitor with no components is healthy, while the monitor's own overall status is unknown.\<close>

theorem empty_report_healthy:
  "report_is_healthy (get_report now node_id health_monitor_new) \<and> monitor_overall_status health_monitor_new = Unknown"
  by (simp add: get_report_def health_monitor_new_def report_compute_def report_is_healthy_def health_report_new_def
      monitor_overall_status_def)

text \<open>A histogram that starts empty holds the last thousand values recorded, in order.\<close>

theorem histogram_keeps_last:
  assumes "hm_wf (mr_metrics r)" "metric_get name r = None" "xs \<noteq> []"
  shows "metric_get name (fold (record_histogram name) xs r) = Some (Histogram (drop (length xs - 1000) xs))"
  using assms(3)
proof (induction xs rule: rev_induct)
  case (snoc x xs)
  show ?case
  proof (cases "xs = []")
    case True
    with assms show ?thesis by (simp add: record_histogram_def change_entry_def metric_get_def)
  next
    case False
    with snoc.IH [OF False] bounded_push [of 1000 xs x] show ?thesis
      by (simp add: record_histogram_def change_entry_def metric_get_def Let_def)
  qed
qed simp

theorem histogram_keeps_last_witness:
  "metric_get ''t'' (fold (record_histogram ''t'') (replicate 1001 7) metrics_registry_new) = Some (Histogram (replicate 1000 7))"
  using histogram_keeps_last [of metrics_registry_new "''t''" "replicate 1001 7"]
  by (simp add: metrics_registry_new_def metric_get_def hm_wf_def drop_replicate del: replicate.simps replicate_Suc)

text \<open>The JSON text of a registry has exactly its metrics; in the Prometheus text the lines of a summary without a
  definition do not name it, so the texts of two of them are the same.\<close>

theorem exports_exact:
  "(\<exists>kvs. metrics_to_json json_f64 r = JObject kvs \<and> map_of kvs name = map_option (metric_json json_f64) (metric_get name r)) \<and>
   export_prometheus show_f64 (metric_set a (Summary points) metrics_registry_new) =
     export_prometheus show_f64 (metric_set b (Summary points) metrics_registry_new)"
  by (simp add: metrics_to_json_def metric_get_def map_of_map export_prometheus_def metric_set_def metrics_registry_new_def
      help_lines_def)

text \<open>What is propagated in the headers of a request is what is extracted from them, given that \<open>hex\<close> reads back what
  it writes; without a parent span the headers must not already carry one.\<close>

theorem trace_context_roundtrip:
  assumes "hex_decode (hex_encode (tc_trace_id c)) = Some (tc_trace_id c)" "length (tc_trace_id c) = 32"
    and "tc_parent_span_id c \<noteq> None \<or> map_of headers ''x-parent-span-id'' = None"
  shows "extract_trace_context hex_decode (propagate_trace_context hex_encode c headers) = Return (Some c)"
  using assms by (auto simp: extract_trace_context_def propagate_trace_context_def Let_def parse_dec_u64 split: option.splits)

theorem trace_context_roundtrip_witness:
  "extract_trace_context (\<lambda>s. Some zero32)
     (propagate_trace_context (\<lambda>b. ''00'') \<lparr>tc_trace_id = zero32, tc_span_id = 42, tc_parent_span_id = Some 7\<rparr> []) =
   Return (Some \<lparr>tc_trace_id = zero32, tc_span_id = 42, tc_parent_span_id = Some 7\<rparr>)"
  by (rule trace_context_roundtrip) simp_all

text \<open>A trace id of fewer than 32 bytes in a request makes the extraction panic.\<close>

theorem short_trace_id_panics:
  assumes "map_of headers ''x-trace-id'' = Some v" "hex_decode v = Some bs" "length bs < 32"
  shows "extract_trace_context hex_decode headers = Panic"
  using assms by (simp add: extract_trace_context_def)

theorem short_trace_id_panics_witness:
  "extract_trace_context (\<lambda>s. Some [1]) [(''x-trace-id'', ''01'')] = Panic"
  by (rule short_trace_id_panics [of _ "''01''" _ "[1]"]) simp_all

text \<open>Starting a child span never returns when there is a current context: the function holds its read guard while it
  waits for the write guard. Without a context it returns no span and leaves the tracer as it was.\<close>

theorem child_span_blocks:
  "start_child_span now random operation_name t =
     (if tr_writer t then Blocked else case tr_context t of Some context \<Rightarrow> Blocked | None \<Rightarrow> Ready (None, t))"
  by (auto simp: start_child_span_def awaited_bind_def acquire_read_def write_context_def acquire_write_def
      release_read_def Let_def split: option.splits)

text \<open>Running a function under a context restores the context before it when the function leaves the tracer alone, and
  never returns when the function asks the tracer for the context.\<close>

theorem with_context_restores:
  assumes "\<not> tr_writer t" "tr_readers t = 0"
  shows "with_context c (\<lambda>s. Ready (f (tr_context s), s)) t = Ready (f (Some c), t) \<and>
    with_context c get_current_context t = Blocked"
  using assms by (simp add: with_context_def awaited_bind_def acquire_write_def release_write_def Let_def
      get_current_context_def acquire_read_def)

theorem with_context_restores_witness:
  "with_context (trace_context_new 1 zero32) (\<lambda>s. Ready (length (map tc_span_id (case tr_context s of Some c \<Rightarrow> [c] | None \<Rightarrow> [])), s)) tracer_new =
     Ready (1, tracer_new) \<and>
   with_context (trace_context_new 1 zero32) get_current_context tracer_new = Blocked"
  using with_context_restores [of tracer_new "trace_context_new 1 zero32"
      "\<lambda>c. length (map tc_span_id (case c of Some c \<Rightarrow> [c] | None \<Rightarrow> []))"]
  by (simp add: tracer_new_def)

text \<open>A call at a level prints its entry exactly if the level is not below the logger's.\<close>

theorem logged_iff_level:
  "snd (log_at level now event message l) =
     (if level_order (lg_min_level l) \<le> level_order level then [log_entry_new now level (lg_component l) event message] else []) \<and>
   snd (log_error now event message l) \<noteq> []"
  by (cases "lg_min_level l") (simp_all add: log_at_def log_error_def should_log_def log_entry_new_def Let_def)

end
