(* ===== verification/Network.thy ===== *)
theory Network
  imports Telemetry
begin

text \<open>
  The network layer, \<open>crates/net/src\<close>: peers and bans (\<open>p2p.rs\<close>), the node (\<open>network.rs\<close>), topics (\<open>message.rs\<close>) and
  protocol messages (\<open>protocol.rs\<close>). Calls that run one after the other are functions on the state; calls that run at
  the same time interleave at their lock sections, which is the relation \<open>net_step\<close> with the rest of each call as a
  pending task. Sending is simulated in the source and has no effect. The clock, blake3, \<open>hex\<close> and \<open>serde_json\<close> are
  arguments.
\<close>

section \<open>Protocol messages and topics\<close>

datatype message_type = Handshake | BlockMessage | TransactionMessage | VoteMessage | IntelligenceMessage | Ping | Pong

record protocol_message =
  pr_msg_type :: message_type
  pr_sender_id :: bytes32
  pr_payload :: bytes
  pr_timestamp :: u64
  pr_signature :: "bytes option"

definition protocol_message_new :: "u64 \<Rightarrow> message_type \<Rightarrow> bytes32 \<Rightarrow> bytes \<Rightarrow> protocol_message" where
  "protocol_message_new now t sender_id payload =
     \<lparr>pr_msg_type = t, pr_sender_id = sender_id, pr_payload = payload, pr_timestamp = now, pr_signature = None\<rparr>"

definition protocol_message_sign :: "bytes \<Rightarrow> protocol_message \<Rightarrow> protocol_message" where
  "protocol_message_sign signature m = m\<lparr>pr_signature := Some signature\<rparr>"

record network_message =
  nm_topic :: string
  nm_data :: bytes
  nm_sender :: bytes32
  nm_sequence :: u64

text \<open>The static counter \<open>SEQ\<close> is passed along.\<close>

definition network_message_new :: "string \<Rightarrow> bytes \<Rightarrow> bytes32 \<Rightarrow> u64 \<Rightarrow> network_message \<times> u64" where
  "network_message_new topic d sender seq =
     (\<lparr>nm_topic = topic, nm_data = d, nm_sender = sender, nm_sequence = seq\<rparr>, seq + 1)"

type_synonym message_queue = "(string \<times> network_message list) list"

definition message_queue_new :: message_queue where
  "message_queue_new = []"

definition publish :: "string \<Rightarrow> network_message \<Rightarrow> message_queue \<Rightarrow> message_queue" where
  "publish topic m q = hm_push topic m q"

definition subscribe :: "string \<Rightarrow> message_queue \<Rightarrow> network_message list option" where
  "subscribe topic q = map_of q topic"

definition queue_clear :: "message_queue \<Rightarrow> message_queue" where
  "queue_clear q = []"

section \<open>Peers\<close>

datatype peer_status = Connecting | Handshaking | Connected | Disconnected | Banned

record peer =
  pe_id :: bytes32
  pe_address :: string
  pe_port :: u16
  pe_status :: peer_status
  pe_last_seen :: u64
  pe_latency_ms :: u64
  pe_version :: u32

definition peer_new :: "u64 \<Rightarrow> bytes32 \<Rightarrow> string \<Rightarrow> u16 \<Rightarrow> peer" where
  "peer_new now i address port =
     \<lparr>pe_id = i, pe_address = address, pe_port = port, pe_status = Connecting, pe_last_seen = now, pe_latency_ms = 0,
      pe_version = 1\<rparr>"

definition endpoint :: "peer \<Rightarrow> string" where
  "endpoint p = pe_address p @ '':'' @ dec_string (unat (pe_port p))"

record peer_info =
  pi_peer_id :: bytes32
  pi_listen_port :: u16
  pi_version :: u32
  pi_capabilities :: "string list"

record p2p_network =
  p2_peer_id :: bytes32
  p2_peers :: "(bytes32 \<times> peer) list"
  p2_banned :: "bytes32 list"
  p2_running :: bool

datatype p2p_error = P2PError string

definition DEFAULT_PORT :: u16 where
  "DEFAULT_PORT = 9100"

definition p2p_network_new :: "bytes32 \<Rightarrow> p2p_network" where
  "p2p_network_new peer_id = \<lparr>p2_peer_id = peer_id, p2_peers = [], p2_banned = [], p2_running = False\<rparr>"

definition add_peer :: "peer \<Rightarrow> p2p_network \<Rightarrow> p2p_network" where
  "add_peer p n =
     (if pe_id p \<notin> set (p2_banned n) then n\<lparr>p2_peers := hm_insert (pe_id p) p (p2_peers n)\<rparr> else n)"

definition remove_peer :: "bytes32 \<Rightarrow> p2p_network \<Rightarrow> p2p_network" where
  "remove_peer i n = n\<lparr>p2_peers := hm_remove i (p2_peers n)\<rparr>"

definition ban_peer :: "bytes32 \<Rightarrow> p2p_network \<Rightarrow> p2p_network" where
  "ban_peer i n = remove_peer i (n\<lparr>p2_banned := List.insert i (p2_banned n)\<rparr>)"

text \<open>\<open>if let Some(p) = peers.get_mut(&id)\<close> and a change of \<open>p\<close>\<close>

definition change_peer :: "bytes32 \<Rightarrow> (peer \<Rightarrow> peer) \<Rightarrow> p2p_network \<Rightarrow> p2p_network" where
  "change_peer i f n =
     (case map_of (p2_peers n) i of None \<Rightarrow> n | Some p \<Rightarrow> n\<lparr>p2_peers := hm_insert i (f p) (p2_peers n)\<rparr>)"

definition connect_id :: "(bytes \<Rightarrow> bytes32) \<Rightarrow> string \<Rightarrow> u16 \<Rightarrow> bytes32" where
  "connect_id hash address port = hash (str_bytes address @ to_le_bytes 2 port)"

definition p2p_connect :: "(bytes \<Rightarrow> bytes32) \<Rightarrow> u64 \<Rightarrow> string \<Rightarrow> u16 \<Rightarrow> (p2p_error, unit, p2p_network) op" where
  "p2p_connect hash now address port n =
     (let i = connect_id hash address port
      in (Inr (), change_peer i (\<lambda>p. p\<lparr>pe_status := Connected, pe_last_seen := now\<rparr>)
                    (add_peer (peer_new now i address port) n)))"

text \<open>\<open>split(':')\<close> and \<open>parse::<u16>\<close>\<close>

fun str_split :: "char \<Rightarrow> string \<Rightarrow> string list" where
  "str_split d [] = [[]]"
| "str_split d (c # s) =
     (if c = d then [] # str_split d s else (case str_split d s of p # ps \<Rightarrow> (c # p) # ps | [] \<Rightarrow> [[c]]))"

definition parse_u16 :: "string \<Rightarrow> u16 option" where
  "parse_u16 s =
     (if s = [] then None
      else case parse_digits 0 (if 1 < length s \<and> hd s = CHR ''+'' then tl s else s) of
             Some v \<Rightarrow> if v < 65536 then Some (of_nat v) else None
           | None \<Rightarrow> None)"

definition connect_bootstrap_node :: "(bytes \<Rightarrow> bytes32) \<Rightarrow> u64 \<Rightarrow> string \<Rightarrow> p2p_network \<Rightarrow> p2p_network" where
  "connect_bootstrap_node hash now node n =
     (let parts = str_split (CHR '':'') node
      in if 2 \<le> length parts
         then snd (p2p_connect hash now (parts ! 0)
                (case parse_u16 (parts ! 1) of Some p \<Rightarrow> p | None \<Rightarrow> DEFAULT_PORT) n)
         else n)"

definition connect_bootstrap :: "(bytes \<Rightarrow> bytes32) \<Rightarrow> u64 \<Rightarrow> string list \<Rightarrow> (p2p_error, unit, p2p_network) op" where
  "connect_bootstrap hash now nodes n = (Inr (), fold (connect_bootstrap_node hash now) nodes n)"

definition p2p_disconnect :: "bytes32 \<Rightarrow> (p2p_error, unit, p2p_network) op" where
  "p2p_disconnect i n = (Inr (), remove_peer i (change_peer i (\<lambda>p. p\<lparr>pe_status := Disconnected\<rparr>) n))"

definition get_active_peers :: "p2p_network \<Rightarrow> peer list" where
  "get_active_peers n = [p \<leftarrow> map snd (p2_peers n). pe_status p = Connected]"

definition get_peer_count :: "p2p_network \<Rightarrow> nat" where
  "get_peer_count n = length (p2_peers n)"

definition is_connected :: "bytes32 \<Rightarrow> p2p_network \<Rightarrow> bool" where
  "is_connected i n = (case map_of (p2_peers n) i of Some p \<Rightarrow> pe_status p = Connected | None \<Rightarrow> False)"

definition send_to_peer :: "(bytes \<Rightarrow> string) \<Rightarrow> bytes32 \<Rightarrow> protocol_message \<Rightarrow> p2p_network \<Rightarrow> p2p_error + unit" where
  "send_to_peer hex i m n =
     (if \<not> is_connected i n then Inl (P2PError (''Peer '' @ hex i @ '' not connected'')) else Inr ())"

text \<open>\<open>broadcast\<close>: the results of the sends, which the source discards, and the number it returns.\<close>

definition broadcast_results :: "(bytes \<Rightarrow> string) \<Rightarrow> protocol_message \<Rightarrow> p2p_network \<Rightarrow> (p2p_error + unit) list" where
  "broadcast_results hex m n = map (\<lambda>p. send_to_peer hex (pe_id p) m n) (get_active_peers n)"

definition broadcast :: "(bytes \<Rightarrow> string) \<Rightarrow> protocol_message \<Rightarrow> p2p_network \<Rightarrow> nat" where
  "broadcast hex m n = (let active = get_active_peers n; _ = broadcast_results hex m n in length active)"

text \<open>The payloads, as \<open>json!\<close> orders them, and the calls that send them.\<close>

definition json_bytes :: "bytes \<Rightarrow> json" where
  "json_bytes bs = JArray (map (\<lambda>b. JNumber (dec_string (unat b))) bs)"

definition propagate_job_message :: "(json \<Rightarrow> string) \<Rightarrow> u64 \<Rightarrow> bytes32 \<Rightarrow> bytes \<Rightarrow> p2p_network \<Rightarrow> protocol_message" where
  "propagate_job_message to_string now job_id d n =
     protocol_message_new now IntelligenceMessage (p2_peer_id n)
       (str_bytes (to_string (JObject
          [(''data'', json_bytes d), (''job_id'', json_bytes job_id), (''origin'', json_bytes (p2_peer_id n))])))"

definition propagate_job :: "(bytes \<Rightarrow> string) \<Rightarrow> (json \<Rightarrow> string) \<Rightarrow> u64 \<Rightarrow> bytes32 \<Rightarrow> bytes \<Rightarrow> p2p_network \<Rightarrow> p2p_error + unit" where
  "propagate_job hex to_string now job_id d n =
     (let _ = broadcast hex (propagate_job_message to_string now job_id d n) n in Inr ())"

definition propagate_receipt_message :: "(json \<Rightarrow> string) \<Rightarrow> u64 \<Rightarrow> bytes32 \<Rightarrow> bytes \<Rightarrow> p2p_network \<Rightarrow> protocol_message" where
  "propagate_receipt_message to_string now receipt_id d n =
     protocol_message_new now IntelligenceMessage (p2_peer_id n)
       (str_bytes (to_string (JObject
          [(''data'', json_bytes d), (''origin'', json_bytes (p2_peer_id n)), (''receipt_id'', json_bytes receipt_id)])))"

definition propagate_receipt :: "(bytes \<Rightarrow> string) \<Rightarrow> (json \<Rightarrow> string) \<Rightarrow> u64 \<Rightarrow> bytes32 \<Rightarrow> bytes \<Rightarrow> p2p_network \<Rightarrow> p2p_error + unit" where
  "propagate_receipt hex to_string now receipt_id d n =
     (let _ = broadcast hex (propagate_receipt_message to_string now receipt_id d n) n in Inr ())"

text \<open>\<open>gossip_discovery\<close>: the requests sent and to whom.\<close>

definition gossip_discovery :: "(json \<Rightarrow> string) \<Rightarrow> u64 \<Rightarrow> p2p_network \<Rightarrow> (bytes32 \<times> protocol_message) list" where
  "gossip_discovery to_string now n =
     map (\<lambda>p. (pe_id p, protocol_message_new now Ping (p2_peer_id n)
       (str_bytes (to_string (JObject
          [(''requester_id'', json_bytes (p2_peer_id n)), (''seq'', JNumber (dec_string (unat now)))])))))
       (get_active_peers n)"

definition handle_discovery_response :: "u64 \<Rightarrow> peer_info list \<Rightarrow> p2p_network \<Rightarrow> p2p_network" where
  "handle_discovery_response now infos n =
     fold (\<lambda>info. add_peer (peer_new now (pi_peer_id info) [] (pi_listen_port info))) infos n"

definition start_background_tasks :: "p2p_network \<Rightarrow> p2p_network" where
  "start_background_tasks n = n\<lparr>p2_running := True\<rparr>"

definition stop_background_tasks :: "p2p_network \<Rightarrow> p2p_network" where
  "stop_background_tasks n = n\<lparr>p2_running := False\<rparr>"

record p2p_config =
  pc_listen_address :: string
  pc_listen_port :: u16
  pc_max_peers :: nat
  pc_bootstrap_nodes :: "string list"
  pc_ping_interval_secs :: u64

definition p2p_config_default :: p2p_config where
  "p2p_config_default = \<lparr>pc_listen_address = ''0.0.0.0'', pc_listen_port = DEFAULT_PORT, pc_max_peers = 128,
     pc_bootstrap_nodes = [], pc_ping_interval_secs = 30\<rparr>"

text \<open>Calls one after the other.\<close>

inductive p2p_step :: "(bytes \<Rightarrow> bytes32) \<Rightarrow> p2p_network \<Rightarrow> p2p_network \<Rightarrow> bool" for hash where
  "p2p_step hash n (snd (p2p_connect hash now address port n))"
| "p2p_step hash n (snd (connect_bootstrap hash now nodes n))"
| "p2p_step hash n (snd (p2p_disconnect i n))"
| "p2p_step hash n (add_peer p n)"
| "p2p_step hash n (remove_peer i n)"
| "p2p_step hash n (ban_peer i n)"
| "p2p_step hash n (handle_discovery_response now infos n)"
| "p2p_step hash n (start_background_tasks n)"
| "p2p_step hash n (stop_background_tasks n)"

text \<open>
  Calls at the same time. \<open>add_peer\<close> reads the bans, drops its guard and then writes the peers; \<open>ban_peer\<close> writes the
  bans and then the peers. What is left of a call is a pending task.
\<close>

datatype net_task = InsertPeer peer | RemovePeer bytes32

inductive net_step :: "p2p_network \<times> net_task list \<Rightarrow> p2p_network \<times> net_task list \<Rightarrow> bool" where
  add_check: "pe_id p \<notin> set (p2_banned n) \<Longrightarrow> net_step (n, ts) (n, InsertPeer p # ts)"
| add_refused: "pe_id (p :: peer) \<in> set (p2_banned n) \<Longrightarrow> net_step (n, ts) (n, ts)"
| add_insert: "net_step (n, us @ InsertPeer p # ts) (n\<lparr>p2_peers := hm_insert (pe_id p) p (p2_peers n)\<rparr>, us @ ts)"
| ban_record: "net_step (n, ts) (n\<lparr>p2_banned := List.insert i (p2_banned n)\<rparr>, RemovePeer i # ts)"
| ban_remove: "net_step (n, us @ RemovePeer i # ts) (remove_peer i n, us @ ts)"

section \<open>The node\<close>

record network_config =
  nc_node_id :: bytes32
  nc_listen_address :: string
  nc_listen_port :: u16
  nc_truth_plane_enabled :: bool
  nc_intelligence_plane_enabled :: bool
  nc_rpc_port :: u16
  nc_max_peers :: nat
  nc_bootnodes :: "string list"

definition network_config_default :: network_config where
  "network_config_default = \<lparr>nc_node_id = zero32, nc_listen_address = ''0.0.0.0'', nc_listen_port = 9100,
     nc_truth_plane_enabled = True, nc_intelligence_plane_enabled = True, nc_rpc_port = 8080, nc_max_peers = 128,
     nc_bootnodes = []\<rparr>"

datatype network_mode = FullMode | TruthOnly | IntelligenceOnly | LightClient

datatype node_status = Initializing | Starting | Running | Stopping | Stopped | NodeError

record network_node =
  nn_config :: network_config
  nn_p2p :: p2p_network
  nn_status :: node_status
  nn_mode :: network_mode

definition network_node_new :: "network_config \<Rightarrow> network_node" where
  "network_node_new c =
     \<lparr>nn_config = c, nn_p2p = p2p_network_new (nc_node_id c), nn_status = Initializing,
      nn_mode = (if nc_truth_plane_enabled c \<and> nc_intelligence_plane_enabled c then FullMode
                 else if nc_truth_plane_enabled c then TruthOnly else IntelligenceOnly)\<rparr>"

definition node_start :: "network_node \<Rightarrow> network_node" where
  "node_start n = (let n1 = n\<lparr>nn_status := Starting\<rparr> in n1\<lparr>nn_status := Running\<rparr>)"

definition node_stop :: "network_node \<Rightarrow> network_node" where
  "node_stop n = (let n1 = n\<lparr>nn_status := Stopping\<rparr> in n1\<lparr>nn_status := Stopped\<rparr>)"

definition is_running :: "network_node \<Rightarrow> bool" where
  "is_running n \<longleftrightarrow> nn_status n = Running"

definition connect_to_bootnode :: "u64 \<Rightarrow> bytes32 \<Rightarrow> string \<Rightarrow> u16 \<Rightarrow> network_node \<Rightarrow> network_node" where
  "connect_to_bootnode now i address port n = n\<lparr>nn_p2p := add_peer (peer_new now i address port) (nn_p2p n)\<rparr>"

definition get_connected_peer_count :: "network_node \<Rightarrow> nat" where
  "get_connected_peer_count n = get_peer_count (nn_p2p n)"

definition node_broadcast :: "(bytes \<Rightarrow> string) \<Rightarrow> u64 \<Rightarrow> message_type \<Rightarrow> bytes \<Rightarrow> network_node \<Rightarrow> nat" where
  "node_broadcast hex now t d n = broadcast hex (protocol_message_new now t (nc_node_id (nn_config n)) d) (nn_p2p n)"

definition broadcast_block :: "(bytes \<Rightarrow> string) \<Rightarrow> u64 \<Rightarrow> bytes \<Rightarrow> network_node \<Rightarrow> nat" where
  "broadcast_block hex now = node_broadcast hex now BlockMessage"

definition broadcast_transaction :: "(bytes \<Rightarrow> string) \<Rightarrow> u64 \<Rightarrow> bytes \<Rightarrow> network_node \<Rightarrow> nat" where
  "broadcast_transaction hex now = node_broadcast hex now TransactionMessage"

definition broadcast_intelligence :: "(bytes \<Rightarrow> string) \<Rightarrow> u64 \<Rightarrow> bytes \<Rightarrow> network_node \<Rightarrow> nat" where
  "broadcast_intelligence hex now = node_broadcast hex now IntelligenceMessage"

section \<open>Lemmas\<close>

definition p2p_ok :: "p2p_network \<Rightarrow> bool" where
  "p2p_ok n \<longleftrightarrow> hm_wf (p2_peers n) \<and> (\<forall>(i, p) \<in> set (p2_peers n). pe_id p = i \<and> i \<notin> set (p2_banned n))"

lemma p2p_ok_add: "p2p_ok n \<Longrightarrow> p2p_ok (add_peer p n)"
  by (auto simp: p2p_ok_def add_peer_def hm.wf_insert hm.set_insert)

lemma p2p_ok_remove: "p2p_ok n \<Longrightarrow> p2p_ok (remove_peer i n)"
  by (auto simp: p2p_ok_def remove_peer_def hm.wf_remove hm.remove_filter intro: hm.wf_remove [unfolded hm.remove_filter])

lemma p2p_ok_ban: "p2p_ok n \<Longrightarrow> p2p_ok (ban_peer i n)"
  by (auto simp: p2p_ok_def ban_peer_def remove_peer_def hm.remove_filter intro: hm.wf_remove [unfolded hm.remove_filter])

lemma p2p_ok_change: "p2p_ok n \<Longrightarrow> (\<And>p. pe_id (f p) = pe_id p) \<Longrightarrow> p2p_ok (change_peer i f n)"
  by (auto simp: p2p_ok_def change_peer_def hm.wf_insert hm.set_insert split: option.split dest!: map_of_SomeD)

lemma p2p_ok_connect: "p2p_ok n \<Longrightarrow> p2p_ok (snd (p2p_connect hash now address port n))"
  by (simp add: p2p_connect_def Let_def p2p_ok_add p2p_ok_change)

lemma p2p_ok_fold: "p2p_ok n \<Longrightarrow> (\<And>x n. p2p_ok n \<Longrightarrow> p2p_ok (f x n)) \<Longrightarrow> p2p_ok (fold f xs n)"
  by (induction xs arbitrary: n) auto

lemma p2p_ok_bootstrap: "p2p_ok n \<Longrightarrow> p2p_ok (connect_bootstrap_node hash now node n)"
  by (simp add: connect_bootstrap_node_def Let_def p2p_ok_connect)

lemma p2p_step_ok: "p2p_step hash n n' \<Longrightarrow> p2p_ok n \<Longrightarrow> p2p_ok n'"
proof (induction rule: p2p_step.induct)
  case (3 n i)
  then show ?case by (simp add: p2p_disconnect_def p2p_ok_remove p2p_ok_change)
qed (auto simp: p2p_ok_connect connect_bootstrap_def handle_discovery_response_def start_background_tasks_def
    stop_background_tasks_def p2p_ok_add p2p_ok_remove p2p_ok_ban p2p_ok_bootstrap intro!: p2p_ok_fold,
    simp_all add: p2p_ok_def)

interpretation p2p_run: transition_system "p2p_step hash" p2p_ok "\<lambda>n. \<exists>i. n = p2p_network_new i" for hash
proof unfold_locales
  show "p2p_step hash n n' \<Longrightarrow> p2p_ok n \<Longrightarrow> p2p_ok n'" for n n' by (rule p2p_step_ok)
qed (auto simp: p2p_ok_def p2p_network_new_def hm_wf_def)

text \<open>A banned peer that is out and for which no call is about to insert it.\<close>

definition stays_out :: "bytes32 \<Rightarrow> p2p_network \<times> net_task list \<Rightarrow> bool" where
  "stays_out i s \<longleftrightarrow> i \<in> set (p2_banned (fst s)) \<and> map_of (p2_peers (fst s)) i = None \<and>
     (\<forall>p. InsertPeer p \<in> set (snd s) \<longrightarrow> pe_id p \<noteq> i)"

interpretation out_run: step_closed net_step "stays_out i" for i
proof
  show "net_step s s' \<Longrightarrow> stays_out i s \<Longrightarrow> stays_out i s'" for s s'
    by (induction rule: net_step.induct) (auto simp: stays_out_def remove_peer_def)
qed

lemma str_split_absent: "d \<notin> set s \<Longrightarrow> str_split d s = [s]"
  by (induction s) auto

lemma str_split_at: "d \<notin> set s \<Longrightarrow> str_split d (s @ d # t) = s # str_split d t"
  by (induction s) auto

lemma colon_no_digit: "CHR '':'' \<notin> set (dec_string n)"
proof
  have "digit_of (CHR '':'') = None" by (simp add: digit_of_def)
  moreover assume "CHR '':'' \<in> set (dec_string n)"
  ultimately show False using dec_string_digits by metis
qed

lemma parse_dec_u16: "parse_u16 (dec_string (unat v)) = Some v"
proof -
  have v: "unat v < 65536" using unsigned_less [of v] by simp
  have "digit_of (CHR ''+'') = None" by (simp add: digit_of_def)
  then have "hd (dec_string (unat v)) \<noteq> CHR ''+''" using dec_string_digits [OF hd_in_set [OF dec_string_ne]] by metis
  with v show ?thesis using parse_digits_dec [of "unat v"] by (simp add: parse_u16_def)
qed

section \<open>Properties\<close>

text \<open>C21. When calls run one after the other, a banned peer is never among the peers, whatever is called after the ban.\<close>

theorem banned_peer_absent:
  assumes "(p2p_step hash)\<^sup>*\<^sup>* (p2p_network_new own) n" "i \<in> set (p2_banned n)"
  shows "map_of (p2_peers n) i = None \<and> \<not> is_connected i n"
proof -
  have "p2p_ok n" using p2p_run.reachable_inv [OF assms(1)] by blast
  with assms(2) have "map_of (p2_peers n) i = None" by (auto simp: p2p_ok_def dest!: map_of_SomeD intro: ccontr)
  then show ?thesis by (simp add: is_connected_def)
qed

theorem banned_peer_absent_witness:
  "let n = add_peer (peer_new 2 [7] ''a'' 1) (ban_peer [7] (add_peer (peer_new 1 [7] ''a'' 1) (p2p_network_new [0])))
   in map_of (p2_peers n) [7] = None"
proof -
  let ?n1 = "add_peer (peer_new 1 [7] ''a'' 1) (p2p_network_new [0])"
  let ?n3 = "add_peer (peer_new 2 [7] ''a'' 1) (ban_peer [7] ?n1)"
  have "(p2p_step id)\<^sup>*\<^sup>* (p2p_network_new [0]) ?n3"
    by (rule converse_rtranclp_into_rtranclp [of "p2p_step id", OF p2p_step.intros(4)],
        rule converse_rtranclp_into_rtranclp [of "p2p_step id", OF p2p_step.intros(6)],
        rule r_into_rtranclp [of "p2p_step id", OF p2p_step.intros(4)])
  moreover have "[7] \<in> set (p2_banned ?n3)" by (simp add: add_peer_def ban_peer_def remove_peer_def)
  ultimately show ?thesis using banned_peer_absent [of id "[0]" ?n3 "[7]"] by (simp add: Let_def)
qed

text \<open>When calls interleave this fails: a peer that is banned between the check and the insertion of \<open>add_peer\<close> ends
  up among the peers with no call pending.\<close>

theorem banned_peer_inserted:
  "\<exists>n. net_step\<^sup>*\<^sup>* (p2p_network_new own, []) (n, []) \<and> i \<in> set (p2_banned n) \<and> map_of (p2_peers n) i \<noteq> None"
proof -
  let ?p = "peer_new 0 i [] 0" and ?n0 = "p2p_network_new own"
  let ?n1 = "?n0\<lparr>p2_banned := List.insert i (p2_banned ?n0)\<rparr>"
  let ?n2 = "remove_peer i ?n1"
  let ?n3 = "?n2\<lparr>p2_peers := hm_insert (pe_id ?p) ?p (p2_peers ?n2)\<rparr>"
  have "net_step (?n0, []) (?n0, [InsertPeer ?p])" by (rule add_check) (simp add: p2p_network_new_def)
  moreover have "net_step (?n0, [InsertPeer ?p]) (?n1, [RemovePeer i, InsertPeer ?p])" by (rule ban_record)
  moreover have "net_step (?n1, [RemovePeer i, InsertPeer ?p]) (?n2, [InsertPeer ?p])"
    using ban_remove [of ?n1 "[]" i "[InsertPeer ?p]"] by simp
  moreover have "net_step (?n2, [InsertPeer ?p]) (?n3, [])" using add_insert [of ?n2 "[]" ?p "[]"] by simp
  ultimately have "net_step\<^sup>*\<^sup>* (?n0, []) (?n3, [])"
    by (iprover intro: converse_rtranclp_into_rtranclp rtranclp.rtrancl_refl)
  then show ?thesis by (intro exI [of _ ?n3]) (simp add: remove_peer_def peer_new_def)
qed

text \<open>What remains true of interleaved calls: once a banned peer is out and no insertion of it is pending, it never
  comes back.\<close>

theorem banned_peer_stays_out:
  assumes "net_step\<^sup>*\<^sup>* (n, ts) (n', ts')" "i \<in> set (p2_banned n)" "map_of (p2_peers n) i = None"
    and "\<And>p. InsertPeer p \<in> set ts \<Longrightarrow> pe_id p \<noteq> i"
  shows "i \<in> set (p2_banned n') \<and> map_of (p2_peers n') i = None"
proof -
  have "stays_out i (n, ts)" using assms(2-4) by (auto simp: stays_out_def)
  from out_run.steps_inv [OF assms(1) this] show ?thesis by (simp add: stays_out_def)
qed

theorem banned_peer_stays_out_witness:
  "let n = ban_peer [7] (p2p_network_new [0]); p = peer_new 0 [8] [] 0
   in map_of (p2_peers (n\<lparr>p2_peers := hm_insert (pe_id p) p (p2_peers n)\<rparr>)) [7] = None"
proof -
  let ?n = "ban_peer [7] (p2p_network_new [0])" and ?p = "peer_new 0 [8] [] 0"
  have "net_step\<^sup>*\<^sup>* (?n, [InsertPeer ?p]) (?n\<lparr>p2_peers := hm_insert (pe_id ?p) ?p (p2_peers ?n)\<rparr>, [])"
    using r_into_rtranclp [of net_step, OF add_insert [of ?n "[]" ?p "[]"]] by simp
  from banned_peer_stays_out [OF this, of "[7]"] show ?thesis
    by (simp add: Let_def ban_peer_def remove_peer_def p2p_network_new_def peer_new_def)
qed

text \<open>A broadcast counts the connected peers and every one of its sends succeeds.\<close>

theorem broadcast_sends_all:
  assumes "(p2p_step hash)\<^sup>*\<^sup>* (p2p_network_new own) n"
  shows "broadcast hex m n = length [p \<leftarrow> map snd (p2_peers n). pe_status p = Connected] \<and>
    broadcast_results hex m n = replicate (broadcast hex m n) (Inr ())"
proof -
  have ok: "p2p_ok n" using p2p_run.reachable_inv [OF assms] by blast
  then have w: "hm_wf (p2_peers n)" by (simp add: p2p_ok_def)
  have "send_to_peer hex (pe_id p) m n = Inr ()" if "p \<in> set (get_active_peers n)" for p
  proof -
    from that obtain i where "(i, p) \<in> set (p2_peers n)" "pe_status p = Connected" by (auto simp: get_active_peers_def)
    with ok have "map_of (p2_peers n) (pe_id p) = Some p" by (auto simp: p2p_ok_def hm.entry_iff [OF w, symmetric])
    with \<open>pe_status p = Connected\<close> show ?thesis by (simp add: send_to_peer_def is_connected_def)
  qed
  then have "broadcast_results hex m n = map (\<lambda>p. Inr ()) (get_active_peers n)"
    unfolding broadcast_results_def by (intro map_cong) auto
  then show ?thesis by (simp add: broadcast_def get_active_peers_def map_replicate_const)
qed

theorem broadcast_sends_all_witness:
  "broadcast (\<lambda>b. []) m (snd (p2p_connect id 1 ''a'' 9 (p2p_network_new [0]))) = 1"
proof -
  have "(p2p_step id)\<^sup>*\<^sup>* (p2p_network_new [0]) (snd (p2p_connect id 1 ''a'' 9 (p2p_network_new [0])))"
    by (rule r_into_rtranclp [of "p2p_step id", OF p2p_step.intros(1)])
  from broadcast_sends_all [OF this] show ?thesis
    by (simp add: p2p_connect_def change_peer_def add_peer_def p2p_network_new_def peer_new_def Let_def)
qed

text \<open>Connecting makes a peer that is not banned connected, disconnecting drops it, and the endpoint a peer prints
  connects to the same address and port when it is given as a bootstrap node, given that the address has no colon.\<close>

theorem endpoint_bootstraps:
  assumes "CHR '':'' \<notin> set (pe_address p)" "connect_id hash (pe_address p) (pe_port p) \<notin> set (p2_banned n)"
  shows "connect_bootstrap_node hash now (endpoint p) n = snd (p2p_connect hash now (pe_address p) (pe_port p) n) \<and>
    (let i = connect_id hash (pe_address p) (pe_port p); n' = connect_bootstrap_node hash now (endpoint p) n
     in is_connected i n' \<and> \<not> is_connected i (snd (p2p_disconnect i n')))"
proof -
  have "str_split (CHR '':'') (endpoint p) = [pe_address p, dec_string (unat (pe_port p))]"
    using assms(1) by (simp add: endpoint_def str_split_at str_split_absent colon_no_digit)
  then have e: "connect_bootstrap_node hash now (endpoint p) n = snd (p2p_connect hash now (pe_address p) (pe_port p) n)"
    by (simp add: connect_bootstrap_node_def parse_dec_u16)
  show ?thesis unfolding e using assms(2)
    by (simp add: p2p_connect_def p2p_disconnect_def Let_def is_connected_def change_peer_def add_peer_def remove_peer_def
        peer_new_def)
qed

theorem endpoint_bootstraps_witness:
  "is_connected (connect_id id ''10.0.0.1'' 9100)
     (connect_bootstrap_node id 1 (endpoint (peer_new 0 [3] ''10.0.0.1'' 9100)) (p2p_network_new [0]))"
proof -
  let ?p = "peer_new 0 [3] ''10.0.0.1'' 9100" and ?n = "p2p_network_new [0]"
  have h: "CHR '':'' \<notin> set (pe_address ?p)" "connect_id id (pe_address ?p) (pe_port ?p) \<notin> set (p2_banned ?n)"
    and p: "pe_address ?p = ''10.0.0.1''" "pe_port ?p = 9100"
    by (simp_all add: peer_new_def p2p_network_new_def)
  from endpoint_bootstraps [OF h, THEN conjunct2, of 1] show ?thesis by (simp only: Let_def p)
qed

text \<open>A discovery response that names a connected peer disconnects it and forgets its address.\<close>

theorem discovery_disconnects:
  assumes "pi_peer_id info \<notin> set (p2_banned n)"
  shows "let n' = handle_discovery_response now [info] n in \<not> is_connected (pi_peer_id info) n' \<and>
    map_option pe_address (map_of (p2_peers n') (pi_peer_id info)) = Some []"
  using assms by (simp add: handle_discovery_response_def add_peer_def peer_new_def is_connected_def Let_def)

theorem discovery_disconnects_witness:
  "let n = snd (p2p_connect id 1 ''a'' 9 (p2p_network_new [0])); i = connect_id id ''a'' 9;
       n' = handle_discovery_response 2 [\<lparr>pi_peer_id = i, pi_listen_port = 9, pi_version = 1, pi_capabilities = []\<rparr>] n
   in is_connected i n \<and> \<not> is_connected i n'"
proof -
  let ?n = "snd (p2p_connect id 1 ''a'' 9 (p2p_network_new [0]))" and ?i = "connect_id id ''a'' 9"
  have "is_connected ?i ?n" "p2_banned ?n = []"
    by (simp_all add: p2p_connect_def is_connected_def change_peer_def add_peer_def p2p_network_new_def peer_new_def Let_def)
  then show ?thesis
    using discovery_disconnects [of "\<lparr>pi_peer_id = ?i, pi_listen_port = 9, pi_version = 1, pi_capabilities = []\<rparr>" ?n 2]
    by (simp add: Let_def)
qed

text \<open>A queue returns the messages of a topic in the order they were published.\<close>

theorem topic_in_order:
  "subscribe topic (fold (\<lambda>(t, m). publish t m) ms message_queue_new) =
     (if topic \<in> fst ` set ms then Some [m. (t, m) \<leftarrow> ms, t = topic] else None)"
proof (induction ms rule: rev_induct)
  case Nil
  show ?case by (simp add: subscribe_def message_queue_new_def)
next
  case (snoc tm ms)
  have none: "[m. (t, m) \<leftarrow> ms, t = topic] = []" if "topic \<notin> fst ` set ms" using that by (induction ms) auto
  obtain t m where "tm = (t, m)" by fastforce
  with snoc none show ?case by (auto simp: subscribe_def publish_def hm_push_def update_conv')
qed

text \<open>A node runs from its start to its stop; its mode follows the planes enabled, except that with neither plane it
  is said to run intelligence only.\<close>

theorem node_runs:
  "is_running (node_start n) \<and> \<not> is_running (node_stop n) \<and> \<not> is_running (network_node_new c) \<and>
   (nn_mode (network_node_new c) = FullMode \<longleftrightarrow> nc_truth_plane_enabled c \<and> nc_intelligence_plane_enabled c) \<and>
   (nn_mode (network_node_new c) = IntelligenceOnly \<longleftrightarrow> \<not> nc_truth_plane_enabled c) \<and>
   nn_mode (network_node_new c) \<noteq> LightClient"
  by (simp add: is_running_def node_start_def node_stop_def network_node_new_def)

end
