(* ===== verification/Operators.thy ===== *)
theory Operators
  imports Prelude
begin

text \<open>
  Smaller parts of the intelligence plane: memory regions (\<open>memory.rs\<close>), the operator registry (\<open>operator.rs\<close>), plain
  receipts (\<open>receipt.rs\<close>) and the checks of rendered packages (\<open>render.rs\<close>), all under \<open>crates/intelligence/src\<close>.
  blake3, bincode and the clock are arguments; \<open>f32\<close> values are kept as their bits.
\<close>

section \<open>Memory\<close>

datatype memory_tier = MemEphemeral | MemRegional | MemCommitted

record memory_region =
  mg_id :: bytes32
  mg_tier :: memory_tier
  mg_data :: "(bytes \<times> bytes) list"
  mg_partition_id :: u32
  mg_last_access :: u64
  mg_size_bytes :: u64

definition new_ephemeral :: "bytes32 \<Rightarrow> u32 \<Rightarrow> memory_region" where
  "new_ephemeral i partition_id =
     \<lparr>mg_id = i, mg_tier = MemEphemeral, mg_data = [], mg_partition_id = partition_id, mg_last_access = 0, mg_size_bytes = 0\<rparr>"

definition region_put :: "u64 \<Rightarrow> bytes \<Rightarrow> bytes \<Rightarrow> memory_region \<Rightarrow> memory_region" where
  "region_put now key val g =
     (let old = (case map_of (mg_data g) key of Some v \<Rightarrow> of_nat (length v) | None \<Rightarrow> 0);
          freed = saturating_sub (mg_size_bytes g) old
      in g\<lparr>mg_size_bytes := freed + of_nat (length val), mg_data := hm_insert key val (mg_data g), mg_last_access := now\<rparr>)"

definition region_get :: "u64 \<Rightarrow> bytes \<Rightarrow> memory_region \<Rightarrow> bytes option \<times> memory_region" where
  "region_get now key g = (map_of (mg_data g) key, g\<lparr>mg_last_access := now\<rparr>)"

record intelligence_memory =
  im_ephemeral :: "(bytes32 \<times> memory_region) list"
  im_regional :: "(bytes32 \<times> memory_region) list"
  im_committed :: "(bytes32 \<times> memory_region) list"

definition intelligence_memory_new :: intelligence_memory where
  "intelligence_memory_new = \<lparr>im_ephemeral = [], im_regional = [], im_committed = []\<rparr>"

definition create_ephemeral :: "bytes32 \<Rightarrow> u32 \<Rightarrow> intelligence_memory \<Rightarrow> intelligence_memory" where
  "create_ephemeral i partition_id m = m\<lparr>im_ephemeral := hm_insert i (new_ephemeral i partition_id) (im_ephemeral m)\<rparr>"

definition memory_commit :: "bytes32 \<Rightarrow> bytes32 \<Rightarrow> intelligence_memory \<Rightarrow> memory_region option \<times> intelligence_memory" where
  "memory_commit region_id commitment_hash m =
     (case map_of (im_ephemeral m) region_id of
        Some region \<Rightarrow>
          let committed = region\<lparr>mg_tier := MemCommitted\<rparr>
          in (Some committed, m\<lparr>im_ephemeral := hm_remove region_id (im_ephemeral m),
                                im_committed := hm_insert commitment_hash committed (im_committed m)\<rparr>)
      | None \<Rightarrow> (None, m))"

inductive region_step :: "memory_region \<Rightarrow> memory_region \<Rightarrow> bool" where
  "region_step g (region_put now key val g)"
| "region_step g (snd (region_get now key g))"

section \<open>Operators\<close>

record operator_capabilities =
  oc_gpu_models :: "string list"
  oc_vram_gb :: u32
  oc_kernels_supported :: "bytes32 list"
  oc_max_concurrent_jobs :: u32

datatype intel_operator_status = OpRegistered | OpActive | OpSuspended | OpDeregistered

record intel_operator =
  io_id :: bytes32
  io_pubkey :: bytes32
  io_capabilities :: operator_capabilities
  io_stake :: u64
  io_reputation :: u64
  io_status :: intel_operator_status
  io_region :: string

definition intel_operator_new :: "bytes32 \<Rightarrow> bytes32 \<Rightarrow> operator_capabilities \<Rightarrow> intel_operator" where
  "intel_operator_new i pubkey capabilities =
     \<lparr>io_id = i, io_pubkey = pubkey, io_capabilities = capabilities, io_stake = 0, io_reputation = 1000,
      io_status = OpRegistered, io_region = ''global''\<rparr>"

definition operator_activate :: "intel_operator \<Rightarrow> intel_operator" where
  "operator_activate o1 = o1\<lparr>io_status := OpActive\<rparr>"

definition operator_suspend :: "intel_operator \<Rightarrow> intel_operator" where
  "operator_suspend o1 = o1\<lparr>io_status := OpSuspended\<rparr>"

text \<open>\<open>(self.reputation as i64 + delta).max(0).min(10000)\<close>; the sum wraps as an \<open>i64\<close>.\<close>

definition update_reputation :: "64 word \<Rightarrow> intel_operator \<Rightarrow> intel_operator" where
  "update_reputation delta o1 =
     (let new_rep = min (max (sint (io_reputation o1 + delta)) 0) 10000
      in o1\<lparr>io_reputation := word_of_int new_rep\<rparr>)"

record capability_registry =
  cr_operators :: "(bytes32 \<times> intel_operator) list"
  cr_capability_index :: "(bytes32 \<times> bytes32 list) list"

definition capability_registry_new :: capability_registry where
  "capability_registry_new = \<lparr>cr_operators = [], cr_capability_index = []\<rparr>"

definition capability_register :: "intel_operator \<Rightarrow> capability_registry \<Rightarrow> capability_registry" where
  "capability_register o1 r =
     r\<lparr>cr_capability_index := fold (\<lambda>kernel. hm_push kernel (io_id o1)) (oc_kernels_supported (io_capabilities o1)) (cr_capability_index r),
       cr_operators := hm_insert (io_id o1) o1 (cr_operators r)\<rparr>"

definition capability_get :: "bytes32 \<Rightarrow> capability_registry \<Rightarrow> intel_operator option" where
  "capability_get i r = map_of (cr_operators r) i"

definition get_by_capability :: "bytes32 \<Rightarrow> capability_registry \<Rightarrow> intel_operator list" where
  "get_by_capability kernel_id r =
     (case map_of (cr_capability_index r) kernel_id of None \<Rightarrow> []
      | Some ids \<Rightarrow> List.map_filter (map_of (cr_operators r)) ids)"

definition get_active_intel_operators :: "capability_registry \<Rightarrow> intel_operator list" where
  "get_active_intel_operators r = [o1 \<leftarrow> map snd (cr_operators r). io_status o1 = OpActive]"

section \<open>Receipts\<close>

datatype plain_receipt_status = RcPending | RcVerified | RcChallenged | RcSlashed

record plain_receipt =
  re_id :: bytes32
  re_job_id :: bytes32
  re_operator_id :: bytes32
  re_kernel_id :: bytes32
  re_input_hash :: bytes32
  re_output_hash :: bytes32
  re_compute_used :: u64
  re_fee :: u64
  re_timestamp :: u64
  re_signature :: bytes
  re_status :: plain_receipt_status

text \<open>bincode writes a pair of arrays as their bytes.\<close>

definition plain_receipt_new ::
    "(bytes \<Rightarrow> bytes32) \<Rightarrow> u64 \<Rightarrow> bytes32 \<Rightarrow> bytes32 \<Rightarrow> bytes32 \<Rightarrow> bytes32 \<Rightarrow> bytes32 \<Rightarrow> u64 \<Rightarrow> u64 \<Rightarrow> plain_receipt" where
  "plain_receipt_new hash now job_id operator_id kernel_id input_hash output_hash compute_used fee =
     \<lparr>re_id = hash (job_id @ operator_id), re_job_id = job_id, re_operator_id = operator_id, re_kernel_id = kernel_id,
      re_input_hash = input_hash, re_output_hash = output_hash, re_compute_used = compute_used, re_fee = fee,
      re_timestamp = now, re_signature = [], re_status = RcPending\<rparr>"

definition plain_receipt_sign :: "bytes \<Rightarrow> plain_receipt \<Rightarrow> plain_receipt" where
  "plain_receipt_sign signature r = r\<lparr>re_signature := signature\<rparr>"

definition plain_receipt_verify :: "plain_receipt \<Rightarrow> bool" where
  "plain_receipt_verify r \<longleftrightarrow> \<not> list_all (\<lambda>x. x = 0) (re_signature r)"

section \<open>Rendered packages\<close>

datatype shader_precision_mode = FloatingPoint | FixedPoint | Mixed

datatype color_space = SRGB | LinearSpace | Rec2020 | DciP3

record renderer_constraints =
  rk_require_deterministic_render :: bool
  rk_shader_precision_mode :: shader_precision_mode
  rk_fixed_seed :: "bytes32 option"
  rk_stable_draw_order :: bool
  rk_post_processing_allowed :: bool
  rk_color_space :: color_space

definition renderer_constraints_default :: renderer_constraints where
  "renderer_constraints_default =
     \<lparr>rk_require_deterministic_render = False, rk_shader_precision_mode = FloatingPoint, rk_fixed_seed = None,
      rk_stable_draw_order = False, rk_post_processing_allowed = True, rk_color_space = SRGB\<rparr>"

datatype renderer_profile = SoftProfile | DeterministicProfile | ReferenceProfile

record render_node =
  rn_id :: u32
  rn_name :: string
  rn_transform :: "u32 list"
  rn_geometry_ref :: "u32 option"
  rn_material_ref :: "u32 option"
  rn_children :: "u32 list"

record render_graph =
  rg_nodes :: "render_node list"
  rg_root_nodes :: "u32 list"

datatype shader_type = VertexShader | FragmentShader | ComputeShader | GeometryShader

record shader_reference =
  sr_id :: u32
  sr_name :: string
  sr_shader_type :: shader_type
  sr_source_hash :: bytes32

record procedural_seed =
  ps_id :: u32
  ps_seed_value :: u64
  ps_generator_type :: string

record render_keyframe =
  rf_time_ms :: u64
  rf_node_id :: u32
  rf_property :: string
  rf_value :: bytes

record animation_timeline =
  an_id :: u32
  an_name :: string
  an_duration_ms :: u64
  an_keyframes :: "render_keyframe list"

record render_scene =
  rs_scene_graph :: render_graph
  rs_shader_references :: "shader_reference list"
  rs_procedural_seeds :: "procedural_seed list"
  rs_animation_timelines :: "animation_timeline list"

definition render_scene_new :: render_scene where
  "render_scene_new = \<lparr>rs_scene_graph = \<lparr>rg_nodes = [], rg_root_nodes = []\<rparr>, rs_shader_references = [],
     rs_procedural_seeds = [], rs_animation_timelines = []\<rparr>"

datatype render_asset_type = RTexture | RMesh | RAudio | RFont | RCubemap

record asset_reference =
  af_id :: bytes32
  af_asset_hash :: bytes32
  af_asset_type :: render_asset_type
  af_url :: "string option"

record rendered_metadata =
  rm_created_at_block :: u64
  rm_job_id :: bytes32
  rm_kernel_id :: bytes32
  rm_renderer_profile :: renderer_profile
  rm_renderer_constraints :: renderer_constraints
  rm_deterministic_seed :: "bytes32 option"

record rendered_pack =
  rp_version :: u32
  rp_scene_ir :: render_scene
  rp_asset_references :: "asset_reference list"
  rp_metadata :: rendered_metadata
  rp_output_hash :: bytes32

text \<open>\<open>RPACKCanonical\<close>: everything but the hash.\<close>

type_synonym rendered_canonical = "u32 \<times> render_scene \<times> asset_reference list \<times> rendered_metadata"

definition pack_canonical :: "rendered_pack \<Rightarrow> rendered_canonical" where
  "pack_canonical p = (rp_version p, rp_scene_ir p, rp_asset_references p, rp_metadata p)"

definition pack_output_hash :: "(bytes \<Rightarrow> bytes32) \<Rightarrow> (rendered_canonical \<Rightarrow> bytes) \<Rightarrow> rendered_pack \<Rightarrow> bytes32" where
  "pack_output_hash hash serialize p = hash (serialize (pack_canonical p))"

definition pack_verify_integrity :: "(bytes \<Rightarrow> bytes32) \<Rightarrow> (rendered_canonical \<Rightarrow> bytes) \<Rightarrow> rendered_pack \<Rightarrow> bool" where
  "pack_verify_integrity hash serialize p \<longleftrightarrow> pack_output_hash hash serialize p = rp_output_hash p"

record render_engine =
  eng_profile :: renderer_profile
  eng_constraints :: renderer_constraints

definition render_engine_new :: "renderer_profile \<Rightarrow> renderer_constraints \<Rightarrow> render_engine" where
  "render_engine_new profile constraints = \<lparr>eng_profile = profile, eng_constraints = constraints\<rparr>"

datatype render_error = InvalidRPACKHash | ProfileMismatch | SeedMismatch | AssetHashMismatch | UnsupportedProfile

record validation_result =
  vl_is_valid :: bool
  vl_warnings :: "string list"

definition validate_rpack ::
    "(bytes \<Rightarrow> bytes32) \<Rightarrow> (rendered_canonical \<Rightarrow> bytes) \<Rightarrow> render_engine \<Rightarrow> rendered_pack \<Rightarrow> render_error + validation_result" where
  "validate_rpack hash serialize e p =
     (if \<not> pack_verify_integrity hash serialize p then Inl InvalidRPACKHash
      else if rk_require_deterministic_render (eng_constraints e) \<and>
              rm_renderer_profile (rp_metadata p) \<noteq> DeterministicProfile \<and>
              rm_renderer_profile (rp_metadata p) \<noteq> ReferenceProfile then Inl ProfileMismatch
      else case rk_fixed_seed (eng_constraints e) of
             Some fixed_seed \<Rightarrow>
               if rm_deterministic_seed (rp_metadata p) \<noteq> Some fixed_seed then Inl SeedMismatch
               else Inr \<lparr>vl_is_valid = True, vl_warnings = []\<rparr>
           | None \<Rightarrow> Inr \<lparr>vl_is_valid = True, vl_warnings = []\<rparr>)"

definition validate_asset :: "asset_reference \<Rightarrow> bytes32 \<Rightarrow> render_error + unit" where
  "validate_asset a actual_hash = (if af_asset_hash a \<noteq> actual_hash then Inl AssetHashMismatch else Inr ())"

definition engine_is_deterministic :: "render_engine \<Rightarrow> bool" where
  "engine_is_deterministic e \<longleftrightarrow>
     eng_profile e = DeterministicProfile \<or> eng_profile e = ReferenceProfile \<or> rk_require_deterministic_render (eng_constraints e)"

definition allows_post_processing :: "render_engine \<Rightarrow> bool" where
  "allows_post_processing e \<longleftrightarrow> rk_post_processing_allowed (eng_constraints e) \<and> eng_profile e = SoftProfile"

section \<open>Lemmas\<close>

definition region_puts :: "(u64 \<times> bytes \<times> bytes) list \<Rightarrow> memory_region \<Rightarrow> memory_region" where
  "region_puts ps g = fold (\<lambda>(now, key, val). region_put now key val) ps g"

lemma region_put_wf: "hm_wf (mg_data g) \<Longrightarrow> hm_wf (mg_data (region_put now key val g))"
  by (simp add: region_put_def Let_def hm.wf_insert)

lemma region_put_size:
  assumes "hm_wf (mg_data g)" "unat (mg_size_bytes g) = total length (mg_data g)"
    and "total length (mg_data g) + length val < 2 ^ 64"
  shows "unat (mg_size_bytes (region_put now key val g)) = total length (mg_data (region_put now key val g)) \<and>
    total length (mg_data (region_put now key val g)) \<le> total length (mg_data g) + length val"
proof -
  let ?old = "case map_of (mg_data g) key of Some v \<Rightarrow> length v | None \<Rightarrow> 0"
  let ?rest = "total length (hm_remove key (mg_data g))"
  have split: "total length (mg_data g) = ?old + ?rest"
    using hm.total_split [OF assms(1), of key] hm.remove_absent [of "mg_data g" key] by (auto split: option.split)
  have "(case map_of (mg_data g) key of Some v \<Rightarrow> of_nat (length v) | None \<Rightarrow> (0 :: u64)) = of_nat ?old"
    by (simp split: option.split)
  moreover have "unat (of_nat ?old :: u64) = ?old" using split assms(3) by (intro unat_of_nat_small) simp
  ultimately have freed: "unat (saturating_sub (mg_size_bytes g)
      (case map_of (mg_data g) key of Some v \<Rightarrow> of_nat (length v) | None \<Rightarrow> 0)) = ?rest"
    using assms(2) split by (simp add: unat_saturating_sub)
  have "unat (of_nat (length val) :: u64) = length val" using assms(3) by (intro unat_of_nat_small) simp
  with freed split assms(3) show ?thesis
    by (simp add: region_put_def Let_def hm.total_insert [OF assms(1)] unat_add_no_wrap)
qed

definition registry_covers :: "capability_registry \<Rightarrow> bool" where
  "registry_covers r \<longleftrightarrow> hm_wf (cr_operators r) \<and> (\<forall>(i, o1) \<in> set (cr_operators r). io_id o1 = i \<and>
     (\<forall>k \<in> set (oc_kernels_supported (io_capabilities o1)). i \<in> set (hm_lookup_list (cr_capability_index r) k)))"

lemma lookup_fold_push:
  "set (hm_lookup_list (fold (\<lambda>kernel. hm_push kernel i) ks m) k) = set (hm_lookup_list m k) \<union> (if k \<in> set ks then {i} else {})"
  by (induction ks arbitrary: m) (auto simp: lookup_list_push)

lemma registry_covers_register: "registry_covers r \<Longrightarrow> registry_covers (capability_register o1 r)"
  by (auto simp: registry_covers_def capability_register_def hm.wf_insert hm.set_insert lookup_fold_push)

inductive capability_step :: "capability_registry \<Rightarrow> capability_registry \<Rightarrow> bool" where
  "capability_step r (capability_register o1 r)"

interpretation capability_run: transition_system capability_step registry_covers "\<lambda>r. r = capability_registry_new"
proof unfold_locales
  show "capability_step r r' \<Longrightarrow> registry_covers r \<Longrightarrow> registry_covers r'" for r r'
    by (auto elim!: capability_step.cases intro: registry_covers_register)
qed (auto simp: registry_covers_def capability_registry_new_def hm_wf_def)

section \<open>Properties\<close>

text \<open>The size of a region is the sum of the lengths of the values it holds, over any writes that in total stay below
  \<open>2 ^ 64\<close> bytes, however often keys are overwritten.\<close>

theorem region_size_exact:
  assumes "sum_list (map (\<lambda>(now, key, val). length val) ps) < 2 ^ 64"
  shows "unat (mg_size_bytes (region_puts ps (new_ephemeral i p))) = total length (mg_data (region_puts ps (new_ephemeral i p)))"
proof -
  have "hm_wf (mg_data (region_puts ps (new_ephemeral i p))) \<and>
    unat (mg_size_bytes (region_puts ps (new_ephemeral i p))) = total length (mg_data (region_puts ps (new_ephemeral i p))) \<and>
    total length (mg_data (region_puts ps (new_ephemeral i p))) \<le> sum_list (map (\<lambda>(now, key, val). length val) ps)"
    using assms
  proof (induction ps rule: rev_induct)
    case Nil
    show ?case by (simp add: region_puts_def new_ephemeral_def hm_wf_def)
  next
    case (snoc x xs)
    obtain now key val where x: "x = (now, key, val)" by (cases x)
    with snoc have "hm_wf (mg_data (region_puts xs (new_ephemeral i p)))"
      "unat (mg_size_bytes (region_puts xs (new_ephemeral i p))) = total length (mg_data (region_puts xs (new_ephemeral i p)))"
      "total length (mg_data (region_puts xs (new_ephemeral i p))) \<le> sum_list (map (\<lambda>(now, key, val). length val) xs)" by auto
    with region_put_size [OF this(1,2), of val now key] snoc.prems x show ?case
      by (simp add: region_puts_def region_put_wf)
  qed
  then show ?thesis by simp
qed

theorem region_size_exact_witness:
  "unat (mg_size_bytes (region_puts [(1, [1], [1, 2, 3]), (2, [1], [4])] (new_ephemeral [9] 0))) = 1"
  using region_size_exact [of "[(1, [1], [1, 2, 3]), (2, [1], [4])]" "[9]" 0]
  by (simp add: region_puts_def region_put_def new_ephemeral_def)

text \<open>Committing a region moves it, under its commitment hash, from the ephemeral to the committed regions; committing
  it again finds nothing.\<close>

theorem commit_moves_region:
  "map_of (im_ephemeral m) i = Some g \<Longrightarrow> memory_commit i h m = (r, m') \<Longrightarrow>
   r = Some (g\<lparr>mg_tier := MemCommitted\<rparr>) \<and> map_of (im_committed m') h = r \<and> map_of (im_ephemeral m') i = None \<and>
   memory_commit i h2 m' = (None, m')"
  by (auto simp: memory_commit_def Let_def)

theorem commit_moves_region_witness:
  "let (r, m') = memory_commit [1] [2] (create_ephemeral [1] 0 intelligence_memory_new) in map_of (im_ephemeral m') [1] = None"
proof -
  let ?m = "create_ephemeral [1] 0 intelligence_memory_new"
  obtain r m' where c: "memory_commit [1] [2] ?m = (r, m')" by fastforce
  have "map_of (im_ephemeral ?m) [1] = Some (new_ephemeral [1] 0)"
    by (simp add: create_ephemeral_def intelligence_memory_new_def)
  from commit_moves_region [OF this c] c show ?thesis by simp
qed

text \<open>A reputation stays between 0 and 10000 under any change; where the sum does not leave the 64-bit range the change
  is applied and clamped. A change near the largest value overflows and takes the whole reputation.\<close>

theorem reputation_clamped:
  "unat (io_reputation (update_reputation d o1)) \<le> 10000 \<and>
   (unat (io_reputation o1) \<le> 10000 \<and> sint d < 2 ^ 63 - 10000 \<longrightarrow>
      int (unat (io_reputation (update_reputation d o1))) = min (max (int (unat (io_reputation o1)) + sint d) 0) 10000) \<and>
   io_reputation (update_reputation 0x7FFFFFFFFFFFFFFF (o1\<lparr>io_reputation := 1\<rparr>)) = 0"
proof -
  have v: "int (unat (io_reputation (update_reputation d o1))) = min (max (sint (io_reputation o1 + d)) 0) 10000" for d
    by (simp add: update_reputation_def Let_def unsigned_of_int take_bit_int_eq_self)
  moreover have "sint (io_reputation o1 + d) = int (unat (io_reputation o1)) + sint d"
    if "unat (io_reputation o1) \<le> 10000" "sint d < 2 ^ 63 - 10000"
  proof -
    have r: "sint (io_reputation o1) = int (unat (io_reputation o1))"
    proof -
      have "uint (io_reputation o1) \<le> 10000" using that(1) uint_nat [of "io_reputation o1"] by linarith
      then have "uint (io_reputation o1) < 2 ^ 63" by simp
      moreover have "- (2 ^ 63) \<le> uint (io_reputation o1)" by (rule order_trans [OF _ uint_ge_0]) simp
      ultimately have "signed_take_bit 63 (uint (io_reputation o1)) = uint (io_reputation o1)"
        by (intro signed_take_bit_int_eq_self)
      then show ?thesis by (simp add: sint_uint)
    qed
    moreover have "- (2 ^ 63) \<le> sint d" using sint_ge [of d] by simp
    moreover have "0 \<le> int (unat (io_reputation o1))" "int (unat (io_reputation o1)) \<le> 10000" using that(1) by linarith+
    ultimately have "- (2 ^ 63) \<le> sint (io_reputation o1) + sint d" "sint (io_reputation o1) + sint d < 2 ^ 63"
      using that(2) by linarith+
    then have "signed_take_bit 63 (sint (io_reputation o1) + sint d) = sint (io_reputation o1) + sint d"
      by (rule signed_take_bit_int_eq_self)
    with r show ?thesis by (simp add: sint_word_ariths)
  qed
  moreover have "io_reputation (update_reputation 0x7FFFFFFFFFFFFFFF (o1\<lparr>io_reputation := 1\<rparr>)) = 0"
    by (simp add: update_reputation_def)
  moreover have "int (unat (io_reputation (update_reputation d o1))) \<le> 10000" unfolding v by simp
  then have "unat (io_reputation (update_reputation d o1)) \<le> 10000" by linarith
  ultimately show ?thesis by simp
qed

theorem reputation_clamped_witness:
  "let o1 = intel_operator_new [1] [2] \<lparr>oc_gpu_models = [], oc_vram_gb = 8, oc_kernels_supported = [], oc_max_concurrent_jobs = 1\<rparr>
   in int (unat (io_reputation (update_reputation (- 200) o1))) = 800"
  using reputation_clamped [of "- 200" "intel_operator_new [1] [2] \<lparr>oc_gpu_models = [], oc_vram_gb = 8, oc_kernels_supported = [], oc_max_concurrent_jobs = 1\<rparr>"]
  by (simp add: intel_operator_new_def Let_def)

text \<open>In every registry an operator is found under each kernel it was last registered with.\<close>

theorem operator_found_by_capability:
  assumes "capability_step\<^sup>*\<^sup>* capability_registry_new r" "capability_get i r = Some o1"
    and "k \<in> set (oc_kernels_supported (io_capabilities o1))"
  shows "o1 \<in> set (get_by_capability k r)"
proof -
  have "registry_covers r" using capability_run.reachable_inv [OF assms(1)] by simp
  moreover have "(i, o1) \<in> set (cr_operators r)" using assms(2) by (simp add: capability_get_def map_of_SomeD)
  ultimately have "i \<in> set (hm_lookup_list (cr_capability_index r) k)" using assms(3) by (auto simp: registry_covers_def)
  then obtain ids where "map_of (cr_capability_index r) k = Some ids" "i \<in> set ids"
    by (cases "map_of (cr_capability_index r) k") (auto simp: hm_lookup_list_def)
  with assms(2) show ?thesis by (force simp: get_by_capability_def capability_get_def map_filter_def)
qed

definition example_operator :: "bytes32 list \<Rightarrow> intel_operator" where
  "example_operator ks = intel_operator_new [1] [2] \<lparr>oc_gpu_models = [], oc_vram_gb = 8, oc_kernels_supported = ks, oc_max_concurrent_jobs = 1\<rparr>"

theorem operator_found_by_capability_witness:
  "example_operator [[5]] \<in> set (get_by_capability [5] (capability_register (example_operator [[5]]) capability_registry_new))"
proof -
  let ?r = "capability_register (example_operator [[5]]) capability_registry_new"
  have "capability_step\<^sup>*\<^sup>* capability_registry_new ?r"
    by (rule r_into_rtranclp [of capability_step, OF capability_step.intros])
  moreover have "capability_get [1] ?r = Some (example_operator [[5]])"
    by (simp add: capability_get_def capability_register_def capability_registry_new_def example_operator_def intel_operator_new_def)
  ultimately show ?thesis
    by (rule operator_found_by_capability) (simp add: example_operator_def intel_operator_new_def)
qed

text \<open>An operator registered again without a kernel is still found under it, and one registered twice with a kernel is
  found twice.\<close>

theorem stale_capability:
  "get_by_capability [5] (capability_register (example_operator []) (capability_register (example_operator [[5]]) capability_registry_new)) =
     [example_operator []] \<and>
   length (get_by_capability [5] (capability_register (example_operator [[5]]) (capability_register (example_operator [[5]]) capability_registry_new))) = 2"
  by (simp add: get_by_capability_def capability_register_def capability_registry_new_def example_operator_def
      intel_operator_new_def hm_push_def map_filter_simps)

text \<open>A receipt verifies exactly if some byte of its signature is not zero: no key takes part.\<close>

theorem receipt_verify_any_signature:
  "plain_receipt_verify (plain_receipt_sign sig r) \<longleftrightarrow> (\<exists>b \<in> set sig. b \<noteq> 0)"
  by (auto simp: plain_receipt_verify_def plain_receipt_sign_def list_all_iff)

text \<open>A package sealed with its own hash passes validation exactly if its profile and seed meet the constraints; one
  that was changed after sealing passes only if the two serialized forms have the same digest.\<close>

theorem sealed_pack_validates:
  "validate_rpack hash serialize e (q\<lparr>rp_output_hash := pack_output_hash hash serialize p\<rparr>) = Inr v \<longleftrightarrow>
     v = \<lparr>vl_is_valid = True, vl_warnings = []\<rparr> \<and>
     hash (serialize (pack_canonical q)) = hash (serialize (pack_canonical p)) \<and>
     (rk_require_deterministic_render (eng_constraints e) \<longrightarrow>
        rm_renderer_profile (rp_metadata q) \<in> {DeterministicProfile, ReferenceProfile}) \<and>
     (rk_fixed_seed (eng_constraints e) = None \<or> rm_deterministic_seed (rp_metadata q) = rk_fixed_seed (eng_constraints e))"
  by (auto simp: validate_rpack_def pack_verify_integrity_def pack_output_hash_def pack_canonical_def split: option.split)

theorem sealed_pack_validates_witness:
  "let m = \<lparr>rm_created_at_block = 1, rm_job_id = [], rm_kernel_id = [], rm_renderer_profile = ReferenceProfile,
            rm_renderer_constraints = renderer_constraints_default, rm_deterministic_seed = Some [7]\<rparr>;
       p = \<lparr>rp_version = 1, rp_scene_ir = render_scene_new, rp_asset_references = [], rp_metadata = m, rp_output_hash = []\<rparr>;
       e = render_engine_new DeterministicProfile (renderer_constraints_default\<lparr>rk_fixed_seed := Some [7]\<rparr>)
   in validate_rpack id (\<lambda>c. [1]) e (p\<lparr>rp_output_hash := pack_output_hash id (\<lambda>c. [1]) p\<rparr>) =
        Inr \<lparr>vl_is_valid = True, vl_warnings = []\<rparr>"
  unfolding Let_def sealed_pack_validates by (simp add: render_engine_new_def renderer_constraints_default_def)

end
