(* ===== verification/NodeStore.thy ===== *)
theory NodeStore
  imports Ledger Staking Telemetry
begin

text \<open>
  The store and the RPC server of a truth node, \<open>crates/truth/src/storage.rs\<close> and \<open>rpc.rs\<close>: the ledger, blocks and
  snapshots kept in memory and in the files of a data directory, and the requests answered over them. The file system
  is a map from paths to contents with a function that says which paths cannot be opened; \<open>serde_json\<close> and bincode are
  the fields of \<open>codecs\<close>. A JSON writer streams, so a value that cannot be serialized leaves what was written before
  the error. The mutexes of \<open>rpc.rs\<close> are taken one after the other and each call is one step.
\<close>

section \<open>Storage\<close>

record state_snapshot =
  sp_height :: u64
  sp_state_root :: bytes32
  sp_block_hash :: bytes32

record node_storage =
  st_state :: ledger
  st_blocks :: "(u64 \<times> block) list"
  st_snapshots :: "state_snapshot list"
  st_archival_height :: u64
  st_prune_height :: u64
  st_data_dir :: string

datatype storage_error = StorageIo string | StorageSerialization string | StorageBincode string | StateNotFound
  | BlockNotFound u64

record codecs =
  cd_state_json :: "ledger \<Rightarrow> bytes \<times> string option"
  cd_state_parse :: "bytes \<Rightarrow> string + ledger"
  cd_block_bin :: "block \<Rightarrow> string + bytes"
  cd_block_parse :: "bytes \<Rightarrow> string + block"
  cd_index_json :: "u64 list \<Rightarrow> bytes \<times> string option"
  cd_index_parse :: "bytes \<Rightarrow> string + u64 list"
  cd_snapshots_json :: "state_snapshot list \<Rightarrow> bytes \<times> string option"
  cd_snapshots_parse :: "bytes \<Rightarrow> string + state_snapshot list"

record disk =
  dk_files :: "(string \<times> bytes) list"
  dk_io :: "string \<Rightarrow> string option"

definition node_storage_new :: node_storage where
  "node_storage_new = \<lparr>st_state = ledger_new, st_blocks = [], st_snapshots = [], st_archival_height = 10000,
     st_prune_height = 1000, st_data_dir = []\<rparr>"

definition with_data_dir :: "string \<Rightarrow> node_storage \<Rightarrow> node_storage" where
  "with_data_dir d s = s\<lparr>st_data_dir := d\<rparr>"

definition has_data_dir :: "node_storage \<Rightarrow> bool" where
  "has_data_dir s \<longleftrightarrow> st_data_dir s \<noteq> []"

definition path_join :: "string \<Rightarrow> string \<Rightarrow> string" where
  "path_join d n = (if last d = CHR ''/'' then d @ n else d @ ''/'' @ n)"

definition block_path :: "node_storage \<Rightarrow> u64 \<Rightarrow> string" where
  "block_path s height = path_join (st_data_dir s) (''block_'' @ dec_string (unat height) @ ''.bin'')"

text \<open>Opening a file, truncating it and streaming JSON into it; \<open>fs::write\<close>; reading a file.\<close>

definition write_json :: "string \<Rightarrow> bytes \<times> string option \<Rightarrow> (storage_error, unit, disk) op" where
  "write_json path content d =
     (case dk_io d path of Some e \<Rightarrow> (Inl (StorageIo e), d)
      | None \<Rightarrow>
          (case snd content of Some e \<Rightarrow> Inl (StorageSerialization e) | None \<Rightarrow> Inr (),
           d\<lparr>dk_files := hm_insert path (fst content) (dk_files d)\<rparr>))"

definition write_file :: "string \<Rightarrow> bytes \<Rightarrow> (storage_error, unit, disk) op" where
  "write_file path content d =
     (case dk_io d path of Some e \<Rightarrow> (Inl (StorageIo e), d)
      | None \<Rightarrow> (Inr (), d\<lparr>dk_files := hm_insert path content (dk_files d)\<rparr>))"

definition read_file :: "string \<Rightarrow> disk \<Rightarrow> storage_error + bytes" where
  "read_file path d =
     (case dk_io d path of Some e \<Rightarrow> Inl (StorageIo e)
      | None \<Rightarrow> (case map_of (dk_files d) path of Some bs \<Rightarrow> Inr bs | None \<Rightarrow> Inl (StorageIo ''not found'')))"

definition path_exists :: "string \<Rightarrow> disk \<Rightarrow> bool" where
  "path_exists path d \<longleftrightarrow> map_of (dk_files d) path \<noteq> None"

definition save_state :: "codecs \<Rightarrow> node_storage \<Rightarrow> (storage_error, unit, disk) op" where
  "save_state c s d =
     (if \<not> has_data_dir s then (Inl (StorageIo ''Data directory not set''), d)
      else write_json (path_join (st_data_dir s) ''state.json'') (cd_state_json c (st_state s)) d)"

definition load_state :: "codecs \<Rightarrow> disk \<Rightarrow> (storage_error, unit, node_storage) op" where
  "load_state c d s =
     (let path = path_join (st_data_dir s) ''state.json''
      in if \<not> has_data_dir s then (Inl (StorageIo ''Data directory not set''), s)
         else if \<not> path_exists path d then (Inl StateNotFound, s)
         else case read_file path d of Inl e \<Rightarrow> (Inl e, s)
              | Inr bs \<Rightarrow> (case cd_state_parse c bs of Inl e \<Rightarrow> (Inl (StorageSerialization e), s)
                          | Inr l \<Rightarrow> (Inr (), s\<lparr>st_state := l\<rparr>)))"

fun save_block_files :: "codecs \<Rightarrow> node_storage \<Rightarrow> (u64 \<times> block) list \<Rightarrow> (storage_error, unit, disk) op" where
  "save_block_files c s [] d = (Inr (), d)"
| "save_block_files c s ((height, b) # bs) d =
     (case cd_block_bin c b of Inl e \<Rightarrow> (Inl (StorageBincode e), d)
      | Inr content \<Rightarrow>
          (case write_file (block_path s height) content d of
             (Inl e, d1) \<Rightarrow> (Inl e, d1)
           | (Inr _, d1) \<Rightarrow> save_block_files c s bs d1))"

definition save_blocks :: "codecs \<Rightarrow> node_storage \<Rightarrow> (storage_error, unit, disk) op" where
  "save_blocks c s d =
     (if \<not> has_data_dir s then (Inl (StorageIo ''Data directory not set''), d)
      else case save_block_files c s (st_blocks s) d of
             (Inl e, d1) \<Rightarrow> (Inl e, d1)
           | (Inr _, d1) \<Rightarrow> write_json (path_join (st_data_dir s) ''block_index.json'') (cd_index_json c (map fst (st_blocks s))) d1)"

fun load_block_files :: "codecs \<Rightarrow> disk \<Rightarrow> u64 list \<Rightarrow> (storage_error, unit, node_storage) op" where
  "load_block_files c d [] s = (Inr (), s)"
| "load_block_files c d (height # hs) s =
     (if \<not> path_exists (block_path s height) d then load_block_files c d hs s
      else case read_file (block_path s height) d of Inl e \<Rightarrow> (Inl e, s)
           | Inr content \<Rightarrow>
               (case cd_block_parse c content of Inl e \<Rightarrow> (Inl (StorageBincode e), s)
                | Inr b \<Rightarrow> load_block_files c d hs (s\<lparr>st_blocks := hm_insert height b (st_blocks s)\<rparr>)))"

definition load_blocks :: "codecs \<Rightarrow> disk \<Rightarrow> (storage_error, unit, node_storage) op" where
  "load_blocks c d s =
     (let path = path_join (st_data_dir s) ''block_index.json''
      in if \<not> has_data_dir s then (Inl (StorageIo ''Data directory not set''), s)
         else if \<not> path_exists path d then (Inr (), s)
         else case read_file path d of Inl e \<Rightarrow> (Inl e, s)
              | Inr bs \<Rightarrow> (case cd_index_parse c bs of Inl e \<Rightarrow> (Inl (StorageSerialization e), s)
                          | Inr hs \<Rightarrow> load_block_files c d hs s))"

definition save_snapshots :: "codecs \<Rightarrow> node_storage \<Rightarrow> (storage_error, unit, disk) op" where
  "save_snapshots c s d =
     (if \<not> has_data_dir s then (Inl (StorageIo ''Data directory not set''), d)
      else write_json (path_join (st_data_dir s) ''snapshots.json'') (cd_snapshots_json c (st_snapshots s)) d)"

definition load_snapshots :: "codecs \<Rightarrow> disk \<Rightarrow> (storage_error, unit, node_storage) op" where
  "load_snapshots c d s =
     (let path = path_join (st_data_dir s) ''snapshots.json''
      in if \<not> has_data_dir s then (Inl (StorageIo ''Data directory not set''), s)
         else if \<not> path_exists path d then (Inr (), s)
         else case read_file path d of Inl e \<Rightarrow> (Inl e, s)
              | Inr bs \<Rightarrow> (case cd_snapshots_parse c bs of Inl e \<Rightarrow> (Inl (StorageSerialization e), s)
                          | Inr xs \<Rightarrow> (Inr (), s\<lparr>st_snapshots := xs\<rparr>)))"

text \<open>The operator \<open>?\<close> between two calls on the same state.\<close>

definition try_then :: "('e, unit, 's) op \<Rightarrow> ('e, unit, 's) op \<Rightarrow> ('e, unit, 's) op" where
  "try_then f g s = (case f s of (Inl e, s1) \<Rightarrow> (Inl e, s1) | (Inr _, s1) \<Rightarrow> g s1)"

definition persist :: "codecs \<Rightarrow> node_storage \<Rightarrow> (storage_error, unit, disk) op" where
  "persist c s = try_then (save_state c s) (try_then (save_blocks c s) (save_snapshots c s))"

definition storage_load :: "codecs \<Rightarrow> disk \<Rightarrow> (storage_error, unit, node_storage) op" where
  "storage_load c d = try_then (load_state c d) (try_then (load_blocks c d) (load_snapshots c d))"

definition load_or_create :: "codecs \<Rightarrow> disk \<Rightarrow> (storage_error, unit, node_storage) op" where
  "load_or_create c d s =
     (case storage_load c d s of
        (Inr _, s1) \<Rightarrow> (Inr (), s1)
      | (Inl StateNotFound, s1) \<Rightarrow> (Inr (), s1\<lparr>st_state := ledger_new\<rparr>)
      | (Inl e, s1) \<Rightarrow> (Inl e, s1))"

definition storage_store_block :: "block \<Rightarrow> node_storage \<Rightarrow> node_storage" where
  "storage_store_block b s = s\<lparr>st_blocks := hm_insert (bh_height (b_header b)) b (st_blocks s)\<rparr>"

definition storage_get_block :: "u64 \<Rightarrow> node_storage \<Rightarrow> block option" where
  "storage_get_block height s = map_of (st_blocks s) height"

definition create_snapshot :: "u64 \<Rightarrow> bytes32 \<Rightarrow> bytes32 \<Rightarrow> node_storage \<Rightarrow> node_storage" where
  "create_snapshot height state_root block_hash s =
     (let xs = st_snapshots s @ [\<lparr>sp_height = height, sp_state_root = state_root, sp_block_hash = block_hash\<rparr>]
      in s\<lparr>st_snapshots := (if 100 < length xs then tl xs else xs)\<rparr>)"

definition storage_prune :: "u64 \<Rightarrow> node_storage \<Rightarrow> node_storage" where
  "storage_prune keep_height s = s\<lparr>st_blocks := [e \<leftarrow> st_blocks s. keep_height \<le> fst e]\<rparr>"

definition can_prune :: "u64 \<Rightarrow> node_storage \<Rightarrow> bool" where
  "can_prune height s =
     (if st_snapshots s = [] then False
      else let h = sp_height (last (st_snapshots s)) in height < h \<and> height < h - st_prune_height s)"

definition latest_height :: "node_storage \<Rightarrow> u64" where
  "latest_height s = fold max (map fst (st_blocks s)) 0"

definition storage_is_empty :: "node_storage \<Rightarrow> bool" where
  "storage_is_empty s \<longleftrightarrow> lg_height (st_state s) = 0 \<and> st_blocks s = []"

section \<open>The node and its RPC server\<close>

record node_state =
  ns_state :: ledger
  ns_blocks :: "(u64 \<times> block) list"
  ns_transactions :: "(bytes32 \<times> transaction) list"
  ns_mempool :: "transaction list"
  ns_validator_set :: validator_set

definition node_state_new :: node_state where
  "node_state_new = \<lparr>ns_state = ledger_new, ns_blocks = [], ns_transactions = [], ns_mempool = [],
     ns_validator_set = validator_set_new\<rparr>"

text \<open>The hash of a block and of a transaction: blake3 of their bincode.\<close>

definition node_store_block :: "(block \<Rightarrow> bytes32) \<Rightarrow> block \<Rightarrow> node_state \<Rightarrow> bytes32 \<times> node_state" where
  "node_store_block block_hash b n =
     (block_hash b,
      n\<lparr>ns_blocks := hm_insert (bh_height (b_header b)) b (ns_blocks n),
        ns_transactions := fold (\<lambda>tx. hm_insert (tx_id tx) tx) (b_transactions b) (ns_transactions n)\<rparr>)"

definition add_transaction :: "transaction \<Rightarrow> node_state \<Rightarrow> bytes32 \<times> node_state" where
  "add_transaction tx n =
     (tx_id tx, n\<lparr>ns_mempool := ns_mempool n @ [tx], ns_transactions := hm_insert (tx_id tx) tx (ns_transactions n)\<rparr>)"

definition node_get_block :: "u64 \<Rightarrow> node_state \<Rightarrow> block option" where
  "node_get_block height n = map_of (ns_blocks n) height"

definition node_get_transaction :: "bytes32 \<Rightarrow> node_state \<Rightarrow> transaction option" where
  "node_get_transaction h n = map_of (ns_transactions n) h"

definition get_block_height :: "node_state \<Rightarrow> u64" where
  "get_block_height n = lg_height (ns_state n)"

definition node_get_validators :: "node_state \<Rightarrow> vs_validator list" where
  "node_get_validators n = map snd (vs_validators (ns_validator_set n))"

datatype rpc_request = SubmitTransaction transaction | GetBlock u64 | GetState | GetTransaction bytes32
  | GetValidatorSet | Subscribe string

datatype rpc_response = SubmittedTransaction bytes32 bool | BlockResponse "block option" | StateResponse ledger
  | TransactionResponse "transaction option" | ValidatorSetResponse "vs_validator list" | Subscribed u64 | RpcErrorResponse string

fun handle_request :: "(transaction \<Rightarrow> bytes32) \<Rightarrow> rpc_request \<Rightarrow> node_state \<Rightarrow> rpc_response \<times> node_state" where
  "handle_request tx_hash (SubmitTransaction tx) n =
     (SubmittedTransaction (tx_hash tx) True,
      n\<lparr>ns_transactions := hm_insert (tx_hash tx) tx (ns_transactions n), ns_mempool := ns_mempool n @ [tx]\<rparr>)"
| "handle_request tx_hash (GetBlock height) n = (BlockResponse (map_of (ns_blocks n) height), n)"
| "handle_request tx_hash GetState n = (StateResponse (ns_state n), n)"
| "handle_request tx_hash (GetTransaction h) n = (TransactionResponse (map_of (ns_transactions n) h), n)"
| "handle_request tx_hash GetValidatorSet n = (ValidatorSetResponse (map snd (vs_validators (ns_validator_set n))), n)"
| "handle_request tx_hash (Subscribe event_type) n = (Subscribed 0, n)"

text \<open>
  A connection: each pass reads at most 4096 bytes, takes them as one request, and writes the response. The arguments
  are what the reads and the writes of the socket return; the result holds the responses that were written.
\<close>

fun handle_connection ::
    "(transaction \<Rightarrow> bytes32) \<Rightarrow> (bytes \<Rightarrow> string + rpc_request) \<Rightarrow> (rpc_response \<Rightarrow> string + bytes)
      \<Rightarrow> ((string + bytes) \<times> string option) list \<Rightarrow> node_state \<Rightarrow> (string + unit) \<times> bytes list \<times> node_state" where
  "handle_connection tx_hash parse render [] n = (Inr (), [], n)"
| "handle_connection tx_hash parse render ((r, w) # rs) n =
     (case r of Inl e \<Rightarrow> (Inl e, [], n)
      | Inr bs \<Rightarrow>
          (if bs = [] then (Inr (), [], n)
           else (case parse bs of Inl e \<Rightarrow> (Inl e, [], n)
                 | Inr request \<Rightarrow>
                     (case handle_request tx_hash request n of (response, n1) \<Rightarrow>
                        (case render response of Inl e \<Rightarrow> (Inl e, [], n1)
                         | Inr out \<Rightarrow>
                             (case w of Some e \<Rightarrow> (Inl e, [], n1)
                              | None \<Rightarrow> (case handle_connection tx_hash parse render rs n1 of
                                           (res, outs, n2) \<Rightarrow> (res, out # outs, n2))))))))"

text \<open>The bytes a client sends arrive in reads of the size of the buffer.\<close>

function reads_of :: "bytes \<Rightarrow> bytes list" where
  "reads_of bs = (if bs = [] then [] else take 4096 bs # reads_of (drop 4096 bs))"
  by auto
termination
  by (relation "measure length") auto

declare reads_of.simps [simp del]

inductive node_step :: "(block \<Rightarrow> bytes32) \<Rightarrow> (transaction \<Rightarrow> bytes32) \<Rightarrow> node_state \<Rightarrow> node_state \<Rightarrow> bool" for block_hash tx_hash where
  "node_step block_hash tx_hash n (snd (node_store_block block_hash b n))"
| "node_step block_hash tx_hash n (snd (add_transaction tx n))"
| "node_step block_hash tx_hash n (snd (handle_request tx_hash request n))"

section \<open>Lemmas\<close>

lemma path_join_inject [simp]: "path_join d a = path_join d b \<longleftrightarrow> a = b"
  by (simp add: path_join_def)

lemma dec_string_inject: "dec_string (unat (a :: u64)) = dec_string (unat (b :: u64)) \<Longrightarrow> a = b"
  by (metis parse_dec_u64 option.inject)

lemma block_path_inject [simp]: "block_path s a = block_path s b \<longleftrightarrow> a = b"
  by (auto simp: block_path_def dest: dec_string_inject)

lemma block_path_other:
  "block_path s h \<noteq> path_join (st_data_dir s) ''state.json''" "block_path s h \<noteq> path_join (st_data_dir s) ''snapshots.json''"
  "block_path s h \<noteq> path_join (st_data_dir s) ''block_index.json''"
proof -
  obtain c cs where d: "dec_string (unat h) = c # cs" by (cases "dec_string (unat h)") auto
  then have "digit_of c \<noteq> None" using dec_string_digits [of c "unat h"] by simp
  then have "c \<noteq> CHR ''i''" by (auto simp: digit_of_def)
  then show "block_path s h \<noteq> path_join (st_data_dir s) ''block_index.json''" by (simp add: block_path_def d)
qed (simp_all add: block_path_def)

text \<open>
  The keys of a JSON object are strings, and \<open>serde_json\<close> writes a map whose keys are byte arrays only if it has no entry:
  the first such key ends the writing with an error. The maps of a ledger with byte-array keys are the escrows, the
  operators, the anchors, the artifacts, the rewards and the receipts; the stake index has numbers as keys, which are
  written as strings.
\<close>

definition json_keys_ok :: "ledger \<Rightarrow> bool" where
  "json_keys_ok l \<longleftrightarrow>
     (let st = lg_settlement l
      in job_escrows st = [] \<and> operators (operator_registry_of st) = [] \<and> receipt_anchors st = [] \<and> artifacts st = [] \<and>
         verifier_rewards st = [] \<and> lg_intelligence_receipts l = [])"

text \<open>
  What the codecs give for the values of a storage: the ledger is written exactly when its byte-keyed maps are empty, a
  block, the heights and the snapshots always, and what is written reads back.
\<close>

definition codecs_ok :: "codecs \<Rightarrow> node_storage \<Rightarrow> bool" where
  "codecs_ok c s \<longleftrightarrow>
     (snd (cd_state_json c (st_state s)) = None \<longleftrightarrow> json_keys_ok (st_state s)) \<and>
     (snd (cd_state_json c (st_state s)) = None \<longrightarrow> cd_state_parse c (fst (cd_state_json c (st_state s))) = Inr (st_state s)) \<and>
     (\<forall>e \<in> set (st_blocks s). \<exists>bs. cd_block_bin c (snd e) = Inr bs \<and> cd_block_parse c bs = Inr (snd e)) \<and>
     snd (cd_index_json c (map fst (st_blocks s))) = None \<and>
     cd_index_parse c (fst (cd_index_json c (map fst (st_blocks s)))) = Inr (map fst (st_blocks s)) \<and>
     snd (cd_snapshots_json c (st_snapshots s)) = None \<and>
     cd_snapshots_parse c (fst (cd_snapshots_json c (st_snapshots s))) = Inr (st_snapshots s)"

lemma save_block_files_effect:
  "distinct (map fst bs) \<Longrightarrow> dk_io d = (\<lambda>p. None) \<Longrightarrow>
   \<forall>e \<in> set bs. \<exists>x. cd_block_bin c (snd e) = Inr x \<and> cd_block_parse c x = Inr (snd e) \<Longrightarrow>
   \<exists>d'. save_block_files c s bs d = (Inr (), d') \<and> dk_io d' = (\<lambda>p. None) \<and>
     (\<forall>e \<in> set bs. \<exists>x. map_of (dk_files d') (block_path s (fst e)) = Some x \<and> cd_block_parse c x = Inr (snd e)) \<and>
     (\<forall>p. p \<notin> (block_path s \<circ> fst) ` set bs \<longrightarrow> map_of (dk_files d') p = map_of (dk_files d) p)"
proof (induction bs arbitrary: d)
  case (Cons e bs)
  obtain h b where e: "e = (h, b)" by fastforce
  from Cons.prems(3) e obtain x where x: "cd_block_bin c b = Inr x" "cd_block_parse c x = Inr b" by auto
  let ?d = "d\<lparr>dk_files := hm_insert (block_path s h) x (dk_files d)\<rparr>"
  have "\<exists>d'. save_block_files c s bs ?d = (Inr (), d') \<and> dk_io d' = (\<lambda>p. None) \<and>
     (\<forall>e \<in> set bs. \<exists>x. map_of (dk_files d') (block_path s (fst e)) = Some x \<and> cd_block_parse c x = Inr (snd e)) \<and>
     (\<forall>p. p \<notin> (block_path s \<circ> fst) ` set bs \<longrightarrow> map_of (dk_files d') p = map_of (dk_files ?d) p)"
    by (rule Cons.IH) (use Cons.prems in auto)
  then obtain d' where d': "save_block_files c s bs ?d = (Inr (), d')" "dk_io d' = (\<lambda>p. None)"
    "\<forall>e \<in> set bs. \<exists>x. map_of (dk_files d') (block_path s (fst e)) = Some x \<and> cd_block_parse c x = Inr (snd e)"
    "\<forall>p. p \<notin> (block_path s \<circ> fst) ` set bs \<longrightarrow> map_of (dk_files d') p = map_of (dk_files ?d) p" by blast
  have "block_path s h \<notin> (block_path s \<circ> fst) ` set bs" using Cons.prems(1) e by force
  then have h: "map_of (dk_files d') (block_path s h) = Some x" using d'(4) by simp
  show ?case
  proof (intro exI [of _ d'] conjI ballI allI impI)
    show "save_block_files c s (e # bs) d = (Inr (), d')" by (simp add: e x(1) write_file_def Cons.prems(2) d'(1))
    show "dk_io d' = (\<lambda>p. None)" by (rule d'(2))
    show "\<exists>x. map_of (dk_files d') (block_path s (fst e')) = Some x \<and> cd_block_parse c x = Inr (snd e')"
      if "e' \<in> set (e # bs)" for e' using that d'(3) h x(2) e by (cases "e' = e") auto
    show "map_of (dk_files d') p = map_of (dk_files d) p" if "p \<notin> (block_path s \<circ> fst) ` set (e # bs)" for p
      using that d'(4) e by simp
  qed
qed simp

lemma load_block_files_effect:
  "dk_io d = (\<lambda>p. None) \<Longrightarrow>
   \<forall>h \<in> set hs. \<exists>x. map_of (dk_files d) (block_path t h) = Some x \<and> cd_block_parse c x = Inr (f h) \<Longrightarrow>
   \<exists>t'. load_block_files c d hs t = (Inr (), t') \<and> st_state t' = st_state t \<and> st_data_dir t' = st_data_dir t \<and>
     map_of (st_blocks t') = (\<lambda>h. if h \<in> set hs then Some (f h) else map_of (st_blocks t) h)"
proof (induction hs arbitrary: t)
  case (Cons h hs)
  from Cons.prems(2) obtain x where x: "map_of (dk_files d) (block_path t h) = Some x" "cd_block_parse c x = Inr (f h)" by auto
  let ?t = "t\<lparr>st_blocks := hm_insert h (f h) (st_blocks t)\<rparr>"
  have same: "block_path ?t = block_path t" by (simp add: block_path_def fun_eq_iff)
  have "\<exists>t'. load_block_files c d hs ?t = (Inr (), t') \<and> st_state t' = st_state ?t \<and> st_data_dir t' = st_data_dir ?t \<and>
     map_of (st_blocks t') = (\<lambda>h. if h \<in> set hs then Some (f h) else map_of (st_blocks ?t) h)"
    by (rule Cons.IH) (use Cons.prems same in simp_all)
  then obtain t' where t': "load_block_files c d hs ?t = (Inr (), t')" "st_state t' = st_state t" "st_data_dir t' = st_data_dir t"
    "map_of (st_blocks t') = (\<lambda>h. if h \<in> set hs then Some (f h) else map_of (st_blocks ?t) h)" by auto
  have "load_block_files c d (h # hs) t = (Inr (), t')" using x Cons.prems(1) t'(1) by (simp add: path_exists_def read_file_def)
  moreover have "map_of (st_blocks t') = (\<lambda>j. if j \<in> set (h # hs) then Some (f j) else map_of (st_blocks t) j)"
    by (simp add: t'(4) fun_eq_iff)
  ultimately show ?case using t'(2,3) by blast
qed simp

text \<open>Every transaction is indexed under its id or its hash, and every waiting one is indexed.\<close>

definition node_indexed :: "(transaction \<Rightarrow> bytes32) \<Rightarrow> node_state \<Rightarrow> bool" where
  "node_indexed tx_hash n \<longleftrightarrow> hm_wf (ns_transactions n) \<and>
     (\<forall>(h, tx) \<in> set (ns_transactions n). h = tx_id tx \<or> h = tx_hash tx) \<and>
     (\<forall>tx \<in> set (ns_mempool n). map_of (ns_transactions n) (tx_id tx) \<noteq> None \<or> map_of (ns_transactions n) (tx_hash tx) \<noteq> None)"

lemma node_indexed_insert:
  assumes "node_indexed tx_hash n" "h = tx_id tx \<or> h = tx_hash tx"
  shows "node_indexed tx_hash (n\<lparr>ns_transactions := hm_insert h tx (ns_transactions n)\<rparr>) \<and>
    node_indexed tx_hash (n\<lparr>ns_transactions := hm_insert h tx (ns_transactions n), ns_mempool := ns_mempool n @ [tx]\<rparr>)"
  using assms by (auto simp: node_indexed_def hm.wf_insert hm.set_insert)

lemma node_indexed_block:
  "node_indexed tx_hash n \<Longrightarrow>
   node_indexed tx_hash (n\<lparr>ns_transactions := fold (\<lambda>tx. hm_insert (tx_id tx) tx) txs (ns_transactions n)\<rparr>)"
proof (induction txs arbitrary: n)
  case (Cons tx txs)
  from node_indexed_insert [OF Cons.prems, of "tx_id tx" tx]
  have "node_indexed tx_hash (n\<lparr>ns_transactions := hm_insert (tx_id tx) tx (ns_transactions n)\<rparr>)" by simp
  from Cons.IH [OF this] show ?case by simp
qed simp

lemma node_step_indexed: "node_step block_hash tx_hash n n' \<Longrightarrow> node_indexed tx_hash n \<Longrightarrow> node_indexed tx_hash n'"
proof (induction rule: node_step.induct)
  case (1 n b)
  from node_indexed_block [OF 1, of "b_transactions b"] show ?case by (simp add: node_store_block_def node_indexed_def)
next
  case (2 n tx)
  from node_indexed_insert [OF 2, of "tx_id tx" tx] show ?case by (simp add: add_transaction_def node_indexed_def)
next
  case (3 n request)
  then show ?case by (cases request) (use node_indexed_insert in auto)
qed

interpretation node_run: transition_system "node_step block_hash tx_hash" "node_indexed tx_hash" "\<lambda>n. n = node_state_new"
  for block_hash tx_hash
proof unfold_locales
  show "node_step block_hash tx_hash n n' \<Longrightarrow> node_indexed tx_hash n \<Longrightarrow> node_indexed tx_hash n'" for n n'
    by (rule node_step_indexed)
qed (auto simp: node_indexed_def node_state_new_def hm_wf_def)

lemma create_snapshot_new:
  "st_snapshots (fold (\<lambda>(h, r, b). create_snapshot h r b) xs node_storage_new) =
     drop (length xs - 100) (map (\<lambda>(h, r, b). \<lparr>sp_height = h, sp_state_root = r, sp_block_hash = b\<rparr>) xs)"
proof (induction xs rule: rev_induct)
  case (snoc x xs)
  obtain h r b where x: "x = (h, r, b)" by (cases x)
  let ?ys = "map (\<lambda>(h, r, b). \<lparr>sp_height = h, sp_state_root = r, sp_block_hash = b\<rparr>) xs"
  let ?m = "\<lparr>sp_height = h, sp_state_root = r, sp_block_hash = b\<rparr>"
  let ?s = "fold (\<lambda>(h, r, b). create_snapshot h r b) xs node_storage_new"
  have "st_snapshots (create_snapshot h r b ?s) =
      (let ys = st_snapshots ?s @ [?m] in if 100 < length ys then tl ys else ys)" by (simp add: create_snapshot_def Let_def)
  also have "\<dots> = (let ys = drop (length ?ys - 100) ?ys @ [?m] in if 100 < length ys then tl ys else ys)"
    by (simp only: snoc length_map)
  also have "\<dots> = drop (length (?ys @ [?m]) - 100) (?ys @ [?m])" by (rule bounded_push) simp
  finally show ?case by (simp add: x)
qed (simp add: node_storage_new_def)

lemma fold_max_word: "xs \<noteq> [] \<Longrightarrow> fold max xs (a :: u64) = max a (Max (set xs))"
proof (induction xs arbitrary: a)
  case (Cons x xs)
  then show ?case by (cases "xs = []") (auto simp: max.assoc max.commute max.left_commute)
qed simp

text \<open>The requests of a client, answered one after the other.\<close>

fun serve_all :: "(transaction \<Rightarrow> bytes32) \<Rightarrow> rpc_request list \<Rightarrow> node_state \<Rightarrow> rpc_response list \<times> node_state" where
  "serve_all tx_hash [] n = ([], n)"
| "serve_all tx_hash (q # qs) n =
     (case handle_request tx_hash q n of (r, n1) \<Rightarrow> case serve_all tx_hash qs n1 of (rs, n2) \<Rightarrow> (r # rs, n2))"

section \<open>Properties of the store\<close>

definition sample_block :: block where
  "sample_block = block_new \<lparr>bh_height = 3, bh_timestamp = 0, bh_parent_hash = zero32, bh_state_root = zero32,
     bh_receipts_root = zero32, bh_validator_set_hash = zero32\<rparr> []"

definition sample_storage :: node_storage where
  "sample_storage = storage_store_block sample_block (with_data_dir ''data'' node_storage_new)"

definition sample_codecs :: codecs where
  "sample_codecs = \<lparr>cd_state_json = (\<lambda>l. if json_keys_ok l then ([1], None) else ([123], Some ''key must be a string'')),
     cd_state_parse = (\<lambda>b. if b = [1] then Inr ledger_new else Inl ''eof''),
     cd_block_bin = (\<lambda>b. Inr [2]), cd_block_parse = (\<lambda>b. Inr sample_block), cd_index_json = (\<lambda>hs. ([3], None)),
     cd_index_parse = (\<lambda>b. Inr [3]), cd_snapshots_json = (\<lambda>xs. ([4], None)), cd_snapshots_parse = (\<lambda>b. Inr [])\<rparr>"

lemmas sample_defs = sample_codecs_def sample_storage_def sample_block_def storage_store_block_def with_data_dir_def
  node_storage_new_def block_new_def

lemma persist_load_keys:
  assumes wf: "hm_wf (st_blocks s)" and dir: "has_data_dir s" and io: "dk_io d = (\<lambda>p. None)" and codecs: "codecs_ok c s"
    and keys: "json_keys_ok (st_state s)"
  shows "\<exists>d' t. persist c s d = (Inr (), d') \<and> storage_load c d' (with_data_dir (st_data_dir s) node_storage_new) = (Inr (), t) \<and>
    st_state t = st_state s \<and> st_snapshots t = st_snapshots s \<and> (\<forall>h. storage_get_block h t = storage_get_block h s)"
proof -
  let ?t = "with_data_dir (st_data_dir s) node_storage_new"
  let ?p = "path_join (st_data_dir s)"
  let ?state = "fst (cd_state_json c (st_state s))"
  let ?index = "fst (cd_index_json c (map fst (st_blocks s)))"
  let ?snaps = "fst (cd_snapshots_json c (st_snapshots s))"
  define d1 where "d1 = d\<lparr>dk_files := hm_insert (?p ''state.json'') ?state (dk_files d)\<rparr>"
  have io1: "dk_io d1 = (\<lambda>p. None)" by (simp add: d1_def io)
  have "\<exists>d'. save_block_files c s (st_blocks s) d1 = (Inr (), d') \<and> dk_io d' = (\<lambda>p. None) \<and>
     (\<forall>e \<in> set (st_blocks s). \<exists>x. map_of (dk_files d') (block_path s (fst e)) = Some x \<and> cd_block_parse c x = Inr (snd e)) \<and>
     (\<forall>p. p \<notin> (block_path s \<circ> fst) ` set (st_blocks s) \<longrightarrow> map_of (dk_files d') p = map_of (dk_files d1) p)"
    by (rule save_block_files_effect) (use wf codecs io1 in \<open>auto simp: codecs_ok_def hm_wf_def\<close>)
  then obtain d2 where d2: "save_block_files c s (st_blocks s) d1 = (Inr (), d2)" "dk_io d2 = (\<lambda>p. None)"
    "\<And>e. e \<in> set (st_blocks s) \<Longrightarrow> \<exists>x. map_of (dk_files d2) (block_path s (fst e)) = Some x \<and> cd_block_parse c x = Inr (snd e)"
    "\<And>p. p \<notin> (block_path s \<circ> fst) ` set (st_blocks s) \<Longrightarrow> map_of (dk_files d2) p = map_of (dk_files d1) p" by blast
  define d4 where "d4 = d2\<lparr>dk_files := hm_insert (?p ''snapshots.json'') ?snaps (hm_insert (?p ''block_index.json'') ?index (dk_files d2))\<rparr>"
  have saved: "persist c s d = (Inr (), d4)"
    using codecs keys dir io d2(1,2) by (simp add: persist_def try_then_def save_state_def save_blocks_def save_snapshots_def
        write_json_def codecs_ok_def d1_def d4_def)
  have io4: "dk_io d4 = (\<lambda>p. None)" by (simp add: d4_def d2(2))
  have "?p ''state.json'' \<notin> (block_path s \<circ> fst) ` set (st_blocks s)"
  proof
    assume "?p ''state.json'' \<in> (block_path s \<circ> fst) ` set (st_blocks s)"
    then obtain e :: "u64 \<times> block" where "?p ''state.json'' = block_path s (fst e)" unfolding image_iff comp_apply by blast
    with block_path_other(1) [of s "fst e"] show False by (simp only: simp_thms)
  qed
  then have state: "map_of (dk_files d4) (?p ''state.json'') = Some ?state" using d2(4) by (simp add: d4_def d1_def)
  have index: "map_of (dk_files d4) (?p ''block_index.json'') = Some ?index" by (simp add: d4_def)
  have snaps: "map_of (dk_files d4) (?p ''snapshots.json'') = Some ?snaps" by (simp add: d4_def)
  let ?t1 = "?t\<lparr>st_state := st_state s\<rparr>"
  have paths: "block_path ?t1 = block_path s" by (simp add: block_path_def with_data_dir_def fun_eq_iff)
  have blocks: "\<exists>x. map_of (dk_files d4) (block_path ?t1 h) = Some x \<and> cd_block_parse c x = Inr (the (map_of (st_blocks s) h))"
    if "h \<in> set (map fst (st_blocks s))" for h
  proof -
    from that obtain b where b: "(h, b) \<in> set (st_blocks s)" by auto
    then have "map_of (st_blocks s) h = Some b" using wf by (simp add: hm_wf_def)
    then show ?thesis using d2(3) [OF b] paths by (simp add: d4_def block_path_other)
  qed
  obtain t2 where t2: "load_block_files c d4 (map fst (st_blocks s)) ?t1 = (Inr (), t2)" "st_state t2 = st_state ?t1"
    "st_data_dir t2 = st_data_dir ?t1"
    "map_of (st_blocks t2) =
       (\<lambda>h. if h \<in> set (map fst (st_blocks s)) then Some (the (map_of (st_blocks s) h)) else map_of (st_blocks ?t1) h)"
    using load_block_files_effect [of d4 "map fst (st_blocks s)" ?t1 c "\<lambda>h. the (map_of (st_blocks s) h)"] io4 blocks by blast
  have get: "map_of (st_blocks t2) h = map_of (st_blocks s) h" for h
    using map_of_eq_None_iff [of "st_blocks s" h] by (auto simp: t2(4) with_data_dir_def node_storage_new_def)
  have dirs: "has_data_dir ?t" "has_data_dir ?t1" "has_data_dir t2" "st_data_dir ?t = st_data_dir s" "st_data_dir t2 = st_data_dir s"
    using dir t2(3) by (simp_all add: has_data_dir_def with_data_dir_def)
  have "load_state c d4 ?t = (Inr (), ?t1)"
    using codecs keys dirs state io4 by (simp add: load_state_def path_exists_def read_file_def codecs_ok_def Let_def)
  moreover have "load_blocks c d4 ?t1 = (Inr (), t2)"
    using codecs dirs index io4 t2(1) by (simp add: load_blocks_def path_exists_def read_file_def codecs_ok_def Let_def)
  moreover have "load_snapshots c d4 t2 = (Inr (), t2\<lparr>st_snapshots := st_snapshots s\<rparr>)"
    using codecs dirs snaps io4 by (simp add: load_snapshots_def path_exists_def read_file_def codecs_ok_def Let_def)
  ultimately have "storage_load c d4 ?t = (Inr (), t2\<lparr>st_snapshots := st_snapshots s\<rparr>)" by (simp add: storage_load_def try_then_def)
  with saved t2(2) get show ?thesis by (auto simp: storage_get_block_def)
qed

text \<open>C14. In a storage with a data directory, while no file operation fails and the codecs do what \<open>codecs_ok\<close> says, persisting
  succeeds exactly when the byte-keyed maps of the ledger are empty, and then a new storage loads the same ledger,
  snapshots and blocks from the directory; otherwise it fails with a serialization error, having replaced the state file
  and touched no other.\<close>

theorem persist_load:
  assumes "hm_wf (st_blocks s)" "has_data_dir s" "dk_io d = (\<lambda>p. None)" "codecs_ok c s"
  shows "if json_keys_ok (st_state s)
    then \<exists>d' t. persist c s d = (Inr (), d') \<and> storage_load c d' (with_data_dir (st_data_dir s) node_storage_new) = (Inr (), t) \<and>
      st_state t = st_state s \<and> st_snapshots t = st_snapshots s \<and> (\<forall>h. storage_get_block h t = storage_get_block h s)
    else \<exists>e part. persist c s d = (Inl (StorageSerialization e),
      d\<lparr>dk_files := hm_insert (path_join (st_data_dir s) ''state.json'') part (dk_files d)\<rparr>)"
proof (cases "json_keys_ok (st_state s)")
  case True
  with persist_load_keys [OF assms True] show ?thesis by simp
next
  case False
  with assms(4) obtain e where "snd (cd_state_json c (st_state s)) = Some e" by (auto simp: codecs_ok_def)
  with assms(2,3) have "persist c s d = (Inl (StorageSerialization e),
      d\<lparr>dk_files := hm_insert (path_join (st_data_dir s) ''state.json'') (fst (cd_state_json c (st_state s))) (dk_files d)\<rparr>)"
    by (simp add: persist_def try_then_def save_state_def write_json_def)
  with False show ?thesis by auto
qed

text \<open>A storage with a block is persisted and read back; after an operator registered, it is not persisted.\<close>

theorem persist_load_witness:
  "let d = \<lparr>dk_files = [], dk_io = (\<lambda>p. None)\<rparr>;
       s' = sample_storage\<lparr>st_state := (st_state sample_storage)\<lparr>lg_settlement := settlement_new
         \<lparr>operator_registry_of := register (sample_operator [7] 2500) registry_new\<rparr>\<rparr>\<rparr>
   in (\<exists>d' t. persist sample_codecs sample_storage d = (Inr (), d') \<and>
        storage_load sample_codecs d' (with_data_dir ''data'' node_storage_new) = (Inr (), t) \<and> storage_get_block 3 t = Some sample_block) \<and>
      (\<exists>e part. persist sample_codecs s' d = (Inl (StorageSerialization e), \<lparr>dk_files = [(''data/state.json'', part)], dk_io = (\<lambda>p. None)\<rparr>))"
proof -
  let ?d = "\<lparr>dk_files = [], dk_io = (\<lambda>p. None)\<rparr>"
  let ?s = "sample_storage\<lparr>st_state := (st_state sample_storage)\<lparr>lg_settlement := settlement_new
         \<lparr>operator_registry_of := register (sample_operator [7] 2500) registry_new\<rparr>\<rparr>\<rparr>"
  have k: "json_keys_ok (st_state sample_storage)" "\<not> json_keys_ok (st_state ?s)"
    by (simp_all add: json_keys_ok_def sample_defs ledger_new_def settlement_new_def registry_new_def register_def)
  have p: "st_data_dir sample_storage = ''data''" "path_join ''data'' ''state.json'' = ''data/state.json''"
    "storage_get_block 3 sample_storage = Some sample_block"
    by (simp_all add: sample_defs path_join_def storage_get_block_def)
  have h: "hm_wf (st_blocks sample_storage)" "has_data_dir sample_storage" "codecs_ok sample_codecs sample_storage"
    using k(1) by (simp_all add: sample_defs hm_wf_def has_data_dir_def codecs_ok_def)
  have h': "hm_wf (st_blocks ?s)" "has_data_dir ?s" "codecs_ok sample_codecs ?s"
    using k(2) by (simp_all add: sample_defs hm_wf_def has_data_dir_def codecs_ok_def)
  have "\<exists>d' t. persist sample_codecs sample_storage ?d = (Inr (), d') \<and>
        storage_load sample_codecs d' (with_data_dir ''data'' node_storage_new) = (Inr (), t) \<and> storage_get_block 3 t = Some sample_block"
    using persist_load [OF h(1,2) _ h(3), of ?d] k(1) p by auto
  moreover have "\<exists>e part. persist sample_codecs ?s ?d = (Inl (StorageSerialization e), \<lparr>dk_files = [(''data/state.json'', part)], dk_io = (\<lambda>p. None)\<rparr>)"
    using persist_load [OF h'(1,2) _ h'(3), of ?d] k(2) p by auto
  ultimately show ?thesis unfolding Let_def by blast
qed

text \<open>When the state cannot be serialized, saving it fails and the state file that was there before is lost: what was written
  up to the error takes its place, and a node that starts from the directory fails.\<close>

theorem failed_save_loses_state:
  assumes "has_data_dir s" "\<And>p. dk_io d p = None" "cd_state_json c (st_state s) = (part, Some e)" "cd_state_parse c part = Inl e'"
  shows "fst (persist c s d) = Inl (StorageSerialization e) \<and>
    fst (load_or_create c (snd (persist c s d)) (with_data_dir (st_data_dir s) node_storage_new)) = Inl (StorageSerialization e')"
  using assms by (simp add: persist_def try_then_def save_state_def write_json_def load_or_create_def storage_load_def
      load_state_def path_exists_def read_file_def has_data_dir_def with_data_dir_def Let_def)

theorem failed_save_loses_state_witness:
  "let c = sample_codecs\<lparr>cd_state_json := \<lambda>l. ([123], Some ''key must be a string'')\<rparr>;
       d = \<lparr>dk_files = [(''data/state.json'', [1])], dk_io = (\<lambda>p. None)\<rparr>;
       t = with_data_dir ''data'' node_storage_new
   in fst (storage_load c d t) = Inr () \<and> fst (load_or_create c (snd (persist c sample_storage d)) t) = Inl (StorageSerialization ''eof'')"
  using failed_save_loses_state [of sample_storage "\<lparr>dk_files = [(''data/state.json'', [1])], dk_io = (\<lambda>p. None)\<rparr>"
      "sample_codecs\<lparr>cd_state_json := \<lambda>l. ([123], Some ''key must be a string'')\<rparr>" "[123]" "''key must be a string''" "''eof''"]
  by (simp add: sample_defs has_data_dir_def storage_load_def load_state_def load_blocks_def load_snapshots_def try_then_def
      path_exists_def read_file_def path_join_def Let_def)

text \<open>Blocks below the last snapshot less the prune height may be pruned; with a snapshot below the prune height the
  difference wraps and every block below the snapshot may.\<close>

theorem can_prune_exact:
  "can_prune height s \<longleftrightarrow> st_snapshots s \<noteq> [] \<and>
     (let h = sp_height (last (st_snapshots s))
      in if st_prune_height s \<le> h then height < h - st_prune_height s else height < h)"
proof -
  have "a < h \<and> a < h - p \<longleftrightarrow> (if p \<le> h then a < h - p else a < h)" for a h p :: u64
  proof (cases "p \<le> h")
    case True
    then have "h - p \<le> h" by (rule word_sub_le)
    with True show ?thesis by auto
  next
    case False
    then have "a < h \<Longrightarrow> a < h - p" 
      by (simp add: word_less_nat_alt word_le_nat_alt unat_sub_if') (use unat_lt_u64 [of p] in linarith)
    with False show ?thesis by auto
  qed
  then show ?thesis by (simp add: can_prune_def Let_def)
qed

text \<open>A storage holds the last hundred snapshots made, in order.\<close>

theorem snapshots_keep_last:
  "st_snapshots (fold (\<lambda>(h, r, b). create_snapshot h r b) xs node_storage_new) =
     drop (length xs - 100) (map (\<lambda>(h, r, b). \<lparr>sp_height = h, sp_state_root = r, sp_block_hash = b\<rparr>) xs)"
  by (rule create_snapshot_new)

text \<open>Pruning drops exactly the blocks below the height, and the latest height is the greatest one held.\<close>

theorem prune_exact:
  "storage_get_block h (storage_prune k s) = (if k \<le> h then storage_get_block h s else None) \<and>
   latest_height s = (if st_blocks s = [] then 0 else Max (fst ` set (st_blocks s)))"
proof -
  have "map_of [e \<leftarrow> bs. k \<le> fst e] h = (if k \<le> h then map_of bs h else None)" for bs :: "(u64 \<times> block) list"
    by (induction bs) auto
  moreover have "latest_height s = (if st_blocks s = [] then 0 else Max (fst ` set (st_blocks s)))"
    using fold_max_word [of "map fst (st_blocks s)" 0] by (simp add: latest_height_def max_def)
  ultimately show ?thesis by (simp add: storage_get_block_def storage_prune_def)
qed

section \<open>Properties of the RPC server\<close>

text \<open>In every state a node reaches, what a lookup finds has the id or the hash asked for, and a lookup of the id or of the
  hash of a waiting transaction finds something.\<close>

theorem transactions_indexed:
  assumes "(node_step block_hash tx_hash)\<^sup>*\<^sup>* node_state_new n"
  shows "(node_get_transaction h n = Some tx \<longrightarrow> h = tx_id tx \<or> h = tx_hash tx) \<and>
    (tx' \<in> set (ns_mempool n) \<longrightarrow> node_get_transaction (tx_id tx') n \<noteq> None \<or> node_get_transaction (tx_hash tx') n \<noteq> None)"
  using node_run.reachable_inv [OF assms refl] by (auto simp: node_indexed_def node_get_transaction_def dest: map_of_SomeD)

definition sample_tx :: transaction where
  "sample_tx = \<lparr>tx_id = zero32, tx_sender = zero32, tx_type = Transfer, tx_payload = [], tx_nonce = 0, tx_fee = 0, tx_signature = []\<rparr>"

theorem transactions_indexed_witness:
  "let n = snd (handle_request (\<lambda>tx. [1]) (SubmitTransaction sample_tx) node_state_new)
   in node_get_transaction (tx_id sample_tx) n \<noteq> None \<or> node_get_transaction [1] n \<noteq> None"
  using transactions_indexed [OF r_into_rtranclp [of "node_step (\<lambda>b. []) (\<lambda>tx. [1])", OF
        node_step.intros(3) [of "\<lambda>b. []" "\<lambda>tx. [1]" node_state_new "SubmitTransaction sample_tx"]], of "[]" sample_tx sample_tx]
  by (simp add: node_state_new_def)

text \<open>A submitted transaction is always accepted, even if it waits already, and found under the hash of the response; what
  the node holds under its id does not change, unless that is its hash.\<close>

theorem submitted_found_by_hash:
  "(case handle_request tx_hash (SubmitTransaction tx) n of
     (r, n') \<Rightarrow> r = SubmittedTransaction (tx_hash tx) True \<and> ns_mempool n' = ns_mempool n @ [tx] \<and>
       fst (handle_request tx_hash (GetTransaction (tx_hash tx)) n') = TransactionResponse (Some tx) \<and>
       node_get_transaction (tx_id tx) n' = (if tx_id tx = tx_hash tx then Some tx else node_get_transaction (tx_id tx) n))"
  by (simp add: node_get_transaction_def)

text \<open>A connection whose reads each hold one request answers them in order, one response each.\<close>

theorem connection_serves_in_order:
  assumes "\<And>q. q \<in> set qs \<Longrightarrow> parse (enc q) = Inr q \<and> enc q \<noteq> []" "\<And>r. render r = Inr (out r)"
  shows "handle_connection tx_hash parse render (map (\<lambda>q. (Inr (enc q), None)) qs) n =
    (case serve_all tx_hash qs n of (rs, n') \<Rightarrow> (Inr (), map out rs, n'))"
  using assms by (induction qs arbitrary: n) (simp_all split: prod.splits)

theorem connection_serves_in_order_witness:
  "handle_connection (\<lambda>tx. []) (\<lambda>b. if b = [1] then Inr GetState else Inr (GetBlock 3)) (\<lambda>r. Inr (case r of StateResponse l \<Rightarrow> [8] | _ \<Rightarrow> [9]))
     [(Inr [2], None), (Inr [1], None)] node_state_new = (Inr (), [[9], [8]], node_state_new)"
  using connection_serves_in_order [of "[GetBlock 3, GetState]" "\<lambda>b. if b = [1] then Inr GetState else Inr (GetBlock 3)"
      "\<lambda>q. if q = GetState then [1] else [2]" "\<lambda>r. Inr (case r of StateResponse l \<Rightarrow> [8] | _ \<Rightarrow> [9])"
      "\<lambda>r. case r of StateResponse l \<Rightarrow> [8] | _ \<Rightarrow> [9]" "\<lambda>tx. []" node_state_new]
  by auto

text \<open>A request longer than the buffer whose first 4096 bytes are not a request of their own ends the connection, with no
  response and nothing changed.\<close>

theorem long_request_dropped:
  assumes "4096 < length request" "parse (take 4096 request) = Inl e"
  shows "handle_connection tx_hash parse render (map (\<lambda>r. (Inr r, None)) (reads_of request) @ rest) n = (Inl e, [], n)"
  using assms by (subst reads_of.simps) auto

theorem long_request_dropped_witness:
  "handle_connection (\<lambda>tx. []) (\<lambda>b. if length b = 5000 then Inr GetState else Inl ''EOF'') (\<lambda>r. Inr [])
     (map (\<lambda>r. (Inr r, None)) (reads_of (replicate 5000 32)) @ []) node_state_new = (Inl ''EOF'', [], node_state_new)"
  by (rule long_request_dropped) simp_all

end
