(* ===== verification/Sdk.thy ===== *)
theory Sdk
  imports Auditing
begin

text \<open>
  The client library, \<open>crates/sdk/src\<close>: requests and responses, the connection flag, rate limits and the JSON-RPC call of
  \<open>client.rs\<close>. The HTTP client is a function from the endpoint, the authorization header and the body to a response or
  the text of an error; the deserializer of a result and the text of a JSON value are arguments. A JSON object is the
  association list of its map. The reads of the clock of one call are a function from their number.
\<close>

section \<open>Requests and responses\<close>

record sdk_budget =
  bg_max_total_fee :: u64
  bg_max_gpu_cycles :: u64
  bg_max_cpu_cycles :: u64
  bg_max_memory_bytes :: u64
  bg_max_output_size :: u64

definition sdk_budget_new :: "u64 \<Rightarrow> sdk_budget" where
  "sdk_budget_new fee = \<lparr>bg_max_total_fee = fee, bg_max_gpu_cycles = 1000000000, bg_max_cpu_cycles = 100000000,
     bg_max_memory_bytes = 8589934592, bg_max_output_size = 1073741824\<rparr>"

datatype sdk_execution_mode = DeterministicMode | SoftMode

datatype sdk_qos_class = LowLatencyQoS | BalancedQoS | HighAssuranceQoS | DeterministicCriticalQoS

record sdk_job_request =
  sj_kernel_id :: bytes32
  sj_input_data :: bytes
  sj_budget :: sdk_budget
  sj_deadline :: u64
  sj_execution_mode :: sdk_execution_mode
  sj_qos_class :: sdk_qos_class
  sj_max_retries :: u32
  sj_partial_allowed :: bool
  sj_metadata :: "(string \<times> string) list"

definition sdk_job_request_new :: "u64 \<Rightarrow> bytes32 \<Rightarrow> bytes \<Rightarrow> sdk_budget \<Rightarrow> sdk_job_request" where
  "sdk_job_request_new now kernel_id input budget =
     \<lparr>sj_kernel_id = kernel_id, sj_input_data = input, sj_budget = budget, sj_deadline = now + 3600,
      sj_execution_mode = SoftMode, sj_qos_class = BalancedQoS, sj_max_retries = 3, sj_partial_allowed = False, sj_metadata = []\<rparr>"

datatype sdk_job_status = JobPending | JobAssigned | JobExecuting | JobCompleted | JobFailed | JobExpired | JobDisputed | JobCancelled

record sdk_job_response =
  jr_job_id :: bytes32
  jr_status :: sdk_job_status
  jr_created_at :: u64
  jr_escrow_amount :: u64
  jr_estimated_completion :: "u64 option"

record job_cancel_response =
  jc_job_id :: bytes32
  jc_cancelled :: bool
  jc_refund_amount :: u64

record job_list_request =
  jl_client_id :: "bytes32 option"
  jl_status :: "sdk_job_status option"
  jl_page :: u32
  jl_page_size :: u32

record job_list_response =
  jlr_jobs :: "sdk_job_response list"
  jlr_total_count :: u64
  jlr_page :: u32
  jlr_page_size :: u32
  jlr_has_more :: bool

record compute_usage =
  cu_gpu_cycles :: u64
  cu_cpu_cycles :: u64
  cu_memory_bytes :: u64
  cu_output_size :: u64

datatype sdk_verification_status = UnverifiedReceipt | VerifiedReceipt | ChallengedReceipt | DisputedReceipt

record receipt_response =
  rr_receipt_id :: bytes32
  rr_job_id :: bytes32
  rr_operator_id :: bytes32
  rr_input_hash :: bytes32
  rr_output_hash :: bytes32
  rr_compute_used :: compute_usage
  rr_fee :: u64
  rr_verification_status :: sdk_verification_status
  rr_block_height :: u64
  rr_timestamp :: u64
  rr_signature :: bytes

record receipt_query =
  rq_job_id :: "bytes32 option"
  rq_operator_id :: "bytes32 option"
  rq_from_height :: "u64 option"
  rq_to_height :: "u64 option"
  rq_limit :: u32
  rq_offset :: u32

definition receipt_query_default :: receipt_query where
  "receipt_query_default = \<lparr>rq_job_id = None, rq_operator_id = None, rq_from_height = None, rq_to_height = None,
     rq_limit = 100, rq_offset = 0\<rparr>"

record receipt_list_response =
  rlr_receipts :: "receipt_response list"
  rlr_total_count :: u64
  rlr_has_more :: bool

record artifact_response =
  ar_artifact_id :: bytes32
  ar_content_hash :: bytes32
  ar_size_bytes :: u64
  ar_content_type :: string
  ar_created_at :: u64
  ar_data :: "bytes option"

record artifact_list_request =
  al_job_id :: "bytes32 option"
  al_content_type :: "string option"
  al_page :: u32
  al_page_size :: u32

record artifact_list_response =
  alr_artifacts :: "artifact_response list"
  alr_total_count :: u64
  alr_has_more :: bool

record rpack_delta_request =
  rd_base_artifact_id :: bytes32
  rd_delta_artifact_id :: bytes32

record rpack_delta_response =
  rdr_applied :: bool
  rdr_result_artifact_id :: bytes32

record network_status =
  nw_chain_height :: u64
  nw_finalized_height :: u64
  nw_active_partitions :: u32
  nw_total_operators :: u32
  nw_active_operators :: u32
  nw_current_epoch :: u64
  nw_network_id :: bytes32

datatype sdk_node_type = ValidatorNode | OperatorNode | FullNode | LightNode

datatype sdk_node_status = ActiveNode | SyncingNode | OfflineNode | FaultedNode

record node_info =
  ni_node_id :: bytes32
  ni_node_type :: sdk_node_type
  ni_version :: string
  ni_endpoint :: string
  ni_partitions :: "u32 list"
  ni_status :: sdk_node_status

record pagination_params =
  pg_page :: u32
  pg_page_size :: u32

definition pagination_default :: pagination_params where
  "pagination_default = \<lparr>pg_page = 1, pg_page_size = 50\<rparr>"

definition max_page_size :: u32 where
  "max_page_size = 100"

definition pagination_validate :: "pagination_params \<Rightarrow> bool" where
  "pagination_validate p \<longleftrightarrow> 0 < pg_page p \<and> 0 < pg_page_size p \<and> pg_page_size p \<le> max_page_size"

section \<open>The client\<close>

record client_config =
  cf_endpoint :: string
  cf_timeout_secs :: u64
  cf_max_retries :: u32
  cf_auth_token :: "string option"

definition client_config_new :: "string \<Rightarrow> client_config" where
  "client_config_new e = \<lparr>cf_endpoint = e, cf_timeout_secs = 30, cf_max_retries = 3, cf_auth_token = None\<rparr>"

definition client_config_default :: client_config where
  "client_config_default = \<lparr>cf_endpoint = ''http://localhost:8080'', cf_timeout_secs = 30, cf_max_retries = 3, cf_auth_token = None\<rparr>"

datatype client_error = RequestFailed string | RequestTimeout | InvalidResponse string | NotConnected
  | AuthenticationRequired | RateLimited string | ResourceNotFound string

record rate_limit_info =
  rl_requests_remaining :: u32
  rl_reset_at :: u64
  rl_limit :: u32

record http_response =
  hr_success :: bool
  hr_status :: string
  hr_body :: "string + json"

type_synonym http_client = "string \<Rightarrow> string option \<Rightarrow> json \<Rightarrow> string + http_response"

record client =
  cl_config :: client_config
  cl_connected :: bool
  cl_rate_limits :: "(string \<times> rate_limit_info) list"
  cl_http_client :: "http_client option"

text \<open>The HTTP client built with the time-out, or the default one if that fails.\<close>

definition client_new :: "(u64 \<Rightarrow> http_client option) \<Rightarrow> http_client \<Rightarrow> client_config \<Rightarrow> client" where
  "client_new build default_client config =
     \<lparr>cl_config = config, cl_connected = False, cl_rate_limits = [],
      cl_http_client = Some (case build (cf_timeout_secs config) of Some h \<Rightarrow> h | None \<Rightarrow> default_client)\<rparr>"

definition client_connect :: "(client_error, unit, client) op" where
  "client_connect cl = (Inr (), cl\<lparr>cl_connected := True\<rparr>)"

definition client_disconnect :: "client \<Rightarrow> client" where
  "client_disconnect cl = cl\<lparr>cl_connected := False\<rparr>"

definition is_client_connected :: "client \<Rightarrow> bool" where
  "is_client_connected cl \<longleftrightarrow> cl_connected cl"

definition set_auth_token :: "string \<Rightarrow> client \<Rightarrow> client" where
  "set_auth_token token cl = cl\<lparr>cl_config := (cl_config cl)\<lparr>cf_auth_token := Some token\<rparr>\<rparr>"

definition update_rate_limit :: "string \<Rightarrow> rate_limit_info \<Rightarrow> client \<Rightarrow> client" where
  "update_rate_limit e info cl = cl\<lparr>cl_rate_limits := hm_insert e info (cl_rate_limits cl)\<rparr>"

definition check_rate_limit :: "string \<Rightarrow> client \<Rightarrow> client_error + unit" where
  "check_rate_limit e cl =
     (case map_of (cl_rate_limits cl) e of
        Some l \<Rightarrow>
          if rl_requests_remaining l = 0
          then Inl (RateLimited (''Rate limit reached for '' @ e @ '', resets at '' @ dec_string (unat (rl_reset_at l))))
          else Inr ()
      | None \<Rightarrow> Inr ())"

text \<open>\<open>{:x?}\<close> of an array of bytes.\<close>

definition hex_digit :: "nat \<Rightarrow> char" where
  "hex_digit n = ''0123456789abcdef'' ! n"

definition hex_of_byte :: "u8 \<Rightarrow> string" where
  "hex_of_byte b = (if b < 16 then [hex_digit (unat b)] else [hex_digit (unat b div 16), hex_digit (unat b mod 16)])"

fun comma_separated :: "string list \<Rightarrow> string" where
  "comma_separated [] = []"
| "comma_separated [x] = x"
| "comma_separated (x # xs) = x @ '', '' @ comma_separated xs"

definition hex_debug :: "bytes \<Rightarrow> string" where
  "hex_debug bs = ''['' @ comma_separated (map hex_of_byte bs) @ '']''"

definition json_get :: "string \<Rightarrow> json \<Rightarrow> json option" where
  "json_get k j = (case j of JObject kvs \<Rightarrow> map_of kvs k | _ \<Rightarrow> None)"

definition json_u64 :: "u64 \<Rightarrow> json" where
  "json_u64 n = JNumber (dec_string (unat n))"

definition json_bytes :: "bytes \<Rightarrow> json" where
  "json_bytes bs = JArray (map (\<lambda>b. JNumber (dec_string (unat b))) bs)"

definition json_budget :: "sdk_budget \<Rightarrow> json" where
  "json_budget b = JObject [(''max_total_fee'', json_u64 (bg_max_total_fee b)), (''max_gpu_cycles'', json_u64 (bg_max_gpu_cycles b)),
     (''max_cpu_cycles'', json_u64 (bg_max_cpu_cycles b)), (''max_memory_bytes'', json_u64 (bg_max_memory_bytes b)),
     (''max_output_size'', json_u64 (bg_max_output_size b))]"

definition sdk_request :: "(json \<Rightarrow> string) \<Rightarrow> (json \<Rightarrow> string + 'a) \<Rightarrow> string \<Rightarrow> json \<Rightarrow> client \<Rightarrow> client_error + 'a" where
  "sdk_request to_text parse method params cl =
     (case cl_http_client cl of None \<Rightarrow> Inl NotConnected
      | Some http \<Rightarrow>
          let body = JObject [(''jsonrpc'', JString ''2.0''), (''method'', JString method), (''params'', params), (''id'', JNumber ''1'')];
              auth = map_option (\<lambda>token. ''Bearer '' @ token) (cf_auth_token (cl_config cl))
          in (case http (cf_endpoint (cl_config cl)) auth body of Inl e \<Rightarrow> Inl (RequestFailed e)
              | Inr response \<Rightarrow>
                  if \<not> hr_success response then Inl (RequestFailed (''HTTP error: '' @ hr_status response))
                  else (case hr_body response of Inl e \<Rightarrow> Inl (InvalidResponse e)
                        | Inr rpc \<Rightarrow>
                            (case json_get ''error'' rpc of Some err \<Rightarrow> Inl (RequestFailed (to_text err))
                             | None \<Rightarrow>
                                 (case json_get ''result'' rpc of
                                    None \<Rightarrow> Inl (InvalidResponse ''No result in response'')
                                  | Some r \<Rightarrow> (case parse r of Inl e \<Rightarrow> Inl (InvalidResponse e) | Inr v \<Rightarrow> Inr v))))))"

definition generate_job_id :: "(bytes \<Rightarrow> bytes32) \<Rightarrow> u64 \<Rightarrow> sdk_job_request \<Rightarrow> bytes32" where
  "generate_job_id hash now job =
     hash (sj_kernel_id job @ sj_input_data job @ to_le_bytes 8 (bg_max_total_fee (sj_budget job)) @ to_le_bytes 8 now)"

text \<open>How every call starts, and how the calls over the network fall back on a response of their own.\<close>

definition when_connected :: "client \<Rightarrow> client_error + 'a \<Rightarrow> client_error + 'a" where
  "when_connected cl r = (if \<not> cl_connected cl then Inl NotConnected else r)"

definition rate_checked :: "string \<Rightarrow> client \<Rightarrow> client_error + 'a \<Rightarrow> client_error + 'a" where
  "rate_checked e cl r = (case check_rate_limit e cl of Inl err \<Rightarrow> Inl err | Inr _ \<Rightarrow> r)"

definition or_fallback :: "(json \<Rightarrow> string) \<Rightarrow> (json \<Rightarrow> string + 'a) \<Rightarrow> string \<Rightarrow> json \<Rightarrow> client \<Rightarrow> 'a \<Rightarrow> client_error + 'a" where
  "or_fallback to_text parse method params cl fallback =
     (case cl_http_client cl of None \<Rightarrow> Inr fallback
      | Some _ \<Rightarrow> (case sdk_request to_text parse method params cl of Inr r \<Rightarrow> Inr r | Inl _ \<Rightarrow> Inr fallback))"

definition pending_job :: "(bytes \<Rightarrow> bytes32) \<Rightarrow> (nat \<Rightarrow> u64) \<Rightarrow> sdk_job_request \<Rightarrow> sdk_job_response" where
  "pending_job hash now job =
     \<lparr>jr_job_id = generate_job_id hash (now 0) job, jr_status = JobPending, jr_created_at = now 1,
      jr_escrow_amount = bg_max_total_fee (sj_budget job), jr_estimated_completion = Some (now 2 + 3600)\<rparr>"

definition completed_job :: "u64 \<Rightarrow> bytes32 \<Rightarrow> sdk_job_response" where
  "completed_job now job_id =
     \<lparr>jr_job_id = job_id, jr_status = JobCompleted, jr_created_at = now - 100, jr_escrow_amount = 0, jr_estimated_completion = None\<rparr>"

definition verified_receipt :: "u64 \<Rightarrow> bytes32 \<Rightarrow> receipt_response" where
  "verified_receipt now rid =
     \<lparr>rr_receipt_id = rid, rr_job_id = rid, rr_operator_id = replicate 32 1, rr_input_hash = replicate 32 2,
      rr_output_hash = replicate 32 3,
      rr_compute_used = \<lparr>cu_gpu_cycles = 500000000, cu_cpu_cycles = 50000000, cu_memory_bytes = 4000000000, cu_output_size = 500000000\<rparr>,
      rr_fee = 500, rr_verification_status = VerifiedReceipt, rr_block_height = 1000, rr_timestamp = now, rr_signature = []\<rparr>"

definition stock_network_status :: network_status where
  "stock_network_status = \<lparr>nw_chain_height = 10000, nw_finalized_height = 9999, nw_active_partitions = 4,
     nw_total_operators = 100, nw_active_operators = 80, nw_current_epoch = 50, nw_network_id = replicate 32 6\<rparr>"

definition submit_job_async ::
    "(bytes \<Rightarrow> bytes32) \<Rightarrow> (json \<Rightarrow> string) \<Rightarrow> (json \<Rightarrow> string + sdk_job_response) \<Rightarrow> (nat \<Rightarrow> u64) \<Rightarrow> sdk_job_request \<Rightarrow> client
      \<Rightarrow> client_error + sdk_job_response" where
  "submit_job_async hash to_text parse now job cl =
     when_connected cl (rate_checked ''/jobs'' cl
       (or_fallback to_text parse ''submit_job''
         (JObject [(''kernel_id'', json_bytes (sj_kernel_id job)), (''input_data'', json_bytes (sj_input_data job)),
                   (''budget'', json_budget (sj_budget job)), (''deadline'', json_u64 (sj_deadline job))])
         cl (pending_job hash now job)))"

definition get_job_async ::
    "(json \<Rightarrow> string) \<Rightarrow> (json \<Rightarrow> string + sdk_job_response) \<Rightarrow> u64 \<Rightarrow> bytes32 \<Rightarrow> client \<Rightarrow> client_error + sdk_job_response" where
  "get_job_async to_text parse now job_id cl =
     when_connected cl (rate_checked (''/jobs/'' @ hex_debug job_id) cl
       (or_fallback to_text parse ''get_job'' (JObject [(''job_id'', json_bytes job_id)]) cl (completed_job now job_id)))"

definition verify_receipt_async ::
    "(json \<Rightarrow> string) \<Rightarrow> (json \<Rightarrow> string + receipt_response) \<Rightarrow> u64 \<Rightarrow> bytes32 \<Rightarrow> client \<Rightarrow> client_error + receipt_response" where
  "verify_receipt_async to_text parse now rid cl =
     when_connected cl (rate_checked (''/receipts/'' @ hex_debug rid @ ''/verify'') cl
       (or_fallback to_text parse ''verify_receipt'' (JObject [(''receipt_id'', json_bytes rid)]) cl (verified_receipt now rid)))"

definition get_network_status_async ::
    "(json \<Rightarrow> string) \<Rightarrow> (json \<Rightarrow> string + network_status) \<Rightarrow> client \<Rightarrow> client_error + network_status" where
  "get_network_status_async to_text parse cl =
     when_connected cl (or_fallback to_text parse ''get_network_status'' (JObject []) cl stock_network_status)"

definition client_submit_job :: "(bytes \<Rightarrow> bytes32) \<Rightarrow> (nat \<Rightarrow> u64) \<Rightarrow> sdk_job_request \<Rightarrow> client \<Rightarrow> client_error + sdk_job_response" where
  "client_submit_job hash now job cl = when_connected cl (rate_checked ''/jobs'' cl (Inr (pending_job hash now job)))"

definition client_get_job :: "u64 \<Rightarrow> bytes32 \<Rightarrow> client \<Rightarrow> client_error + sdk_job_response" where
  "client_get_job now job_id cl =
     when_connected cl (rate_checked (''/jobs/'' @ hex_debug job_id) cl (Inr (completed_job now job_id)))"

definition client_list_jobs :: "job_list_request \<Rightarrow> client \<Rightarrow> client_error + job_list_response" where
  "client_list_jobs q cl =
     when_connected cl (rate_checked ''/jobs'' cl
       (let total_count = 100; has_more = (ucast (jl_page q) * ucast (jl_page_size q) :: u64) < total_count
        in Inr \<lparr>jlr_jobs = [], jlr_total_count = total_count, jlr_page = jl_page q, jlr_page_size = jl_page_size q,
                jlr_has_more = has_more\<rparr>))"

definition client_cancel_job :: "bytes32 \<Rightarrow> string \<Rightarrow> client \<Rightarrow> client_error + job_cancel_response" where
  "client_cancel_job job_id reason cl =
     when_connected cl (rate_checked (''/jobs/'' @ hex_debug job_id @ ''/cancel'') cl
       (Inr \<lparr>jc_job_id = job_id, jc_cancelled = True, jc_refund_amount = 500\<rparr>))"

definition client_get_receipt :: "u64 \<Rightarrow> bytes32 \<Rightarrow> client \<Rightarrow> client_error + receipt_response" where
  "client_get_receipt now job_id cl =
     when_connected cl (rate_checked (''/receipts/'' @ hex_debug job_id) cl (Inr (verified_receipt now job_id)))"

definition client_query_receipts :: "receipt_query \<Rightarrow> client \<Rightarrow> client_error + receipt_list_response" where
  "client_query_receipts q cl =
     when_connected cl (rate_checked ''/receipts'' cl (Inr \<lparr>rlr_receipts = [], rlr_total_count = 0, rlr_has_more = False\<rparr>))"

definition client_get_artifact :: "u64 \<Rightarrow> bytes32 \<Rightarrow> client \<Rightarrow> client_error + artifact_response" where
  "client_get_artifact now aid cl =
     when_connected cl (rate_checked (''/artifacts/'' @ hex_debug aid) cl
       (Inr \<lparr>ar_artifact_id = aid, ar_content_hash = replicate 32 4, ar_size_bytes = 1024,
             ar_content_type = ''application/octet-stream'', ar_created_at = now, ar_data = None\<rparr>))"

definition client_list_artifacts :: "artifact_list_request \<Rightarrow> client \<Rightarrow> client_error + artifact_list_response" where
  "client_list_artifacts q cl =
     when_connected cl (rate_checked ''/artifacts'' cl (Inr \<lparr>alr_artifacts = [], alr_total_count = 0, alr_has_more = False\<rparr>))"

definition apply_rpack_delta :: "rpack_delta_request \<Rightarrow> client \<Rightarrow> client_error + rpack_delta_response" where
  "apply_rpack_delta q cl =
     when_connected cl (rate_checked ''/rpack/delta'' cl (Inr \<lparr>rdr_applied = True, rdr_result_artifact_id = replicate 32 5\<rparr>))"

definition get_network_status :: "client \<Rightarrow> client_error + network_status" where
  "get_network_status cl = when_connected cl (Inr stock_network_status)"

definition get_node_info :: "client \<Rightarrow> client_error + node_info" where
  "get_node_info cl =
     when_connected cl (Inr \<lparr>ni_node_id = replicate 32 7, ni_node_type = FullNode, ni_version = ''1.0.0'',
       ni_endpoint = cf_endpoint (cl_config cl), ni_partitions = [1, 2, 3, 4], ni_status = ActiveNode\<rparr>)"

text \<open>The calls that change a client; \<open>update_rate_limit\<close> is private and nothing calls it.\<close>

inductive client_step :: "client \<Rightarrow> client \<Rightarrow> bool" where
  "client_step cl (snd (client_connect cl))"
| "client_step cl (client_disconnect cl)"
| "client_step cl (set_auth_token token cl)"

section \<open>Lemmas\<close>

lemmas call_defs = submit_job_async_def get_job_async_def verify_receipt_async_def get_network_status_async_def
  client_submit_job_def client_get_job_def client_list_jobs_def client_cancel_job_def client_get_receipt_def
  client_query_receipts_def client_get_artifact_def client_list_artifacts_def apply_rpack_delta_def get_network_status_def
  get_node_info_def

definition client_inv :: "client \<Rightarrow> bool" where
  "client_inv cl \<longleftrightarrow> cl_rate_limits cl = [] \<and> (\<exists>http. cl_http_client cl = Some http)"

interpretation client_run: transition_system client_step client_inv "\<lambda>cl. \<exists>build d config. cl = client_new build d config"
proof unfold_locales
  show "client_step cl cl' \<Longrightarrow> client_inv cl \<Longrightarrow> client_inv cl'" for cl cl'
    by (induction rule: client_step.induct) (auto simp: client_inv_def client_connect_def client_disconnect_def set_auth_token_def)
qed (auto simp: client_inv_def client_new_def)

lemma not_limited: "client_inv cl \<Longrightarrow> check_rate_limit e cl = Inr ()"
  by (simp add: client_inv_def check_rate_limit_def)

lemma or_fallback_cases:
  "or_fallback to_text parse method params cl fallback =
     Inr (case sdk_request to_text parse method params cl of Inr r \<Rightarrow> r | Inl _ \<Rightarrow> fallback)"
  by (auto simp: or_fallback_def sdk_request_def split: option.splits sum.splits)

section \<open>Properties\<close>

text \<open>A call over the network gives a value exactly when the server answers with success, without an error member and
  with a result that can be read.\<close>

theorem request_result:
  "sdk_request to_text parse method params cl = Inr v \<longleftrightarrow>
     (\<exists>http response rpc r. cl_http_client cl = Some http \<and>
        http (cf_endpoint (cl_config cl)) (map_option (\<lambda>token. ''Bearer '' @ token) (cf_auth_token (cl_config cl)))
          (JObject [(''jsonrpc'', JString ''2.0''), (''method'', JString method), (''params'', params), (''id'', JNumber ''1'')]) =
          Inr response \<and>
        hr_success response \<and> hr_body response = Inr rpc \<and> json_get ''error'' rpc = None \<and>
        json_get ''result'' rpc = Some r \<and> parse r = Inr v)"
  by (auto simp: sdk_request_def Let_def split: option.splits sum.splits if_splits)

text \<open>A client that was made and driven by its public calls is never limited, and while connected its calls for a receipt
  and for a job never fail: whatever the server answers, a request for a receipt that fails is reported as a verified
  receipt, and one for a job as a completed job.\<close>

theorem failures_become_results:
  assumes "client_step\<^sup>*\<^sup>* (client_new build d config) cl"
  shows "verify_receipt_async to_text parse now rid cl =
      (if cl_connected cl
       then Inr (case sdk_request to_text parse ''verify_receipt'' (JObject [(''receipt_id'', json_bytes rid)]) cl of
                   Inr r \<Rightarrow> r | Inl _ \<Rightarrow> verified_receipt now rid)
       else Inl NotConnected) \<and>
    get_job_async to_text parse' now jid cl =
      (if cl_connected cl
       then Inr (case sdk_request to_text parse' ''get_job'' (JObject [(''job_id'', json_bytes jid)]) cl of
                   Inr r \<Rightarrow> r | Inl _ \<Rightarrow> completed_job now jid)
       else Inl NotConnected) \<and>
    check_rate_limit e cl = Inr ()"
proof -
  from client_run.reachable_inv [OF assms] have "client_inv cl" by blast
  then show ?thesis
    by (simp add: verify_receipt_async_def get_job_async_def when_connected_def rate_checked_def not_limited or_fallback_cases)
qed

definition offline_http :: http_client where
  "offline_http e auth body = Inl ''connection refused''"

theorem failures_become_results_witness:
  "verify_receipt_async (\<lambda>j. []) (\<lambda>j. Inl []) 5 zero32
     (snd (client_connect (client_new (\<lambda>t. Some offline_http) offline_http client_config_default))) = Inr (verified_receipt 5 zero32)"
  using failures_become_results [OF r_into_rtranclp [of client_step, OF client_step.intros(1)],
      where build = "\<lambda>t. Some offline_http" and d = offline_http and config = client_config_default and to_text = "\<lambda>j. []"
        and parse = "\<lambda>j. Inl []" and now = 5 and rid = zero32]
  by (simp add: client_connect_def client_new_def sdk_request_def offline_http_def)

text \<open>A client that is not connected fails on every call, and sends nothing.\<close>

theorem disconnected_calls_fail:
  assumes "\<not> cl_connected cl"
  shows "submit_job_async hash to_text p1 nows job cl = Inl NotConnected" "get_job_async to_text p1 now i cl = Inl NotConnected"
    "verify_receipt_async to_text p2 now i cl = Inl NotConnected" "get_network_status_async to_text p3 cl = Inl NotConnected"
    "client_submit_job hash nows job cl = Inl NotConnected" "client_get_job now i cl = Inl NotConnected"
    "client_list_jobs q1 cl = Inl NotConnected" "client_cancel_job i reason cl = Inl NotConnected"
    "client_get_receipt now i cl = Inl NotConnected" "client_query_receipts q2 cl = Inl NotConnected"
    "client_get_artifact now i cl = Inl NotConnected" "client_list_artifacts q3 cl = Inl NotConnected"
    "apply_rpack_delta q4 cl = Inl NotConnected" "get_network_status cl = Inl NotConnected" "get_node_info cl = Inl NotConnected"
  using assms by (simp_all add: call_defs when_connected_def)

theorem disconnected_calls_fail_witness:
  "get_node_info (client_disconnect (client_new (\<lambda>t. None) offline_http client_config_default)) = Inl NotConnected"
  by (rule disconnected_calls_fail) (simp add: client_disconnect_def)

text \<open>An answer with \<open>"error": null\<close> beside its result, as some JSON-RPC servers send on success, is taken as a failure,
  and the job submitted is reported with an id of the client's own.\<close>

theorem null_error_discards_result:
  assumes "cl_connected cl" "cl_rate_limits cl = []" "cl_http_client cl = Some (\<lambda>e a b. Inr response)" "hr_success response"
    "hr_body response = Inr (JObject [(''jsonrpc'', JString ''2.0''), (''error'', JNull), (''result'', r), (''id'', JNumber ''1'')])"
  shows "sdk_request to_text parse method params cl = Inl (RequestFailed (to_text JNull)) \<and>
    submit_job_async hash to_text parse' now job cl = Inr (pending_job hash now job)"
  using assms by (simp add: submit_job_async_def when_connected_def rate_checked_def check_rate_limit_def or_fallback_def
      sdk_request_def json_get_def)

definition null_error_response :: http_response where
  "null_error_response = \<lparr>hr_success = True, hr_status = ''200 OK'',
     hr_body = Inr (JObject [(''jsonrpc'', JString ''2.0''), (''error'', JNull), (''result'', JBool True), (''id'', JNumber ''1'')])\<rparr>"

theorem null_error_discards_result_witness:
  "let cl = snd (client_connect (client_new (\<lambda>t. Some (\<lambda>e a b. Inr null_error_response)) offline_http client_config_default))
   in sdk_request (\<lambda>j. ''null'') (\<lambda>j. Inr True) ''ready'' JNull cl = Inl (RequestFailed ''null'')"
  unfolding Let_def
  by (rule null_error_discards_result [where r = "JBool True" and response = null_error_response, THEN conjunct1])
    (simp_all add: client_connect_def client_new_def null_error_response_def)

text \<open>C31. Two requests with kernel ids of 32 bytes get the same job id exactly when they have the same kernel, input and
  maximal fee and are made in the same second, or their different inputs collide under the hash; the other fields of a
  request and who made it do not count.\<close>

theorem job_id_binds:
  assumes "length (sj_kernel_id a) = 32" "length (sj_kernel_id b) = 32"
  shows "generate_job_id hash s a = generate_job_id hash t b \<longleftrightarrow>
    (sj_kernel_id a = sj_kernel_id b \<and> sj_input_data a = sj_input_data b \<and>
     bg_max_total_fee (sj_budget a) = bg_max_total_fee (sj_budget b) \<and> s = t) \<or>
    (\<exists>x y. x \<noteq> y \<and> hash x = hash y \<and>
       x = sj_kernel_id a @ sj_input_data a @ to_le_bytes 8 (bg_max_total_fee (sj_budget a)) @ to_le_bytes 8 s \<and>
       y = sj_kernel_id b @ sj_input_data b @ to_le_bytes 8 (bg_max_total_fee (sj_budget b)) @ to_le_bytes 8 t)"
proof -
  have le: "to_le_bytes 8 u = to_le_bytes 8 v \<longleftrightarrow> u = v" for u v :: u64 using from_to_le_u64 by metis
  let ?x = "sj_kernel_id a @ sj_input_data a @ to_le_bytes 8 (bg_max_total_fee (sj_budget a)) @ to_le_bytes 8 s"
  let ?y = "sj_kernel_id b @ sj_input_data b @ to_le_bytes 8 (bg_max_total_fee (sj_budget b)) @ to_le_bytes 8 t"
  have "?x = ?y \<longleftrightarrow> sj_kernel_id a = sj_kernel_id b \<and> sj_input_data a = sj_input_data b \<and>
     bg_max_total_fee (sj_budget a) = bg_max_total_fee (sj_budget b) \<and> s = t"
  proof
    assume "?x = ?y"
    with assms have "sj_kernel_id a = sj_kernel_id b"
      and rest: "(sj_input_data a @ to_le_bytes 8 (bg_max_total_fee (sj_budget a))) @ to_le_bytes 8 s =
        (sj_input_data b @ to_le_bytes 8 (bg_max_total_fee (sj_budget b))) @ to_le_bytes 8 t" by simp_all
    moreover from rest have "to_le_bytes 8 s = to_le_bytes 8 t"
      and mid: "sj_input_data a @ to_le_bytes 8 (bg_max_total_fee (sj_budget a)) =
        sj_input_data b @ to_le_bytes 8 (bg_max_total_fee (sj_budget b))" by (auto simp del: append_assoc dest: append_eq_append_conv [THEN iffD1, rotated])
    ultimately show "sj_kernel_id a = sj_kernel_id b \<and> sj_input_data a = sj_input_data b \<and>
      bg_max_total_fee (sj_budget a) = bg_max_total_fee (sj_budget b) \<and> s = t" by (auto simp: le append_eq_append_conv)
  qed simp
  then show ?thesis unfolding generate_job_id_def by metis
qed

theorem job_id_binds_witness:
  "generate_job_id id 7 (sdk_job_request_new 0 zero32 [1] (sdk_budget_new 5)) =
   generate_job_id id 7 (sdk_job_request_new 9 zero32 [1] (sdk_budget_new 5))"
  using job_id_binds [of "sdk_job_request_new 0 zero32 [1] (sdk_budget_new 5)" "sdk_job_request_new 9 zero32 [1] (sdk_budget_new 5)" id 7 7]
  by (simp add: sdk_job_request_new_def)

text \<open>More jobs are announced exactly while the pages up to the one asked for hold fewer than a hundred; the product of
  page and size does not wrap.\<close>

theorem more_jobs_exact:
  assumes "client_list_jobs q cl = Inr r"
  shows "jlr_has_more r \<longleftrightarrow> unat (jl_page q) * unat (jl_page_size q) < 100"
proof -
  from assms have r: "jlr_has_more r \<longleftrightarrow> (ucast (jl_page q) * ucast (jl_page_size q) :: u64) < 100"
    by (auto simp: client_list_jobs_def when_connected_def rate_checked_def Let_def split: if_splits sum.splits)
  have "unat (jl_page q) \<le> 2 ^ 32 - 1" "unat (jl_page_size q) \<le> 2 ^ 32 - 1"
    using unsigned_less [of "jl_page q", where 'a = nat] unsigned_less [of "jl_page_size q", where 'a = nat] by simp_all
  then have "unat (jl_page q) * unat (jl_page_size q) \<le> (2 ^ 32 - 1) * (2 ^ 32 - 1)" by (rule mult_le_mono)
  then have "unat (ucast (jl_page q) * ucast (jl_page_size q) :: u64) = unat (jl_page q) * unat (jl_page_size q)"
    by (subst unat_mult_no_wrap) simp_all
  with r show ?thesis by (simp add: word_less_nat_alt)
qed

theorem more_jobs_exact_witness:
  "\<not> jlr_has_more (projr (client_list_jobs \<lparr>jl_client_id = None, jl_status = None, jl_page = 2, jl_page_size = 50\<rparr>
     (snd (client_connect (client_new (\<lambda>t. None) offline_http client_config_default)))))"
  by (subst more_jobs_exact [where q = "\<lparr>jl_client_id = None, jl_status = None, jl_page = 2, jl_page_size = 50\<rparr>"
        and cl = "snd (client_connect (client_new (\<lambda>t. None) offline_http client_config_default))"])
    (simp_all add: client_list_jobs_def when_connected_def rate_checked_def check_rate_limit_def client_connect_def client_new_def Let_def)

end
