(* ===== verification/CoreTypes.thy ===== *)
theory CoreTypes
  imports Encoding Auditing
begin

text \<open>
  The value types of \<open>crates/core/src/types.rs\<close>, the reader of logical times of \<open>deterministic.rs\<close>, and the
  conformance tests of \<open>conformance.rs\<close> over them. blake3 is an argument.
\<close>

section \<open>Heights, rounds, hashes and the genesis\<close>

datatype block_height_ref = BlockHeightRef u64

definition height_ref_new :: "u64 \<Rightarrow> block_height_ref" where
  "height_ref_new h = BlockHeightRef h"

fun height_ref_value :: "block_height_ref \<Rightarrow> u64" where
  "height_ref_value (BlockHeightRef h) = h"

fun height_ref_next :: "block_height_ref \<Rightarrow> block_height_ref" where
  "height_ref_next (BlockHeightRef h) = BlockHeightRef (h + 1)"

definition height_ref_default :: block_height_ref where
  "height_ref_default = BlockHeightRef 0"

datatype core_round = CoreRound u32

definition core_round_new :: "u32 \<Rightarrow> core_round" where
  "core_round_new r = CoreRound r"

fun core_round_value :: "core_round \<Rightarrow> u32" where
  "core_round_value (CoreRound r) = r"

fun core_round_next :: "core_round \<Rightarrow> core_round" where
  "core_round_next (CoreRound r) = CoreRound (r + 1)"

definition core_round_default :: core_round where
  "core_round_default = CoreRound 0"

record domain_separated_hash =
  dsh_domain :: bytes
  dsh_data :: bytes
  dsh_output :: bytes32

definition domain_separated_hash_new :: "(bytes \<Rightarrow> bytes32) \<Rightarrow> bytes \<Rightarrow> bytes \<Rightarrow> domain_separated_hash" where
  "domain_separated_hash_new hash domain data =
     \<lparr>dsh_domain = domain, dsh_data = data, dsh_output = hash (DOMAIN_SEPARATOR @ domain @ data)\<rparr>"

record genesis =
  gn_height :: u64
  gn_timestamp :: u64
  gn_chain_id :: bytes32

definition genesis_default :: genesis where
  "genesis_default = \<lparr>gn_height = 0, gn_timestamp = 0, gn_chain_id = zero32\<rparr>"

definition genesis_new :: "bytes32 \<Rightarrow> genesis" where
  "genesis_new chain_id = \<lparr>gn_height = 0, gn_timestamp = 0, gn_chain_id = chain_id\<rparr>"

definition genesis_with_timestamp :: "u64 \<Rightarrow> genesis \<Rightarrow> genesis" where
  "genesis_with_timestamp t g = g\<lparr>gn_timestamp := t\<rparr>"

definition logical_time_default :: logical_time where
  "logical_time_default = \<lparr>lt_height = 0, lt_view = 0\<rparr>"

definition logical_now :: "u64 \<Rightarrow> u32 \<Rightarrow> logical_time" where
  "logical_now height view = logical_time_default"

section \<open>Conformance tests\<close>

record conformance_result =
  cr_passed :: bool
  cr_test_name :: string
  cr_message :: string

definition conformance_pass :: "string \<Rightarrow> conformance_result" where
  "conformance_pass name = \<lparr>cr_passed = True, cr_test_name = name, cr_message = ''PASSED''\<rparr>"

definition conformance_fail :: "string \<Rightarrow> string \<Rightarrow> conformance_result" where
  "conformance_fail name message = \<lparr>cr_passed = False, cr_test_name = name, cr_message = message\<rparr>"

definition test_domain_separation :: "(bytes \<Rightarrow> bytes32) \<Rightarrow> conformance_result" where
  "test_domain_separation hash =
     (let hash1 = derive_seed hash (str_bytes ''leader'') (replicate 32 1) 1;
          hash2 = derive_seed hash (str_bytes ''leader'') (replicate 32 1) 1
      in if hash1 \<noteq> hash2 then conformance_fail ''domain_separation'' ''Domain separated hash not deterministic''
         else let hash3 = derive_seed hash (str_bytes ''leader'') (replicate 32 1) 2
              in if hash1 = hash3 then conformance_fail ''domain_separation'' ''Different inputs produce same hash''
                 else conformance_pass ''domain_separation'')"

definition test_hash_32_bytes :: "(bytes \<Rightarrow> bytes32) \<Rightarrow> conformance_result" where
  "test_hash_32_bytes hash =
     (let h = domain_separated_hash_new hash (str_bytes ''test'') (str_bytes ''data'')
      in if length (dsh_output h) \<noteq> 32 then conformance_fail ''hash_32_bytes'' ''Hash not 32 bytes''
         else conformance_pass ''hash_32_bytes'')"

definition test_derive_seed_deterministic :: "(bytes \<Rightarrow> bytes32) \<Rightarrow> conformance_result" where
  "test_derive_seed_deterministic hash =
     (let seed1 = derive_seed hash (str_bytes ''validator'') (replicate 32 1) 100;
          seed2 = derive_seed hash (str_bytes ''validator'') (replicate 32 1) 100
      in if seed1 \<noteq> seed2 then conformance_fail ''derive_seed'' ''Seed not deterministic'' else conformance_pass ''derive_seed'')"

definition run_all :: "(bytes \<Rightarrow> bytes32) \<Rightarrow> conformance_result list" where
  "run_all hash = [test_domain_separation hash, test_hash_32_bytes hash, test_derive_seed_deterministic hash]"

section \<open>Properties\<close>

text \<open>The domain is hashed without its length: data can move between domain and data without changing the hash, and only
  with the same length of the domain, or with a collision, does an output stand for one pair.\<close>

theorem domain_hash_binds:
  "dsh_output (domain_separated_hash_new hash d (a @ b)) = dsh_output (domain_separated_hash_new hash (d @ a) b) \<and>
   (length d = length e \<and> dsh_output (domain_separated_hash_new hash d a) = dsh_output (domain_separated_hash_new hash e b) \<longrightarrow>
    d = e \<and> a = b \<or>
    (\<exists>x y. x \<noteq> y \<and> hash x = hash y \<and> x = DOMAIN_SEPARATOR @ d @ a \<and> y = DOMAIN_SEPARATOR @ e @ b))"
  by (auto simp: domain_separated_hash_new_def)

theorem domain_hash_binds_witness:
  "dsh_output (domain_separated_hash_new id [1] [2]) \<noteq> dsh_output (domain_separated_hash_new id [3] [2])"
  using domain_hash_binds [of id "[1]" "[2]" "[2]" "[3]"] by (auto simp: domain_separated_hash_new_def)

text \<open>A hash to 32 bytes passes all conformance tests unless it collides on the two seeds compared.\<close>

theorem conformance_exact:
  "(\<forall>r \<in> set (run_all hash). cr_passed r) \<longleftrightarrow>
     derive_seed hash (str_bytes ''leader'') (replicate 32 1) 1 \<noteq> derive_seed hash (str_bytes ''leader'') (replicate 32 1) 2 \<and>
     length (hash (DOMAIN_SEPARATOR @ str_bytes ''testdata'')) = 32"
  by (auto simp: run_all_def test_domain_separation_def test_hash_32_bytes_def test_derive_seed_deterministic_def Let_def
      conformance_pass_def conformance_fail_def domain_separated_hash_new_def str_bytes_def)

theorem conformance_exact_witness:
  "\<not> (\<forall>r \<in> set (run_all (\<lambda>b. zero32)). cr_passed r)"
  using conformance_exact [of "\<lambda>b. zero32"] by (simp add: derive_seed_def)

text \<open>The reader of logical times gives the time of the genesis whatever height and view it is asked for.\<close>

theorem logical_now_constant:
  "logical_now h v = logical_now h' v' \<and> \<not> is_after (logical_now h v) t"
  by (cases t) (simp add: logical_now_def logical_time_default_def is_after_def)

text \<open>Heights follow each other without gaps until the largest, whose successor is zero.\<close>

theorem height_ref_next_exact:
  "height_ref_value (height_ref_next r) = height_ref_value r + 1 \<and>
   (unat (height_ref_value (height_ref_next r)) =
     (if height_ref_value r = - 1 then 0 else unat (height_ref_value r) + 1))"
proof (cases r)
  case (BlockHeightRef h)
  have "1 + h \<noteq> 0 \<Longrightarrow> unat (1 + h) = Suc (unat h)" by (rule unatSuc)
  moreover have "h = - 1 \<longleftrightarrow> 1 + h = 0" by (metis add.commute eq_neg_iff_add_eq_0)
  ultimately show ?thesis by (auto simp: BlockHeightRef add.commute)
qed

end
