(* ===== verification/Agreement.thy ===== *)
theory Agreement
  imports Consensus
begin

text \<open>
  Several engines of \<open>crates/truth/src/consensus.rs\<close> with the same validators. What links them is the set of votes that
  were cast: each engine runs by its own calls and receives votes of this set, in any order and any number of times.
  The lemmas trace a finalized state back to the cast votes; the properties are agreement within a view, progress of a
  round from any state, and the absence of agreement between rounds, since
  no vote is checked against the lock.
\<close>

inductive delivery_step :: "(bytes \<Rightarrow> bytes32) \<Rightarrow> engine \<Rightarrow> vote set \<Rightarrow> consensus \<Rightarrow> consensus \<Rightarrow> bool" for hash en cast where
  deliver_view: "delivery_step hash en cast s (start_new_view en height round s)"
| deliver_propose: "delivery_step hash en cast s (snd (propose en blk qc s))"
| deliver_vote: "v \<in> cast \<Longrightarrow> delivery_step hash en cast s (snd (receive_vote hash en now v s))"
| deliver_commit: "delivery_step hash en cast s (snd (commit qc s))"
| deliver_next_view: "delivery_step hash en cast s (advance_to_next_view en s)"
| deliver_next_height: "delivery_step hash en cast s (advance_to_next_height s)"

text \<open>A certificate is backed when each signer cast a precommit for its block in its view.\<close>

definition backed :: "vote set \<Rightarrow> quorum_certificate \<Rightarrow> bool" where
  "backed cast qc \<longleftrightarrow> (\<forall>i \<in> fst ` set (qc_signatures qc). \<exists>u \<in> cast. vt_validator_id u = i \<and> vt_type u = PreCommit \<and>
     vt_height u = qc_height qc \<and> vt_round u = qc_round qc \<and> vt_block_hash u = qc_block_hash qc)"

definition delivery_inv :: "vote set \<Rightarrow> consensus \<Rightarrow> bool" where
  "delivery_inv cast s \<longleftrightarrow> consensus_wf s \<and> snd ` set (cs_votes s) \<subseteq> cast \<and>
     (cs_state s = Finalized \<longrightarrow> (\<exists>qc. cs_precommit_qc s = Some qc \<and> qc_of_view PreCommit s qc \<and> backed cast qc))"

lemma certificate_backed:
  assumes "list_all (vote_fits s) (cs_votes s)" "snd ` set (cs_votes s) \<subseteq> cast"
  shows "backed cast (certificate hash en PreCommit h s)"
  unfolding backed_def
proof
  fix i assume "i \<in> fst ` set (qc_signatures (certificate hash en PreCommit h s))"
  then have "i \<in> set (map fst [p \<leftarrow> cs_votes s. vt_type (snd p) = PreCommit \<and> vt_block_hash (snd p) = h])"
    unfolding certificate_signers [of hash en PreCommit h s, symmetric] by simp
  then obtain u where "(i, u) \<in> set (cs_votes s)" "vt_type u = PreCommit" "vt_block_hash u = h" by auto
  with assms show "\<exists>u \<in> cast. vt_validator_id u = i \<and> vt_type u = PreCommit \<and>
      vt_height u = qc_height (certificate hash en PreCommit h s) \<and> vt_round u = qc_round (certificate hash en PreCommit h s) \<and>
      vt_block_hash u = qc_block_hash (certificate hash en PreCommit h s)"
    by (fastforce simp: list_all_iff vote_fits_def)
qed

lemma receive_vote_delivery:
  assumes inv: "delivery_inv cast s" and v: "v \<in> cast"
  shows "delivery_inv cast (snd (receive_vote hash en now v s))"
proof (cases "vt_height v = cs_height s \<and> vt_round v = cs_round s")
  case False
  then have "snd (receive_vote hash en now v s) = s"
    by (cases "vt_type v") (auto simp: receive_vote_def receive_prevote_def receive_precommit_def vote_checks_def)
  with inv show ?thesis by simp
next
  case True
  let ?s1 = "s\<lparr>cs_votes := hm_insert (vt_validator_id v) v (cs_votes s)\<rparr>" and ?s' = "snd (receive_vote hash en now v s)"
  have wf: "consensus_wf s" "consensus_wf ?s'" using inv receive_vote_wf by (simp_all add: delivery_inv_def)
  have votes: "cs_votes ?s' = cs_votes ?s1" using receive_vote_accepts(2) True by simp
  have cast: "snd ` set (cs_votes ?s1) \<subseteq> cast"
    using inv v wf(1) by (auto simp: delivery_inv_def consensus_wf_def hm.set_insert)
  have fits: "list_all (vote_fits ?s1) (cs_votes ?s1)"
    using vote_fits_insert [of s v] wf(1) True vote_fits_cong [of ?s1 s] by (simp add: consensus_wf_def)
  have "\<exists>qc. cs_precommit_qc ?s' = Some qc \<and> qc_of_view PreCommit ?s' qc \<and> backed cast qc" if fin: "cs_state ?s' = Finalized"
  proof (cases "vt_type v")
    case PreVote
    then have "cs_state s = Finalized \<and> cs_precommit_qc ?s' = cs_precommit_qc s \<and> cs_height ?s' = cs_height s \<and> cs_round ?s' = cs_round s"
      using fin True by (auto simp: receive_vote_def receive_prevote_def vote_checks_def prevote_write_def Let_def split: if_splits)
    with inv qc_of_view_cong [of ?s' s] show ?thesis by (auto simp: delivery_inv_def)
  next
    case PreCommit
    show ?thesis
    proof (cases "en_threshold en \<le> vote_count PreCommit (cs_votes ?s1)")
      case reached: True
      then have "cs_precommit_qc ?s' = Some (certificate hash en PreCommit (vt_block_hash v) ?s1)"
        using PreCommit True by (simp add: receive_vote_def receive_precommit_def vote_checks_def precommit_write_def Let_def)
      then show ?thesis using certificate_backed [OF fits cast, of hash en] wf(2) fin by (auto simp: consensus_wf_def)
    next
      case False
      then have "?s' = ?s1" using PreCommit True
        by (simp add: receive_vote_def receive_precommit_def vote_checks_def precommit_write_def Let_def)
      then show ?thesis using inv fin qc_of_view_cong [of ?s1 s] by (auto simp: delivery_inv_def)
    qed
  qed
  with wf(2) votes cast show ?thesis by (simp add: delivery_inv_def)
qed

lemma delivery_consensus: "delivery_step hash en cast s s' \<Longrightarrow> consensus_step hash en s s'"
  by (induction rule: delivery_step.induct) (auto intro: consensus_step.intros)

lemma delivery_step_inv: "delivery_step hash en cast s s' \<Longrightarrow> delivery_inv cast s \<Longrightarrow> delivery_inv cast s'"
proof -
  assume step: "delivery_step hash en cast s s'" and inv: "delivery_inv cast s"
  have "consensus_wf s'" using inv consensus_step_wf [OF delivery_consensus [OF step]] by (simp add: delivery_inv_def)
  with step inv show ?thesis
  proof (induction rule: delivery_step.induct)
    case (deliver_vote v s now)
    then show ?case using receive_vote_delivery by blast
  next
    case (deliver_propose s blk qc)
    then show ?case by (cases qc) (auto simp: delivery_inv_def propose_def Let_def)
  next
    case (deliver_commit s qc)
    then show ?case by (auto simp: delivery_inv_def commit_def)
  qed (auto simp: delivery_inv_def start_new_view_def advance_to_next_view_def advance_to_next_height_def Let_def)
qed

interpretation delivery_run: transition_system "delivery_step hash en cast" "delivery_inv cast" "\<lambda>s. s = consensus_default"
  for hash en cast
proof unfold_locales
  show "delivery_step hash en cast s s' \<Longrightarrow> delivery_inv cast s \<Longrightarrow> delivery_inv cast s'" for s s'
    by (rule delivery_step_inv)
qed (simp add: delivery_inv_def consensus_default_wf, simp add: consensus_default_def)

lemmas delivered = delivery_run.reachable_inv [OF _ refl]

lemma deliver_votes:
  "set vs \<subseteq> cast \<Longrightarrow> (delivery_step hash en cast)\<^sup>*\<^sup>* s (receive_votes hash en now vs s)"
proof (induction vs rule: rev_induct)
  case (snoc v vs)
  then have "(delivery_step hash en cast)\<^sup>*\<^sup>* s (receive_votes hash en now vs s)" by simp
  moreover have "delivery_step hash en cast (receive_votes hash en now vs s) (receive_votes hash en now (vs @ [v]) s)"
    using deliver_vote [of v cast hash en] snoc.prems by (simp add: receive_votes_def)
  ultimately show ?case by (rule rtranclp.rtrancl_into_rtrancl)
qed (simp add: receive_votes_def)

text \<open>A state is finalized by a quorum when its certificate is one, signed by active validators; a validator is honest
  in the cast votes when it precommits one block in a view.\<close>

definition finalized_by_quorum :: "engine \<Rightarrow> nat \<Rightarrow> consensus \<Rightarrow> bool" where
  "finalized_by_quorum en n s \<longleftrightarrow> cs_state s = Finalized \<and>
     (case cs_precommit_qc s of None \<Rightarrow> False
      | Some qc \<Rightarrow> is_quorum n (en_threshold en) qc \<and> fst ` set (qc_signatures qc) \<subseteq> active_ids en)"

definition precommits_once :: "vote set \<Rightarrow> bytes32 \<Rightarrow> bool" where
  "precommits_once cast i \<longleftrightarrow> (\<forall>u \<in> cast. \<forall>w \<in> cast. vt_validator_id u = i \<and> vt_validator_id w = i \<and> vt_type u = PreCommit \<and>
     vt_type w = PreCommit \<and> vt_height u = vt_height w \<and> vt_round u = vt_round w \<longrightarrow> vt_block_hash u = vt_block_hash w)"

definition honest_majority :: "engine \<Rightarrow> vote set \<Rightarrow> bool" where
  "honest_majority en cast \<longleftrightarrow> 3 * card {i \<in> active_ids en. \<not> precommits_once cast i} \<le> card (active_ids en)"

lemma finite_active_ids: "finite (active_ids en)"
  by (simp add: active_ids_def)

lemma views_agree:
  assumes en: "engine_ok en" and honest: "honest_majority en cast"
    and s: "delivery_inv cast s" "finalized_by_quorum en n s" and t: "delivery_inv cast t" "finalized_by_quorum en n t"
    and view: "cs_height s = cs_height t" "cs_round s = cs_round t"
  shows "finalized_block s = finalized_block t"
proof -
  obtain p where p: "cs_precommit_qc s = Some p" "qc_of_view PreCommit s p" "backed cast p"
      "is_quorum n (en_threshold en) p" "fst ` set (qc_signatures p) \<subseteq> active_ids en"
    using s by (auto simp: delivery_inv_def finalized_by_quorum_def split: option.splits)
  obtain q where q: "cs_precommit_qc t = Some q" "qc_of_view PreCommit t q" "backed cast q"
      "is_quorum n (en_threshold en) q" "fst ` set (qc_signatures q) \<subseteq> active_ids en"
    using t by (auto simp: delivery_inv_def finalized_by_quorum_def split: option.splits)
  let ?both = "fst ` set (qc_signatures p) \<inter> fst ` set (qc_signatures q)" and ?bad = "{i \<in> active_ids en. \<not> precommits_once cast i}"
  have "card (active_ids en) < 3 * card ?both"
    by (rule quorum_certificates_overlap [OF en p(4) q(4) _ _ p(5) q(5)]) (use p(2) q(2) in \<open>auto simp: qc_of_view_def\<close>)
  with honest have less: "card ?bad < card ?both" by (simp add: honest_majority_def)
  have "\<not> ?both \<subseteq> ?bad"
  proof
    assume "?both \<subseteq> ?bad"
    then have "card ?both \<le> card ?bad" by (rule card_mono [rotated]) (simp add: finite_active_ids)
    with less show False by simp
  qed
  then obtain i where i: "i \<in> fst ` set (qc_signatures p)" "i \<in> fst ` set (qc_signatures q)" "precommits_once cast i"
    using p(5) by blast
  obtain u where u: "u \<in> cast" "vt_validator_id u = i" "vt_type u = PreCommit" "vt_height u = qc_height p" "vt_round u = qc_round p"
      "vt_block_hash u = qc_block_hash p" using p(3) i(1) unfolding backed_def by blast
  obtain w where w: "w \<in> cast" "vt_validator_id w = i" "vt_type w = PreCommit" "vt_height w = qc_height q" "vt_round w = qc_round q"
      "vt_block_hash w = qc_block_hash q" using q(3) i(2) unfolding backed_def by blast
  have "qc_height p = qc_height q" "qc_round p = qc_round q" using p(2) q(2) view by (simp_all add: qc_of_view_def)
  with i(3) u w have "qc_block_hash p = qc_block_hash q" unfolding precommits_once_def by metis
  then show ?thesis using s(2) t(2) p(1) q(1) by (simp add: finalized_block_def finalized_by_quorum_def)
qed

text \<open>Votes of one view, block and type by distinct validators who have none of the type in the store yet each count.\<close>

definition round_votes :: "u64 \<Rightarrow> u32 \<Rightarrow> vote_type \<Rightarrow> bytes32 \<Rightarrow> (bytes32 \<Rightarrow> bytes) \<Rightarrow> bytes32 list \<Rightarrow> vote list" where
  "round_votes height round t h sig ids = map (\<lambda>i. vote_new i height round t h (sig i)) ids"

lemma receive_votes_snoc [simp]:
  "receive_votes hash en now (vs @ ws) s = receive_votes hash en now ws (receive_votes hash en now vs s)"
  "receive_votes hash en now [] s = s"
  "receive_votes hash en now [v] s = snd (receive_vote hash en now v s)"
  by (simp_all add: receive_votes_def)

lemma vote_count_replace:
  assumes "hm_wf m" "vt_type v = t" "\<And>u. map_of m i = Some u \<Longrightarrow> vt_type u \<noteq> t"
  shows "vote_count t (hm_insert i v m) = Suc (vote_count t m)"
proof (cases "map_of m i")
  case None
  with assms show ?thesis by (simp add: vote_count_new)
next
  case (Some u)
  with assms(3) have "vt_type u \<noteq> t" by blast
  then show ?thesis
    using assms(2) hm.total_insert [OF assms(1), of "\<lambda>v. if vt_type v = t then 1 else 0 :: nat" i v]
      hm.total_split [OF assms(1) Some, of "\<lambda>v. if vt_type v = t then 1 else 0 :: nat"]
    by (simp add: vote_count_total)
qed

lemma round_votes_received:
  fixes hash :: "bytes \<Rightarrow> bytes32" and en :: engine and now :: u64 and h :: bytes32 and sig :: "bytes32 \<Rightarrow> bytes"
  assumes "consensus_wf s" "distinct ids"
    and "\<forall>i \<in> set ids. \<forall>u. map_of (cs_votes s) i = Some u \<longrightarrow> vt_type u \<noteq> t"
  defines "s' \<equiv> receive_votes hash en now (round_votes (cs_height s) (cs_round s) t h sig ids) s"
  shows "consensus_wf s' \<and> cs_height s' = cs_height s \<and> cs_round s' = cs_round s \<and>
    vote_count t (cs_votes s') = vote_count t (cs_votes s) + length ids \<and>
    (\<forall>i. map_of (cs_votes s') i =
      (if i \<in> set ids then Some (vote_new i (cs_height s) (cs_round s) t h (sig i)) else map_of (cs_votes s) i))"
  using assms(2,3) unfolding s'_def
proof (induction ids rule: rev_induct)
  case Nil
  then show ?case using assms(1) by (simp add: round_votes_def)
next
  case (snoc i ids)
  let ?s1 = "receive_votes hash en now (round_votes (cs_height s) (cs_round s) t h sig ids) s"
  let ?v = "vote_new i (cs_height s) (cs_round s) t h (sig i)"
  have "distinct ids" "\<forall>j \<in> set ids. \<forall>u. map_of (cs_votes s) j = Some u \<longrightarrow> vt_type u \<noteq> t"
    using snoc.prems by auto
  note all = snoc.IH [OF this]
  have ih: "consensus_wf ?s1" "cs_height ?s1 = cs_height s" "cs_round ?s1 = cs_round s"
    "vote_count t (cs_votes ?s1) = vote_count t (cs_votes s) + length ids"
    "\<And>j. map_of (cs_votes ?s1) j =
      (if j \<in> set ids then Some (vote_new j (cs_height s) (cs_round s) t h (sig j)) else map_of (cs_votes s) j)"
    using all by blast+
  have v: "vt_height ?v = cs_height ?s1" "vt_round ?v = cs_round ?s1" "vt_validator_id ?v = i" "vt_type ?v = t"
    using ih(2,3) by (simp_all add: vote_new_def)
  have votes: "cs_votes (snd (receive_vote hash en now ?v ?s1)) = hm_insert i ?v (cs_votes ?s1)"
    using receive_vote_accepts(2) [OF v(1,2)] v(3) by simp
  have "vote_count t (hm_insert i ?v (cs_votes ?s1)) = Suc (vote_count t (cs_votes ?s1))"
    by (rule vote_count_replace) (use ih(1,5) v(4) snoc.prems in \<open>auto simp: consensus_wf_def split: if_splits\<close>)
  then show ?case
    using ih receive_vote_wf [OF ih(1)] receive_vote_accepts(3,4) [OF v(1,2)] votes by (simp add: round_votes_def)
qed

text \<open>The last of enough precommits finalizes the state with a certificate of them all.\<close>

lemma precommits_finalize:
  fixes hash :: "bytes \<Rightarrow> bytes32" and en :: engine and now :: u64 and h :: bytes32 and sig :: "bytes32 \<Rightarrow> bytes"
  assumes "consensus_wf s" "distinct ids" "ids \<noteq> []" "en_threshold en \<le> length ids"
    and "\<forall>i u. map_of (cs_votes s) i = Some u \<longrightarrow> vt_type u \<noteq> PreCommit"
  defines "s' \<equiv> receive_votes hash en now (round_votes (cs_height s) (cs_round s) PreCommit h sig ids) s"
  shows "cs_state s' = Finalized \<and> (\<exists>qc. cs_precommit_qc s' = Some qc \<and> qc_block_hash qc = h \<and>
    fst ` set (qc_signatures qc) = set ids \<and> length (qc_signatures qc) = length ids)"
proof -
  obtain js i where ids: "ids = js @ [i]" using assms(3) by (cases ids rule: rev_cases) auto
  let ?s1 = "receive_votes hash en now (round_votes (cs_height s) (cs_round s) PreCommit h sig js) s"
  let ?v = "vote_new i (cs_height s) (cs_round s) PreCommit h (sig i)"
  let ?m = "hm_insert i ?v (cs_votes ?s1)" and ?c = "certificate hash en PreCommit h (?s1\<lparr>cs_votes := hm_insert i ?v (cs_votes ?s1)\<rparr>)"
  have s': "s' = snd (receive_vote hash en now ?v ?s1)" by (simp add: s'_def ids round_votes_def)
  have before: "consensus_wf ?s1" "cs_height ?s1 = cs_height s" "cs_round ?s1 = cs_round s"
    using round_votes_received [of s js PreCommit hash en now h sig] assms(1,2,5) ids by auto
  have after: "vote_count PreCommit (cs_votes s') = vote_count PreCommit (cs_votes s) + length ids"
    "\<And>j. map_of (cs_votes s') j = (if j \<in> set ids then Some (vote_new j (cs_height s) (cs_round s) PreCommit h (sig j)) else map_of (cs_votes s) j)"
    using round_votes_received [of s ids PreCommit hash en now h sig] assms(1,2,5) unfolding s'_def by auto
  have v: "vt_height ?v = cs_height ?s1" "vt_round ?v = cs_round ?s1" "vt_validator_id ?v = i" "vt_type ?v = PreCommit" "vt_block_hash ?v = h"
    using before(2,3) by (simp_all add: vote_new_def)
  have votes: "cs_votes s' = ?m" using receive_vote_accepts(2) [OF v(1,2)] v(3) by (simp add: s')
  have wf: "hm_wf ?m" using before(1) by (simp add: consensus_wf_def hm.wf_insert)
  have fin: "cs_state s' = Finalized" "cs_precommit_qc s' = Some ?c"
    using after(1) assms(4) v votes unfolding s'
    by (simp_all add: receive_vote_def receive_precommit_def vote_checks_def precommit_write_def Let_def)
  have entry: "(j, u) \<in> set ?m \<longleftrightarrow> (if j \<in> set ids then u = vote_new j (cs_height s) (cs_round s) PreCommit h (sig j) else map_of (cs_votes s) j = Some u)" for j u
    using hm.entry_iff [OF wf] after(2) [of j] votes by auto
  have "set (map fst (qc_signatures ?c)) = {j. \<exists>u. (j, u) \<in> set ?m \<and> vt_type u = PreCommit \<and> vt_block_hash u = h}"
    unfolding certificate_signers by force
  also have "\<dots> = set ids"
    unfolding entry using assms(5) by (auto simp: vote_new_def)
  finally have signers: "fst ` set (qc_signatures ?c) = set ids" by simp
  have "distinct (map fst (qc_signatures ?c))" by (rule certificate_distinct) (use wf in simp)
  then have "length (qc_signatures ?c) = card (set ids)" using signers by (metis distinct_card length_map list.set_map)
  with fin signers assms(2) show ?thesis by (simp add: distinct_card)
qed

lemma prevotes_lock:
  fixes hash :: "bytes \<Rightarrow> bytes32" and en :: engine and now :: u64 and h :: bytes32 and sig :: "bytes32 \<Rightarrow> bytes"
  assumes "consensus_wf s" "cs_votes s = []" "distinct ids" "ids \<noteq> []" "en_threshold en \<le> length ids"
  shows "cs_locked_block (receive_votes hash en now (round_votes (cs_height s) (cs_round s) PreVote h sig ids) s) = Some h"
proof -
  obtain js i where ids: "ids = js @ [i]" using assms(4) by (cases ids rule: rev_cases) auto
  let ?s1 = "receive_votes hash en now (round_votes (cs_height s) (cs_round s) PreVote h sig js) s"
  let ?v = "vote_new i (cs_height s) (cs_round s) PreVote h (sig i)"
  have before: "consensus_wf ?s1" "cs_height ?s1 = cs_height s" "cs_round ?s1 = cs_round s"
    using round_votes_received [of s js PreVote hash en now h sig] assms(1-3) ids by auto
  have v: "vt_height ?v = cs_height ?s1" "vt_round ?v = cs_round ?s1" "vt_validator_id ?v = i" "vt_type ?v = PreVote" "vt_block_hash ?v = h"
    using before(2,3) by (simp_all add: vote_new_def)
  have "vote_count PreVote (cs_votes (receive_votes hash en now (round_votes (cs_height s) (cs_round s) PreVote h sig ids) s)) = length ids"
    using round_votes_received [of s ids PreVote hash en now h sig] assms(1-3) by (auto simp: vote_count_def)
  then have "en_threshold en \<le> vote_count PreVote (hm_insert i ?v (cs_votes ?s1))"
    using receive_vote_accepts(2) [OF v(1,2), of hash en now] v(3) assms(5) by (simp add: ids round_votes_def)
  then have "cs_locked_block (snd (receive_vote hash en now ?v ?s1)) = Some h"
    using v by (simp add: receive_vote_def receive_prevote_def vote_checks_def prevote_write_def Let_def)
  then show ?thesis by (simp add: ids round_votes_def)
qed

text \<open>A round: prevotes and then precommits of enough validators, from a state without votes.\<close>

definition full_round :: "(bytes \<Rightarrow> bytes32) \<Rightarrow> engine \<Rightarrow> u64 \<Rightarrow> bytes32 \<Rightarrow> (bytes32 \<Rightarrow> bytes) \<Rightarrow> bytes32 list \<Rightarrow> bytes32 list \<Rightarrow> consensus \<Rightarrow> consensus" where
  "full_round hash en now h sig prevoters precommitters s =
     receive_votes hash en now (round_votes (cs_height s) (cs_round s) PreVote h sig prevoters @
       round_votes (cs_height s) (cs_round s) PreCommit h sig precommitters) s"

lemma full_round_finalizes:
  assumes "consensus_wf s" "cs_votes s = []" "distinct ids" "distinct js" "engine_ok en" "en_threshold en \<le> length js"
    and "set js \<subseteq> active_ids en"
  shows "finalized_by_quorum en n (full_round hash en now h sig ids js s) \<and> finalized_block (full_round hash en now h sig ids js s) = Some h \<and>
    cs_height (full_round hash en now h sig ids js s) = cs_height s \<and> cs_round (full_round hash en now h sig ids js s) = cs_round s"
proof -
  let ?s1 = "receive_votes hash en now (round_votes (cs_height s) (cs_round s) PreVote h sig ids) s"
  have pos: "0 < en_threshold en"
    using assms(5) unfolding engine_ok_def by (metis add_gr_0 engine.select_convs(2) engine_new_def zero_less_one)
  then have ne: "js \<noteq> []" using assms(6) by auto
  have mid: "consensus_wf ?s1" "cs_height ?s1 = cs_height s" "cs_round ?s1 = cs_round s"
    "\<And>i. map_of (cs_votes ?s1) i = (if i \<in> set ids then Some (vote_new i (cs_height s) (cs_round s) PreVote h (sig i)) else None)"
    using round_votes_received [of s ids PreVote hash en now h sig] assms(1-3) by auto
  have none: "\<forall>i u. map_of (cs_votes ?s1) i = Some u \<longrightarrow> vt_type u \<noteq> PreCommit"
    using mid(4) by (auto simp: vote_new_def split: if_splits)
  have round: "full_round hash en now h sig ids js s =
      receive_votes hash en now (round_votes (cs_height ?s1) (cs_round ?s1) PreCommit h sig js) ?s1"
    by (simp add: full_round_def mid(2,3))
  obtain qc where "cs_state (full_round hash en now h sig ids js s) = Finalized"
    "cs_precommit_qc (full_round hash en now h sig ids js s) = Some qc" "qc_block_hash qc = h" "fst ` set (qc_signatures qc) = set js"
    "length (qc_signatures qc) = length js"
    using precommits_finalize [OF mid(1) assms(4) ne assms(6) none, where hash = hash and now = now and h = h and sig = sig] unfolding round by blast
  moreover have "cs_height (full_round hash en now h sig ids js s) = cs_height s \<and> cs_round (full_round hash en now h sig ids js s) = cs_round s"
    using round_votes_received [of ?s1 js PreCommit hash en now h sig] mid(1-3) assms(4) none unfolding round by auto
  ultimately show ?thesis using assms(6,7) pos
    by (simp add: finalized_by_quorum_def finalized_block_def is_quorum_def)
qed

lemma full_round_delivered:
  "set (round_votes (cs_height s) (cs_round s) PreVote h sig ids) \<union> set (round_votes (cs_height s) (cs_round s) PreCommit h sig js) \<subseteq> cast \<Longrightarrow>
   (delivery_step hash en cast)\<^sup>*\<^sup>* s (full_round hash en now h sig ids js s)"
  unfolding full_round_def by (rule deliver_votes) simp

text \<open>The three ways into a new view: each clears the votes and leaves a state that is not finalized.\<close>

definition enters_view :: "engine \<Rightarrow> consensus \<Rightarrow> consensus \<Rightarrow> bool" where
  "enters_view en s s' \<longleftrightarrow> (\<exists>height round. s' = start_new_view en height round s) \<or> s' = advance_to_next_view en s \<or>
     s' = advance_to_next_height s"

lemma new_view_wf: "consensus_wf (start_new_view en height round s)" "cs_votes (start_new_view en height round s) = []"
  by (simp_all add: start_new_view_def consensus_wf_def hm_wf_def)

lemma next_view_wf: "consensus_wf (advance_to_next_view en s)" "cs_votes (advance_to_next_view en s) = []"
  by (simp_all add: advance_to_next_view_def consensus_wf_def hm_wf_def Let_def)

lemma next_height_wf: "consensus_wf (advance_to_next_height s)" "cs_votes (advance_to_next_height s) = []"
  by (simp_all add: advance_to_next_height_def consensus_wf_def hm_wf_def)

lemma entered_view: "enters_view en s s' \<Longrightarrow> consensus_wf s'" "enters_view en s s' \<Longrightarrow> cs_votes s' = []"
  by (auto simp: enters_view_def new_view_wf next_view_wf next_height_wf)

section \<open>Example nodes\<close>

text \<open>Two nodes of four validators that receive the votes of three each; the first validator casts two precommits.\<close>

definition example_ids :: "u8 list \<Rightarrow> bytes32 list" where
  "example_ids is = map (replicate 32) is"

definition example_cast :: "vote set" where
  "example_cast = set (round_votes 5 2 PreVote (replicate 32 9) (\<lambda>i. []) (example_ids [1, 2, 3, 4])) \<union>
     set (round_votes 5 2 PreCommit (replicate 32 9) (\<lambda>i. []) (example_ids [1, 2, 3, 4])) \<union>
     {vote_new (replicate 32 1) 5 2 PreCommit (replicate 32 8) []}"

definition example_node :: "u8 list \<Rightarrow> consensus" where
  "example_node is = full_round (\<lambda>b. zero32) example_engine 7 (replicate 32 9) (\<lambda>i. []) (example_ids is) (example_ids is)
     (start_new_view example_engine 5 2 consensus_default)"

lemma example_engine_ok: "engine_ok example_engine"
  by (simp add: engine_ok_def example_engine_def engine_new_def)

lemma example_honest: "honest_majority example_engine example_cast"
proof -
  have "precommits_once example_cast i" if "i \<noteq> replicate 32 1" for i
    using that by (auto simp: precommits_once_def example_cast_def round_votes_def vote_new_def)
  then have "{i \<in> active_ids example_engine. \<not> precommits_once example_cast i} \<subseteq> {replicate 32 1}" by blast
  then have "card {i \<in> active_ids example_engine. \<not> precommits_once example_cast i} \<le> card {replicate 32 1 :: bytes32}"
    by (rule card_mono [rotated]) simp
  moreover have "active_ids example_engine = set (example_ids [1, 2, 3, 4])" by code_simp
  then have "card (active_ids example_engine) = 4"
    by (simp only: distinct_card) (simp add: example_ids_def replicate_eq_replicate)
  ultimately show ?thesis by (simp add: honest_majority_def)
qed

lemma example_node_finalized:
  assumes "is \<in> {[1, 2, 3], [2, 3, 4]}"
  shows "finalized_by_quorum example_engine 4 (example_node is)" "finalized_block (example_node is) = Some (replicate 32 9)"
    "cs_height (example_node is) = 5" "cs_round (example_node is) = 2"
    "(delivery_step (\<lambda>b. zero32) example_engine example_cast)\<^sup>*\<^sup>* consensus_default (example_node is)"
proof -
  let ?v = "start_new_view example_engine 5 2 consensus_default"
  have d: "distinct (example_ids is)" and l: "en_threshold example_engine \<le> length (example_ids is)"
    using assms by (auto simp: example_ids_def replicate_eq_replicate example_threshold)
  have "set (example_ids [1, 2, 3, 4]) \<subseteq> active_ids example_engine" by code_simp
  then have a: "set (example_ids is) \<subseteq> active_ids example_engine" using assms by (auto simp: example_ids_def)
  have v: "cs_height ?v = 5" "cs_round ?v = 2" by (simp_all add: start_new_view_def)
  show "finalized_by_quorum example_engine 4 (example_node is)" "finalized_block (example_node is) = Some (replicate 32 9)"
    "cs_height (example_node is) = 5" "cs_round (example_node is) = 2"
    using full_round_finalizes [OF new_view_wf(1) [where en = example_engine and height = 5 and round = 2]
        new_view_wf(2) [where en = example_engine and height = 5 and round = 2 and s = consensus_default] d d example_engine_ok l a,
        where n = 4 and hash = "\<lambda>b. zero32" and now = 7 and h = "replicate 32 9" and sig = "\<lambda>i. []"] v
    by (simp_all add: example_node_def)
  have "(delivery_step (\<lambda>b. zero32) example_engine example_cast)\<^sup>*\<^sup>* consensus_default ?v"
    using deliver_view [of "\<lambda>b. zero32" example_engine example_cast consensus_default 5 2] by blast
  also have "(delivery_step (\<lambda>b. zero32) example_engine example_cast)\<^sup>*\<^sup>* ?v (example_node is)"
    unfolding example_node_def
    by (rule full_round_delivered) (use assms v in \<open>auto simp: example_cast_def round_votes_def example_ids_def\<close>)
  finally show "(delivery_step (\<lambda>b. zero32) example_engine example_cast)\<^sup>*\<^sup>* consensus_default (example_node is)" .
qed

section \<open>Properties\<close>

text \<open>C2. Agreement. Whatever calls two engines with the same active validators make, in whatever order the votes cast reach
  them: if both are finalized at the same height and round by quorums of active validators, they are finalized for the
  same block, provided that at most a third of the active validators cast precommits for two blocks in one view.\<close>

theorem agreement:
  assumes "engine_ok en" "honest_majority en cast"
    and "(delivery_step hash en cast)\<^sup>*\<^sup>* consensus_default s" "finalized_by_quorum en n s"
    and "(delivery_step hash en cast)\<^sup>*\<^sup>* consensus_default t" "finalized_by_quorum en n t"
    and "cs_height s = cs_height t" "cs_round s = cs_round t"
  shows "finalized_block s = finalized_block t"
  by (rule views_agree [OF assms(1,2) delivered [OF assms(3)] assms(4) delivered [OF assms(5)] assms(6-8)])

theorem agreement_witness:
  "finalized_block (example_node [1, 2, 3]) = finalized_block (example_node [2, 3, 4]) \<and> \<not> precommits_once example_cast (replicate 32 1)"
proof
  show "finalized_block (example_node [1, 2, 3]) = finalized_block (example_node [2, 3, 4])"
    using agreement [OF example_engine_ok example_honest, of "\<lambda>b. zero32" "example_node [1, 2, 3]" 4 "example_node [2, 3, 4]"]
      example_node_finalized [of "[1, 2, 3]"] example_node_finalized [of "[2, 3, 4]"] by simp
  show "\<not> precommits_once example_cast (replicate 32 1)"
    by (auto simp: precommits_once_def example_cast_def round_votes_def vote_new_def example_ids_def replicate_eq_replicate)
qed

text \<open>C7. A round makes progress: whatever state an engine is in, with whatever votes, once it enters a new view (by starting
  one, by advancing to the next view or by advancing to the next height) the prevotes of any validators and then the
  precommits of active ones that reach the threshold, all for one block and with no other call in between, finalize it
  for the block by a quorum at the height and round it entered.\<close>

theorem round_finalizes:
  assumes "engine_ok en" "distinct ids" "distinct js" "en_threshold en \<le> length js" "set js \<subseteq> active_ids en"
    and "enters_view en s0 v"
  shows "let s = full_round hash en now h sig ids js v
    in finalized_by_quorum en n s \<and> finalized_block s = Some h \<and> cs_height s = cs_height v \<and> cs_round s = cs_round v"
  using full_round_finalizes [OF entered_view [OF assms(6)] assms(2,3,1,4,5), where n = n and hash = hash and now = now and h = h and sig = sig]
  by (simp add: Let_def)

lemma example_active: "set (map (replicate 32) [1, 2, 3]) \<subseteq> active_ids example_engine"
  by code_simp

lemma example_voters: "distinct (map (replicate 32) [1, 2, 3 :: u8])"
  by (simp add: replicate_eq_replicate)

text \<open>In the example the engine is finalized already, for another block, when it advances.\<close>

theorem round_finalizes_witness:
  "let ids = map (replicate 32) [1, 2, 3 :: u8]; s0 = example_node [1, 2, 3];
       s = full_round (\<lambda>b. zero32) example_engine 7 (replicate 32 6) (\<lambda>i. []) ids ids (advance_to_next_height s0)
   in finalized_block s0 = Some (replicate 32 9) \<and> cs_votes s0 \<noteq> [] \<and>
      finalized_by_quorum example_engine 4 s \<and> finalized_block s = Some (replicate 32 6) \<and> cs_height s = 6 \<and> cs_round s = 0"
proof -
  let ?s0 = "example_node [1, 2, 3]"
  have e: "enters_view example_engine ?s0 (advance_to_next_height ?s0)" by (simp add: enters_view_def)
  have h: "cs_height (advance_to_next_height ?s0) = 6" "cs_round (advance_to_next_height ?s0) = 0"
    using example_node_finalized [of "[1, 2, 3]"] by (simp_all add: advance_to_next_height_def)
  have v: "cs_votes ?s0 \<noteq> []" by code_simp
  from round_finalizes [OF example_engine_ok example_voters example_voters _ example_active e,
      of "\<lambda>b. zero32" 7 "replicate 32 6" "\<lambda>i. []" 4] h v example_node_finalized [of "[1, 2, 3]"]
  show ?thesis by (simp add: example_threshold Let_def)
qed

text \<open>C11. No agreement between rounds. For any two blocks there are votes, with one precommit of every validator in each view,
  and two runs, such that both are finalized by quorums at one height, one for each block: the second engine is locked on
  the first block when it accepts the votes for the second.\<close>

theorem rounds_disagree:
  assumes "engine_ok en" "distinct ids" "en_threshold en \<le> length ids" "set ids \<subseteq> active_ids en" "a \<noteq> b"
  shows "\<exists>cast s t u. (\<forall>i. precommits_once cast i) \<and> (delivery_step hash en cast)\<^sup>*\<^sup>* consensus_default s \<and>
    (delivery_step hash en cast)\<^sup>*\<^sup>* consensus_default u \<and> cs_locked_block u = Some a \<and> (delivery_step hash en cast)\<^sup>*\<^sup>* u t \<and>
    cs_height s = cs_height t \<and> finalized_by_quorum en n s \<and> finalized_by_quorum en n t \<and>
    finalized_block s = Some a \<and> finalized_block t = Some b"
proof -
  let ?sig = "\<lambda>i :: bytes32. [] :: bytes" and ?v = "start_new_view en 0 0 consensus_default"
  let ?prevotes = "round_votes 0 0 PreVote a ?sig ids"
  let ?cast = "set ?prevotes \<union> set (round_votes 0 0 PreCommit a ?sig ids) \<union>
    (set (round_votes 0 1 PreVote b ?sig ids) \<union> set (round_votes 0 1 PreCommit b ?sig ids))"
  let ?s = "full_round hash en 0 a ?sig ids ids ?v" and ?u = "receive_votes hash en 0 ?prevotes ?v"
  let ?w = "advance_to_next_view en ?u" and ?t = "full_round hash en 0 b ?sig ids ids (advance_to_next_view en ?u)"
  note nv = new_view_wf(1) [where en = en and height = 0 and round = 0]
    new_view_wf(2) [where en = en and height = 0 and round = 0 and s = consensus_default]
  have v: "cs_height ?v = 0" "cs_round ?v = 0" by (simp_all add: start_new_view_def)
  have u: "cs_height ?u = 0" "cs_round ?u = 0"
    using round_votes_received [of ?v ids PreVote hash en 0 a ?sig] nv assms(2) v by simp_all
  then have w: "cs_height ?w = 0" "cs_round ?w = 1" by (simp_all add: advance_to_next_view_def Let_def)
  have pos: "ids \<noteq> []" using assms(1,3) unfolding engine_ok_def
    by (metis add_gr_0 engine.select_convs(2) engine_new_def zero_less_one le_zero_eq less_irrefl list.size(3))
  have once: "precommits_once ?cast i" for i
    by (auto simp: precommits_once_def round_votes_def vote_new_def)
  have r0: "(delivery_step hash en ?cast)\<^sup>*\<^sup>* consensus_default ?v"
    using deliver_view [of hash en ?cast consensus_default 0 0] by blast
  have rs: "(delivery_step hash en ?cast)\<^sup>*\<^sup>* ?v ?s" by (rule full_round_delivered) (use v in auto)
  have ru: "(delivery_step hash en ?cast)\<^sup>*\<^sup>* ?v ?u" by (rule deliver_votes) auto
  have rw: "(delivery_step hash en ?cast)\<^sup>*\<^sup>* ?u ?w" using deliver_next_view [of hash en ?cast ?u] by blast
  have rt: "(delivery_step hash en ?cast)\<^sup>*\<^sup>* ?w ?t" by (rule full_round_delivered) (use w in auto)
  have fs: "finalized_by_quorum en n ?s \<and> finalized_block ?s = Some a \<and> cs_height ?s = 0 \<and> cs_round ?s = 0"
    using full_round_finalizes [OF nv assms(2,2,1,3,4), where n = n and hash = hash and now = 0 and h = a and sig = ?sig] v by simp
  have ft: "finalized_by_quorum en n ?t \<and> finalized_block ?t = Some b \<and> cs_height ?t = 0 \<and> cs_round ?t = 1"
    using full_round_finalizes [OF next_view_wf assms(2,2,1,3,4), where n = n and hash = hash and now = 0 and h = b and sig = ?sig] w by simp
  have lock: "cs_locked_block ?u = Some a"
    using prevotes_lock [OF nv assms(2) pos assms(3), where hash = hash and now = 0 and h = a and sig = ?sig] v by simp
  show ?thesis
    using once r0 rs ru rw rt fs ft lock rtranclp_trans [OF r0 rs] rtranclp_trans [OF r0 ru] rtranclp_trans [OF rw rt]
    by (intro exI [of _ ?cast] exI [of _ ?s] exI [of _ ?t] exI [of _ ?u]) simp
qed

theorem rounds_disagree_witness:
  "\<exists>cast s t u. (\<forall>i. precommits_once cast i) \<and> (delivery_step (\<lambda>b. zero32) example_engine cast)\<^sup>*\<^sup>* consensus_default s \<and>
    (delivery_step (\<lambda>b. zero32) example_engine cast)\<^sup>*\<^sup>* consensus_default u \<and> cs_locked_block u = Some [1] \<and>
    (delivery_step (\<lambda>b. zero32) example_engine cast)\<^sup>*\<^sup>* u t \<and>
    cs_height s = cs_height t \<and> finalized_by_quorum example_engine 4 s \<and> finalized_by_quorum example_engine 4 t \<and>
    finalized_block s = Some [1] \<and> finalized_block t = Some [2]"
  by (rule rounds_disagree [OF example_engine_ok example_voters _ example_active]) (simp_all add: example_threshold)

end
