(* ===== verification/Escrows.thy ===== *)
theory Escrows
  imports Ledger
begin

text \<open>
  The money of a job across the transactions of \<open>crates/truth/src/state.rs\<close>: what the escrow of a job holds, what a
  transaction puts into it, pays out of it and loses by opening the escrow again while it is active. The sums of a run
  of the ledger balance.
\<close>

definition held :: "bytes32 \<Rightarrow> ledger \<Rightarrow> nat" where
  "held j s = (case get_escrow (lg_settlement s) j of None \<Rightarrow> 0
     | Some e \<Rightarrow> if je_status e = EscActive then unat (je_amount e) else 0)"

definition applied :: "crypto \<Rightarrow> transaction \<Rightarrow> ledger \<Rightarrow> bool" where
  "applied c tx s \<longleftrightarrow> \<not> isl (fst (apply_transaction c tx s))"

text \<open>The job and the amount of a transaction that opens an escrow.\<close>

definition opens_escrow :: "transaction \<Rightarrow> (bytes32 \<times> u64) option" where
  "opens_escrow tx =
     (case tx_type tx of
        JobSubmit \<Rightarrow> Some (sub_slice (tx_payload tx) 0 32, from_le_bytes (sub_slice (tx_payload tx) 64 72))
      | EscrowDeposit \<Rightarrow> Some (sub_slice (tx_payload tx) 0 32, from_le_bytes (sub_slice (tx_payload tx) 32 40))
      | _ \<Rightarrow> None)"

definition opened_by :: "crypto \<Rightarrow> bytes32 \<Rightarrow> transaction \<Rightarrow> ledger \<Rightarrow> nat" where
  "opened_by c j tx s = (case opens_escrow tx of Some (i, a) \<Rightarrow> if applied c tx s \<and> i = j then unat a else 0 | None \<Rightarrow> 0)"

definition lost_by :: "crypto \<Rightarrow> bytes32 \<Rightarrow> transaction \<Rightarrow> ledger \<Rightarrow> nat" where
  "lost_by c j tx s = (case opens_escrow tx of Some (i, a) \<Rightarrow> if applied c tx s \<and> i = j then held j s else 0 | None \<Rightarrow> 0)"

text \<open>What the settlement layer pays for a transaction.\<close>

definition payment :: "state_error + u64 \<Rightarrow> nat" where
  "payment r = (case r of Inr a \<Rightarrow> unat a | Inl _ \<Rightarrow> 0)"

definition paid_by :: "crypto \<Rightarrow> bytes32 \<Rightarrow> transaction \<Rightarrow> ledger \<Rightarrow> nat" where
  "paid_by c j tx s =
     (let p = tx_payload tx; st = lg_settlement s
      in if \<not> applied c tx s then 0
         else case tx_type tx of
           EscrowRelease \<Rightarrow> if sub_slice p 0 32 = j then payment (fst (release_escrow j (sub_slice p 32 64) st)) else 0
         | EscrowRefund \<Rightarrow> if sub_slice p 0 32 = j then payment (fst (refund_escrow j st)) else 0
         | JobSettle \<Rightarrow> if tx_sender tx = j
             then (case get_escrow st j of None \<Rightarrow> 0 | Some e \<Rightarrow> unat (fst (escrow_release (tx_sender tx) e))) else 0
         | _ \<Rightarrow> 0)"

text \<open>A run of the ledger with the sums of what was put in, paid and lost for the job.\<close>

inductive money_run :: "crypto \<Rightarrow> bytes32 \<Rightarrow> ledger \<Rightarrow> nat \<Rightarrow> nat \<Rightarrow> nat \<Rightarrow> ledger \<Rightarrow> bool" for c j s where
  mr_start: "money_run c j s 0 0 0 s"
| mr_tx: "money_run c j s opened paid lost s1 \<Longrightarrow> apply_transaction c tx s1 = (res, s2) \<Longrightarrow>
    money_run c j s (opened + opened_by c j tx s1) (paid + paid_by c j tx s1) (lost + lost_by c j tx s1) s2"
| mr_height: "money_run c j s opened paid lost s1 \<Longrightarrow> money_run c j s opened paid lost (increment_height s1)"
| mr_root: "money_run c j s opened paid lost s1 \<Longrightarrow> money_run c j s opened paid lost (snd (compute_state_root c s1))"
| mr_validators: "money_run c j s opened paid lost s1 \<Longrightarrow> money_run c j s opened paid lost (set_validator_set_root root s1)"

lemma money_run_steps: "money_run c j s opened paid lost s' \<Longrightarrow> (ledger_step c)\<^sup>*\<^sup>* s s'"
proof (induction rule: money_run.induct)
  case (mr_tx opened paid lost s1 tx res s2)
  from rtranclp.rtrancl_into_rtrancl [OF mr_tx.IH step_tx [OF mr_tx.hyps(2)]] show ?case .
qed (auto intro: rtranclp.rtrancl_into_rtrancl ledger_step.intros)

lemma steps_money_run: "(ledger_step c)\<^sup>*\<^sup>* s s' \<Longrightarrow> \<exists>opened paid lost. money_run c j s opened paid lost s'"
proof (induction rule: rtranclp_induct)
  case base
  then show ?case using mr_start by blast
next
  case (step s1 s2)
  then obtain opened paid lost where run: "money_run c j s opened paid lost s1" by blast
  from step.hyps(2) show ?case
    by (cases rule: ledger_step.cases) (use run in \<open>blast intro: money_run.intros\<close>)+
qed

section \<open>The balance of one transaction\<close>

lemma held_cong: "job_escrows (lg_settlement s') = job_escrows (lg_settlement s) \<Longrightarrow> held j s' = held j s"
  by (simp add: held_def get_escrow_def)

lemma held_create:
  "held j (s\<lparr>lg_settlement := create_escrow i cl a h d (lg_settlement s)\<rparr>) = (if i = j then unat a else held j s)"
  by (simp add: held_def get_escrow_def create_escrow_def job_escrow_new_def)

lemma held_release:
  "held j (s\<lparr>lg_settlement := snd (release_escrow i to (lg_settlement s))\<rparr>) +
     (if i = j then payment (fst (release_escrow i to (lg_settlement s))) else 0) = held j s"
  by (auto simp: held_def get_escrow_def release_escrow_def escrow_release_def payment_def split: option.splits)

lemma held_refund:
  "held j (s\<lparr>lg_settlement := snd (refund_escrow i (lg_settlement s))\<rparr>) +
     (if i = j then payment (fst (refund_escrow i (lg_settlement s))) else 0) = held j s"
  by (auto simp: held_def get_escrow_def refund_escrow_def escrow_refund_def payment_def split: option.splits)

lemma held_job_settle:
  "64 \<le> length (tx_payload tx) \<Longrightarrow> held j (snd (apply_job_settle c tx s)) +
     (if tx_sender tx = j then (case get_escrow (lg_settlement s) j of None \<Rightarrow> 0
        | Some e \<Rightarrow> unat (fst (escrow_release (tx_sender tx) e))) else 0) = held j s"
  by (auto simp: held_def get_escrow_def apply_job_settle_def anchor_receipt_def escrow_release_def Let_def split: option.splits)

lemma apply_transaction_cases:
  assumes "apply_transaction c tx s = (res, s')"
  obtains "\<not> applied c tx s" "s' = s"
    | "applied c tx s" "dispatch c (tx_type tx) tx s = (Inr (), s')"
  using assms unfolding applied_def
  by (auto simp: apply_transaction_def dest: dispatch_error split: sum.splits if_splits prod.splits)

lemma dispatch_escrows:
  "dispatch c t tx s = (r, s') \<Longrightarrow> t \<notin> {JobSubmit, EscrowDeposit, EscrowRelease, EscrowRefund, JobSettle} \<Longrightarrow>
   job_escrows (lg_settlement s') = job_escrows (lg_settlement s)"
  by (cases t) (auto simp: handler_defs Let_def split: if_splits option.splits)

lemma dispatch_balance:
  assumes "applied c tx s" "dispatch c (tx_type tx) tx s = (Inr (), s')"
  shows "held j s + opened_by c j tx s = paid_by c j tx s + lost_by c j tx s + held j s'"
proof -
  have other: "tx_type tx \<notin> {JobSubmit, EscrowDeposit, EscrowRelease, EscrowRefund, JobSettle} \<Longrightarrow> held j s' = held j s"
    using dispatch_escrows [OF assms(2)] by (rule held_cong)
  note defs = opened_by_def paid_by_def lost_by_def opens_escrow_def assms(1) Let_def
  let ?money = "{JobSubmit, EscrowDeposit, EscrowRelease, EscrowRefund, JobSettle}"
  consider (Other) "tx_type tx \<notin> ?money" | (JobSubmit) "tx_type tx = JobSubmit" | (EscrowDeposit) "tx_type tx = EscrowDeposit"
    | (EscrowRelease) "tx_type tx = EscrowRelease" | (EscrowRefund) "tx_type tx = EscrowRefund" | (JobSettle) "tx_type tx = JobSettle"
    by blast
  then show ?thesis
  proof cases
    case Other
    then have "opened_by c j tx s = 0" "lost_by c j tx s = 0"
      by (cases "tx_type tx"; simp add: opened_by_def lost_by_def opens_escrow_def)+
    moreover from Other have "paid_by c j tx s = 0"
      by (cases "tx_type tx"; simp add: paid_by_def Let_def)
    ultimately show ?thesis using other [OF Other] by simp
  next
    case JobSubmit
    with assms(2) have "s' = s\<lparr>lg_settlement := create_escrow (sub_slice (tx_payload tx) 0 32) (tx_sender tx)
        (from_le_bytes (sub_slice (tx_payload tx) 64 72)) (lg_height s) 500 (lg_settlement s)\<rparr>"
      by (simp add: apply_job_submit_def Let_def split: if_splits)
    with JobSubmit show ?thesis by (simp add: defs held_create)
  next
    case EscrowDeposit
    with assms(2) have "s' = s\<lparr>lg_settlement := create_escrow (sub_slice (tx_payload tx) 0 32) (tx_sender tx)
        (from_le_bytes (sub_slice (tx_payload tx) 32 40)) (lg_height s) 500 (lg_settlement s)\<rparr>"
      by (simp add: apply_escrow_deposit_def Let_def split: if_splits)
    with EscrowDeposit show ?thesis by (simp add: defs held_create)
  next
    case EscrowRelease
    let ?i = "sub_slice (tx_payload tx) 0 32" and ?to = "sub_slice (tx_payload tx) 32 64"
    from EscrowRelease assms(2) have "s' = s\<lparr>lg_settlement := snd (release_escrow ?i ?to (lg_settlement s))\<rparr>"
      by (auto simp: apply_escrow_release_def split: if_splits prod.splits sum.splits)
    with EscrowRelease held_release [where j = j and s = s and i = ?i and to = ?to] show ?thesis by (auto simp: defs)
  next
    case EscrowRefund
    let ?i = "sub_slice (tx_payload tx) 0 32"
    from EscrowRefund assms(2) have "s' = s\<lparr>lg_settlement := snd (refund_escrow ?i (lg_settlement s))\<rparr>"
      by (auto simp: apply_escrow_refund_def split: if_splits prod.splits sum.splits)
    with EscrowRefund held_refund [where j = j and s = s and i = ?i] show ?thesis by (auto simp: defs)
  next
    case JobSettle
    from JobSettle assms(2) have "s' = snd (apply_job_settle c tx s)" "64 \<le> length (tx_payload tx)"
      by (auto simp: apply_job_settle_def Let_def split: if_splits)
    with JobSettle held_job_settle [where tx = tx and j = j and c = c and s = s] show ?thesis by (simp add: defs)
  qed
qed

lemma transaction_balance:
  assumes "apply_transaction c tx s = (res, s')"
  shows "held j s + opened_by c j tx s = paid_by c j tx s + lost_by c j tx s + held j s'"
  using assms
proof (cases rule: apply_transaction_cases)
  case 1
  then show ?thesis by (simp add: opened_by_def paid_by_def lost_by_def split: option.splits)
next
  case 2
  then show ?thesis by (rule dispatch_balance)
qed

lemma held_same:
  "held j (increment_height s) = held j s" "held j (snd (compute_state_root c s)) = held j s"
  "held j (set_validator_set_root root s) = held j s"
  by (rule held_cong, simp add: increment_height_def compute_state_root_def set_validator_set_root_def Let_def)+

lemma money_run_balance: "money_run c j s opened paid lost s' \<Longrightarrow> held j s + opened = paid + lost + held j s'"
proof (induction rule: money_run.induct)
  case (mr_tx opened paid lost s1 tx res s2)
  from transaction_balance [OF mr_tx.hyps(2), of j] mr_tx.IH show ?case by simp
qed (simp_all add: held_same)

section \<open>Properties\<close>

text \<open>C3. The money of a job balances over every run of the ledger: what its escrow held and what was put into it is what was
  paid out of it, what was lost by opening it again while it was active, and what it holds. Every run of the ledger is
  such a run.\<close>

theorem escrow_money_balances:
  "(money_run c j s opened paid lost s' \<longrightarrow> held j s + opened = paid + lost + held j s') \<and>
   ((\<exists>opened paid lost. money_run c j s opened paid lost s') \<longleftrightarrow> (ledger_step c)\<^sup>*\<^sup>* s s')"
  using money_run_balance [of c j s opened paid lost s'] money_run_steps [of c j s _ _ _ s'] steps_money_run [of c s s' j] by blast

definition example_job :: bytes32 where
  "example_job = replicate 32 7"

text \<open>Deposits of 100 and 50 and a release of the escrow: 50 are paid, the 100 are lost.\<close>

theorem escrow_money_balances_witness:
  "\<exists>s. money_run toy_crypto example_job ledger_new 150 50 100 s \<and> held example_job s = 0"
proof -
  let ?j = example_job and ?tx1 = "new_escrow_deposit toy_crypto example_job 100" and ?tx2 = "new_escrow_deposit toy_crypto example_job 50"
    and ?tx3 = "new_escrow_release toy_crypto example_job zero32"
  have len: "length ?j = 32" by (simp add: example_job_def)
  obtain r1 s1 where t1: "apply_transaction toy_crypto ?tx1 ledger_new = (r1, s1)" by fastforce
  obtain r2 s2 where t2: "apply_transaction toy_crypto ?tx2 s1 = (r2, s2)" by fastforce
  obtain r3 s3 where t3: "apply_transaction toy_crypto ?tx3 s2 = (r3, s3)" by fastforce
  have s1: "s1 = ledger_new\<lparr>lg_settlement := create_escrow ?j zero32 100 0 500 settlement_new\<rparr>" and a1: "applied toy_crypto ?tx1 ledger_new"
    using t1 deposit_applies [OF len, of toy_crypto 100 ledger_new] by (simp_all add: ledger_new_def applied_def)
  have s2: "s2 = s1\<lparr>lg_settlement := create_escrow ?j zero32 50 0 500 (lg_settlement s1)\<rparr>" and a2: "applied toy_crypto ?tx2 s1"
    using t2 deposit_applies [OF len, of toy_crypto 50 s1] s1 by (simp_all add: ledger_new_def applied_def)
  have pay: "fst (release_escrow ?j zero32 (lg_settlement s2)) = Inr 50"
    by (simp add: s2 release_escrow_def create_escrow_def job_escrow_new_def escrow_release_def)
  then have a3: "applied toy_crypto ?tx3 s2"
    using release_applies [OF len, of zero32 toy_crypto s2] by (cases "release_escrow ?j zero32 (lg_settlement s2)") (auto simp: applied_def)
  have o1: "opens_escrow ?tx1 = Some (?j, 100)" and o2: "opens_escrow ?tx2 = Some (?j, 50)" and o3: "opens_escrow ?tx3 = None"
    using len by (simp_all add: opens_escrow_def new_escrow_deposit_def new_escrow_release_def slice_whole)
  have h: "held ?j ledger_new = 0" "held ?j s1 = 100"
    by (simp_all add: s1 held_def get_escrow_def create_escrow_def job_escrow_new_def ledger_new_def settlement_new_def)
  have p: "paid_by toy_crypto ?j ?tx1 ledger_new = 0" "paid_by toy_crypto ?j ?tx2 s1 = 0" "paid_by toy_crypto ?j ?tx3 s2 = 50"
    using a3 pay len by (simp_all add: paid_by_def new_escrow_deposit_def new_escrow_release_def slice_whole payment_def Let_def)
  note sums = opened_by_def lost_by_def a1 a2 a3 o1 o2 o3 h p
  have r1: "money_run toy_crypto ?j ledger_new 100 0 0 s1" using mr_tx [OF mr_start t1, of ?j] by (simp add: sums)
  have r2: "money_run toy_crypto ?j ledger_new 150 0 100 s2" using mr_tx [OF r1 t2] by (simp add: sums)
  have r3: "money_run toy_crypto ?j ledger_new 150 50 100 s3" using mr_tx [OF r2 t3] by (simp add: sums)
  with escrow_money_balances [of toy_crypto ?j ledger_new 150 50 100 s3] h(1) show ?thesis by auto
qed

text \<open>A job whose escrow is not active stays so, and nothing is paid for it, until a transaction opens the escrow again.\<close>

theorem settled_job_stays_settled:
  assumes "money_run c j s 0 paid lost s'" "held j s = 0"
  shows "paid = 0 \<and> lost = 0 \<and> held j s' = 0"
  using money_run_balance [OF assms(1)] assms(2) by simp

theorem settled_job_stays_settled_witness:
  "held example_job (increment_height ledger_new) = 0"
  using settled_job_stays_settled [OF mr_height [OF mr_start [of toy_crypto example_job ledger_new]]]
  by (simp add: held_def get_escrow_def ledger_new_def settlement_new_def)

end
