(* ===== verification/Spec2Isabelle.thy ===== *)
theory Spec2Isabelle
  imports Consensus Staking Crdt Encoding CrossPartition Partitions Disputes Jobs Scenes Assets Containers Routing Governance ChainSync Artifacts Merkle Network Operators NodeStore Sdk CoreTypes Agreement Escrows
begin

text \<open>
  A verification development of Lite-Vision, a two-plane network in Rust: the \<^emph>\<open>truth plane\<close> is a chain with BFT
  consensus that keeps escrows, operators, receipts and governance; the \<^emph>\<open>intelligence plane\<close> runs jobs on kernels,
  meters, verifies and disputes them; the storage plane keeps replicated data, partitions and artifacts; the
  container format carries rendered scenes. All source paths are under \<open>src/crates/\<close>.

  \<^bold>\<open>How code becomes definitions.\<close> A struct is a record, an enum a datatype with the source's constructors, \<open>u8\<close> to
  \<open>u128\<close> are words of that width with Rust's wrapping arithmetic (the release profile does not check overflow) and
  its saturating operations, \<open>[u8; 32]\<close> and \<open>Vec<u8>\<close> are byte lists, \<open>HashMap\<close> and \<open>BTreeMap\<close> are association lists
  behind the locale \<open>kv_store\<close> of \<open>Prelude\<close>. An operation on \<open>&mut self\<close> that returns a \<open>Result\<close> is a function to the
  result and the state it leaves behind; a panic is the value \<open>Panic\<close> of \<open>rust\<close>. blake3, SHA-256, Ed25519, bincode,
  ChaCha and the clock are not in the repository: they are arguments of the definitions that use them, and a
  theorem that needs more of them (two dispute ids do not collide across jobs) says so in a hypothesis. Public calls
  on a component are the steps of an inductive relation; the locales \<open>step_closed\<close>, \<open>transition_system\<close> and
  \<open>simulation\<close> of \<open>Prelude\<close> give the reasoning about runs, and every component interprets them on its own steps.

  \<^bold>\<open>Truth plane.\<close>
  \<^item> \<open>Settlement\<close>: \<open>truth/src/settlement.rs\<close>, escrows, operators with their stake index, receipt anchors, verifier rewards
    and slashing. Escrows pay at most once, the index lists exactly the operators whose stake was not last touched by a
    slash, rewards are conserved.
  \<^item> \<open>Transactions\<close>, \<open>Ledger\<close>: \<open>transaction.rs\<close>, \<open>state.rs\<close>, \<open>block.rs\<close>; every handler, dispatch and block application. The
    ledger invariant, no effect of failed transactions, which signatures are checked, payload round trips.
  \<^item> \<open>Staking\<close>: \<open>validator_set.rs\<close>; the total stake is the sum of the stakes over runs of accounted calls, and exactly those keep
    it so; there quorums of stake overlap (locale \<open>weighted_quorum\<close>); slashing takes what it reports.
  \<^item> \<open>Validators\<close> with \<open>Float64\<close>: \<open>validator.rs\<close>; slash fractions computed in \<open>f64\<close> are exact, jail is served, rewards bounded.
  \<^item> \<open>Consensus\<close>: \<open>consensus.rs\<close>; votes, certificates and the view state machine, with votes as one call and with other
    calls between its locks; certificates overlap, leaders rotate, what finalizing a block does on success and failure.
  \<^item> \<open>Agreement\<close>, over \<open>Consensus\<close>: several engines fed from one set of cast votes agree within a view; a round of enough votes
    after entering a view finalizes; between rounds there is no agreement.
  \<^item> \<open>Escrows\<close>, over \<open>Ledger\<close> and \<open>Settlement\<close>: the money of a job balances over every run of the ledger.
  \<^item> \<open>CrossPartition\<close>: \<open>cross_partition.rs\<close>; messages are consumed once, receipts are permanent, Merkle paths are accepted.
  \<^item> \<open>Governance\<close>: \<open>governance.rs\<close>; proposals and the exact tally. \<open>ChainSync\<close>: \<open>pruning.rs\<close>, \<open>sync.rs\<close>; what pruning keeps
    and which heights are missing.
  \<^item> \<open>Merkle\<close>: \<open>cryptography.rs\<close>; the root built by levels is the root defined by halves and binds the leaves, the proofs
    the tree makes, key rotation and signatures.
  \<^item> \<open>NodeStore\<close>: \<open>storage.rs\<close>, \<open>rpc.rs\<close>; what is persisted is loaded again over a disk of named files, and a ledger with an entry in
    a byte-keyed map is not persisted (JSON keys are strings, \<open>codecs_ok\<close>); a failed save loses the old state, pruning bounds; requests, connections and the transaction index of a node.

  \<^bold>\<open>Intelligence plane.\<close>
  \<^item> \<open>Metering\<close>: \<open>intelligence/src/receipts.rs\<close>. \<open>Kernel\<close>: \<open>kernel.rs\<close>. \<open>Verification\<close>: \<open>verification.rs\<close>, with the redundancy
    decision equal to a majority count. \<open>Jobs\<close>: \<open>job.rs\<close>, which uses the three, with the life of a job from its ticket to its refund. \<open>Disputes\<close>: \<open>dispute.rs\<close>. \<open>Routing\<close>:
    \<open>routing.rs\<close>; the best eligible operators are selected, up to the points of deterministic mode, scores do not overflow. \<open>Operators\<close>: \<open>memory.rs\<close>,
    \<open>operator.rs\<close>, \<open>receipt.rs\<close>, \<open>render.rs\<close>.

  \<^bold>\<open>Storage, core, network, containers, observability.\<close>
  \<^item> \<open>Crdt\<close>: \<open>storage/src/crdt.rs\<close>; counters and version vectors interpret the locale \<open>replicated\<close>, whose convergence
    theorem gives order-independence of merges. \<open>Partitions\<close>: \<open>partition_manager.rs\<close>, refined to a status life cycle.
    \<open>Artifacts\<close>: \<open>artifact.rs\<close>, \<open>compaction.rs\<close>, \<open>memory_model.rs\<close>, \<open>partition.rs\<close>.
  \<^item> \<open>Encoding\<close>: \<open>core/src/canonical.rs\<close>, \<open>deterministic.rs\<close>; every sequence of fields is read back as written. \<open>CoreTypes\<close>:
    \<open>core/src/types.rs\<close>, \<open>conformance.rs\<close>; what domain-separated hashes bind, when the conformance tests pass.
  \<^item> \<open>Scenes\<close>, \<open>Assets\<close>, \<open>Containers\<close>: \<open>rpack/src/scene.rs\<close> (Kahn's loop returns and decides acyclicity exactly), \<open>asset.rs\<close>
    (only content that hashes to its id is served, tiers stay within their limits), \<open>container.rs\<close>, \<open>delta.rs\<close>.
  \<^item> \<open>Network\<close>: \<open>net/src/p2p.rs\<close>, \<open>network.rs\<close>, \<open>message.rs\<close>, \<open>protocol.rs\<close>; a banned peer stays out when calls run one after
    the other, and what interleaving them at the lock sections allows.
  \<^item> \<open>Auditing\<close>: \<open>observability/src/redaction.rs\<close>, \<open>replay.rs\<close>; removed fields do not reach a redacted document, the
    hash chain binds the hashed entries of a trail, bundles replay exactly. \<open>Telemetry\<close>: \<open>health.rs\<close>, \<open>metrics.rs\<close>, \<open>tracing.rs\<close>, \<open>logging.rs\<close>; reports,
    exported metrics, trace contexts, and the tracer's lock with a call that waits forever.
  \<^item> \<open>Sdk\<close>: \<open>sdk/src/client.rs\<close>, \<open>jobs.rs\<close>, \<open>receipts.rs\<close>; the JSON-RPC call and its errors, what a job id binds, and how failed
    calls for a receipt or a job become results the client makes up.

  \<^bold>\<open>Loops and bounds.\<close> All loops are structural or have a termination proof (\<open>write_varint\<close>, \<open>varint_loop\<close>, the levels of
  a Merkle tree) except Kahn's loop, a \<open>partial_function\<close>, which is shown to return on every input. There is no fuel.

  \<^bold>\<open>Not modelled.\<close> The accept loop of the RPC server and the set-up of the tracing subscriber are I/O; \<open>cli/src/main.rs\<close>
  prints, and \<open>cli/src/node.rs\<close> is not part of the build. \<open>integration.rs\<close> of both planes and \<open>net/src/tests.rs\<close> are tests over
  the components above. \<open>truth/src/messaging.rs\<close> and \<open>core/src/error.rs\<close> are data without operations. Display texts and serde
  derivations have no counterpart; where a document is exchanged its codec is an argument. The async wrappers that only
  take a lock and forward are the operation they forward to. \<open>f64\<close> values that are only carried are bit patterns; those
  computed with are finite and not negative.
\<close>

end
